theory Spec2Isabelle
  imports Main "HOL-Library.Signed_Division"
begin

section \<open>Values thrown by the program\<close>

text \<open>
  Every \<open>throw\<close> of the TypeScript source is a value of type \<open>error\<close>; a function that can
  throw returns \<open>error + 'a\<close>, with \<open>Inl\<close> for the thrown value. Every constructor but
  the last is a class of errors and carries the message; \<open>NonError\<close> is a thrown value that
  is not an instance of \<open>Error\<close> (the source converts it with \<open>String(error)\<close>).
  \<open>InvalidAddressError\<close> and \<open>IntegerOutOfRangeError\<close> are thrown by the encoders of the viem
  library.

  Text is an Isabelle \<open>string\<close>: a list of character codes below 256.
\<close>

datatype error =
    Error string
  | SyntaxError string
  | SqliteError string
  | TransactionNotFoundError string
  | InvalidAddressError string
  | IntegerOutOfRangeError string
  | NonError string

section \<open>bigint and its decimal text (\<open>toString\<close>, \<open>BigInt(string)\<close>)\<close>

text \<open>
  A JavaScript \<open>bigint\<close> is an unbounded integer: \<open>int\<close>. The store keeps every bigint as
  decimal text, written by \<open>bigint.toString()\<close> and read back by \<open>BigInt(text)\<close>.
\<close>

definition digit_chars :: string where
  "digit_chars = ''0123456789''"

function nat_toString :: "nat \<Rightarrow> string" where
  "nat_toString n =
     (if n < 10 then [digit_chars ! n]
      else nat_toString (n div 10) @ [digit_chars ! (n mod 10)])"
  by pat_completeness auto
termination
  by (relation "measure (\<lambda>n. n)") auto

declare nat_toString.simps [simp del]

definition bigint_toString :: "int \<Rightarrow> string" where
  "bigint_toString i =
     (if i < 0 then CHR ''-'' # nat_toString (nat (- i)) else nat_toString (nat i))"

text \<open>
  \<open>BigInt(text)\<close> reads its argument by the grammar \<open>StringIntegerLiteral\<close>: white space
  at both ends is dropped; what is left is nothing (the value is \<open>0n\<close>), decimal digits with
  an optional sign, or one of the prefixes \<open>0x\<close>, \<open>0o\<close>, \<open>0b\<close> (in either case, unsigned)
  followed by at least one digit of that radix. Any other text raises a \<open>SyntaxError\<close>. Text
  is a list of character codes below 256; the white space among them is TAB, LF, VT, FF,
  CR, SP and NBSP.
\<close>

definition isStrWhiteSpaceChar :: "char \<Rightarrow> bool" where
  "isStrWhiteSpaceChar c =
     (let code = (of_char c :: nat) in (9 \<le> code \<and> code \<le> 13) \<or> code = 32 \<or> code = 160)"

definition trimString :: "string \<Rightarrow> string" where
  "trimString s =
     rev (dropWhile isStrWhiteSpaceChar (rev (dropWhile isStrWhiteSpaceChar s)))"

text \<open>The value of a digit in a radix up to 16, from its character code.\<close>

definition digit_val :: "nat \<Rightarrow> char \<Rightarrow> nat option" where
  "digit_val radix c =
     (let code = (of_char c :: nat);
          v = (if 48 \<le> code \<and> code \<le> 57 then code - 48
               else if 97 \<le> code \<and> code \<le> 102 then code - 87
               else if 65 \<le> code \<and> code \<le> 70 then code - 55
               else radix)
      in if v < radix then Some v else None)"

fun parse_digits :: "nat \<Rightarrow> nat \<Rightarrow> string \<Rightarrow> nat option" where
  "parse_digits radix acc [] = Some acc"
| "parse_digits radix acc (c # cs) =
     (case digit_val radix c of
        None \<Rightarrow> None
      | Some d \<Rightarrow> parse_digits radix (radix * acc + d) cs)"

definition radixOfPrefix :: "string \<Rightarrow> nat option" where
  "radixOfPrefix s =
     (if take 2 s = ''0x'' \<or> take 2 s = ''0X'' then Some 16
      else if take 2 s = ''0o'' \<or> take 2 s = ''0O'' then Some 8
      else if take 2 s = ''0b'' \<or> take 2 s = ''0B'' then Some 2
      else None)"

definition BigInt :: "string \<Rightarrow> error + int" where
  "BigInt text =
     (let s = trimString text in
      if s = [] then Inr 0
      else
        (case radixOfPrefix s of
           Some radix \<Rightarrow>
             (if drop 2 s = [] then Inl (SyntaxError text)
              else case parse_digits radix 0 (drop 2 s) of
                     None \<Rightarrow> Inl (SyntaxError text)
                   | Some n \<Rightarrow> Inr (int n))
         | None \<Rightarrow>
             (if hd s = CHR ''-'' \<or> hd s = CHR ''+'' then
                (if tl s = [] then Inl (SyntaxError text)
                 else case parse_digits 10 0 (tl s) of
                        None \<Rightarrow> Inl (SyntaxError text)
                      | Some n \<Rightarrow> Inr (if hd s = CHR ''-'' then - int n else int n))
              else
                (case parse_digits 10 0 s of
                   None \<Rightarrow> Inl (SyntaxError text)
                 | Some n \<Rightarrow> Inr (int n)))))"

section \<open>Text in lower case (\<open>String.prototype.toLowerCase\<close>)\<close>

text \<open>
  Among the character codes below 256 the capital letters are \<open>A\<close> to \<open>Z\<close> and the codes
  192 to 222 without 215; the small letter of each is 32 further.
\<close>

definition toLowerCase_char :: "char \<Rightarrow> char" where
  "toLowerCase_char c =
     (let k = (of_char c :: nat)
      in if (65 \<le> k \<and> k \<le> 90) \<or> (192 \<le> k \<and> k \<le> 222 \<and> k \<noteq> 215) then char_of (k + 32)
         else c)"

definition toLowerCase :: "string \<Rightarrow> string" where
  "toLowerCase s = map toLowerCase_char s"

section \<open>Keccak-256 (\<open>keccak256\<close> of the viem library)\<close>

unbundle bit_operations_syntax

text \<open>
  The hash function is not part of the repository: it is \<open>keccak256\<close> of viem, the
  Keccak-256 sponge (rate 136 bytes, padding \<open>0x01 .. 0x80\<close>, 24 rounds of
  Keccak-f[1600]). A lane is a 64-bit word, kept as a natural number below \<open>2 ^ 64\<close>; the
  state is the list of its 25 lanes, lane \<open>(x, y)\<close> at index \<open>x + 5 * y\<close>.
\<close>

definition rotl64 :: "nat \<Rightarrow> nat \<Rightarrow> nat" where
  "rotl64 x r = (x * 2 ^ r) mod 18446744073709551616 + x div 2 ^ (64 - r)"

definition not64 :: "nat \<Rightarrow> nat" where
  "not64 x = 18446744073709551615 - x"

definition roundConstants :: "nat list" where
  "roundConstants =
     [0x0000000000000001, 0x0000000000008082, 0x800000000000808A, 0x8000000080008000,
      0x000000000000808B, 0x0000000080000001, 0x8000000080008081, 0x8000000000008009,
      0x000000000000008A, 0x0000000000000088, 0x0000000080008009, 0x000000008000000A,
      0x000000008000808B, 0x800000000000008B, 0x8000000000008089, 0x8000000000008003,
      0x8000000000008002, 0x8000000000000080, 0x000000000000800A, 0x800000008000000A,
      0x8000000080008081, 0x8000000000008080, 0x0000000080000001, 0x8000000080008008]"

text \<open>The step \<open>\<theta>\<close>: column parities, their combination, and the lanes after it.\<close>

definition columnParity :: "nat list \<Rightarrow> nat list" where
  "columnParity a =
     [a ! 0 XOR a ! 5 XOR a ! 10 XOR a ! 15 XOR a ! 20,
      a ! 1 XOR a ! 6 XOR a ! 11 XOR a ! 16 XOR a ! 21,
      a ! 2 XOR a ! 7 XOR a ! 12 XOR a ! 17 XOR a ! 22,
      a ! 3 XOR a ! 8 XOR a ! 13 XOR a ! 18 XOR a ! 23,
      a ! 4 XOR a ! 9 XOR a ! 14 XOR a ! 19 XOR a ! 24]"

definition thetaD :: "nat list \<Rightarrow> nat list" where
  "thetaD c =
     [c ! 4 XOR rotl64 (c ! 1) 1, c ! 0 XOR rotl64 (c ! 2) 1,
      c ! 1 XOR rotl64 (c ! 3) 1, c ! 2 XOR rotl64 (c ! 4) 1,
      c ! 3 XOR rotl64 (c ! 0) 1]"

definition thetaApply :: "nat list \<Rightarrow> nat list \<Rightarrow> nat list" where
  "thetaApply d a =
     [a ! 0 XOR d ! 0, a ! 1 XOR d ! 1, a ! 2 XOR d ! 2, a ! 3 XOR d ! 3, a ! 4 XOR d ! 4,
      a ! 5 XOR d ! 0, a ! 6 XOR d ! 1, a ! 7 XOR d ! 2, a ! 8 XOR d ! 3, a ! 9 XOR d ! 4,
      a ! 10 XOR d ! 0, a ! 11 XOR d ! 1, a ! 12 XOR d ! 2, a ! 13 XOR d ! 3,
      a ! 14 XOR d ! 4, a ! 15 XOR d ! 0, a ! 16 XOR d ! 1, a ! 17 XOR d ! 2,
      a ! 18 XOR d ! 3, a ! 19 XOR d ! 4, a ! 20 XOR d ! 0, a ! 21 XOR d ! 1,
      a ! 22 XOR d ! 2, a ! 23 XOR d ! 3, a ! 24 XOR d ! 4]"

text \<open>The steps \<open>\<rho>\<close> and \<open>\<pi>\<close>: each lane rotated by its offset and moved to its new place.\<close>

definition rhoPi :: "nat list \<Rightarrow> nat list" where
  "rhoPi a =
     [a ! 0, rotl64 (a ! 6) 44, rotl64 (a ! 12) 43, rotl64 (a ! 18) 21, rotl64 (a ! 24) 14,
      rotl64 (a ! 3) 28, rotl64 (a ! 9) 20, rotl64 (a ! 10) 3, rotl64 (a ! 16) 45,
      rotl64 (a ! 22) 61, rotl64 (a ! 1) 1, rotl64 (a ! 7) 6, rotl64 (a ! 13) 25,
      rotl64 (a ! 19) 8, rotl64 (a ! 20) 18, rotl64 (a ! 4) 27, rotl64 (a ! 5) 36,
      rotl64 (a ! 11) 10, rotl64 (a ! 17) 15, rotl64 (a ! 23) 56, rotl64 (a ! 2) 62,
      rotl64 (a ! 8) 55, rotl64 (a ! 14) 39, rotl64 (a ! 15) 41, rotl64 (a ! 21) 2]"

definition chi :: "nat list \<Rightarrow> nat list" where
  "chi b =
     [b ! 0 XOR (not64 (b ! 1) AND b ! 2), b ! 1 XOR (not64 (b ! 2) AND b ! 3),
      b ! 2 XOR (not64 (b ! 3) AND b ! 4), b ! 3 XOR (not64 (b ! 4) AND b ! 0),
      b ! 4 XOR (not64 (b ! 0) AND b ! 1), b ! 5 XOR (not64 (b ! 6) AND b ! 7),
      b ! 6 XOR (not64 (b ! 7) AND b ! 8), b ! 7 XOR (not64 (b ! 8) AND b ! 9),
      b ! 8 XOR (not64 (b ! 9) AND b ! 5), b ! 9 XOR (not64 (b ! 5) AND b ! 6),
      b ! 10 XOR (not64 (b ! 11) AND b ! 12), b ! 11 XOR (not64 (b ! 12) AND b ! 13),
      b ! 12 XOR (not64 (b ! 13) AND b ! 14), b ! 13 XOR (not64 (b ! 14) AND b ! 10),
      b ! 14 XOR (not64 (b ! 10) AND b ! 11), b ! 15 XOR (not64 (b ! 16) AND b ! 17),
      b ! 16 XOR (not64 (b ! 17) AND b ! 18), b ! 17 XOR (not64 (b ! 18) AND b ! 19),
      b ! 18 XOR (not64 (b ! 19) AND b ! 15), b ! 19 XOR (not64 (b ! 15) AND b ! 16),
      b ! 20 XOR (not64 (b ! 21) AND b ! 22), b ! 21 XOR (not64 (b ! 22) AND b ! 23),
      b ! 22 XOR (not64 (b ! 23) AND b ! 24), b ! 23 XOR (not64 (b ! 24) AND b ! 20),
      b ! 24 XOR (not64 (b ! 20) AND b ! 21)]"

definition iota :: "nat \<Rightarrow> nat list \<Rightarrow> nat list" where
  "iota rc a = (a ! 0 XOR rc) # tl a"

definition keccakRound :: "nat list \<Rightarrow> nat \<Rightarrow> nat list" where
  "keccakRound a rc = iota rc (chi (rhoPi (thetaApply (thetaD (columnParity a)) a)))"

definition keccakF :: "nat list \<Rightarrow> nat list" where
  "keccakF a = foldl keccakRound a roundConstants"

text \<open>Bytes are natural numbers below 256; a lane is read and written little-endian.\<close>

definition laneOfBlock :: "nat list \<Rightarrow> nat \<Rightarrow> nat" where
  "laneOfBlock block i =
     block ! (8 * i) + 256 * (block ! (8 * i + 1) + 256 * (block ! (8 * i + 2) +
     256 * (block ! (8 * i + 3) + 256 * (block ! (8 * i + 4) + 256 * (block ! (8 * i + 5) +
     256 * (block ! (8 * i + 6) + 256 * (block ! (8 * i + 7))))))))"

definition bytesOfLane :: "nat \<Rightarrow> nat list" where
  "bytesOfLane v = map (\<lambda>i. (v div 256 ^ i) mod 256) [0..<8]"

definition pad136 :: "nat list \<Rightarrow> nat list" where
  "pad136 m =
     (if 136 - length m mod 136 = 1 then m @ [0x81]
      else m @ [0x01] @ replicate (136 - length m mod 136 - 2) 0 @ [0x80])"

function blocks136 :: "nat list \<Rightarrow> nat list list" where
  "blocks136 bs = (if bs = [] then [] else take 136 bs # blocks136 (drop 136 bs))"
  by pat_completeness auto
termination
  by (relation "measure length") auto

declare blocks136.simps [simp del]

definition absorbBlock :: "nat list \<Rightarrow> nat list \<Rightarrow> nat list" where
  "absorbBlock a block =
     keccakF (map (\<lambda>i. if i < 17 then a ! i XOR laneOfBlock block i else a ! i) [0..<25])"

definition keccak_256 :: "nat list \<Rightarrow> nat list" where
  "keccak_256 m =
     concat (map bytesOfLane (take 4 (foldl absorbBlock (replicate 25 0) (blocks136 (pad136 m)))))"

section \<open>Hex strings\<close>

definition hexDigits :: string where
  "hexDigits = ''0123456789abcdef''"

definition bytesToHex :: "nat list \<Rightarrow> string" where
  "bytesToHex bs = ''0x'' @ concat (map (\<lambda>b. [hexDigits ! (b div 16), hexDigits ! (b mod 16)]) bs)"

definition charCodeToBase16 :: "char \<Rightarrow> nat option" where
  "charCodeToBase16 c =
     (let code = (of_char c :: nat)
      in if 48 \<le> code \<and> code \<le> 57 then Some (code - 48)
         else if 65 \<le> code \<and> code \<le> 70 then Some (code - 55)
         else if 97 \<le> code \<and> code \<le> 102 then Some (code - 87)
         else None)"

fun nibblesToBytes :: "string \<Rightarrow> error + nat list" where
  "nibblesToBytes (l # r # rest) =
     (case (charCodeToBase16 l, charCodeToBase16 r) of
        (Some nibbleLeft, Some nibbleRight) \<Rightarrow>
          (case nibblesToBytes rest of
             Inl e \<Rightarrow> Inl e
           | Inr bs \<Rightarrow> Inr ((nibbleLeft * 16 + nibbleRight) # bs))
      | invalid \<Rightarrow> Inl (Error ''Invalid byte sequence''))"
| "nibblesToBytes rest = Inr []"

text \<open>\<open>hexToBytes\<close>: the text after the first two characters, with a leading \<open>0\<close> if odd.\<close>

definition hexToBytes :: "string \<Rightarrow> error + nat list" where
  "hexToBytes hex =
     (let hexString = drop 2 hex
      in nibblesToBytes (if odd (length hexString) then CHR ''0'' # hexString else hexString))"

text \<open>
  \<open>keccak256(value)\<close> for a string: a string that starts with \<open>0x\<close> is hashed as the bytes
  it denotes, any other string as its characters. \<open>keccak256_text\<close> is
  \<open>keccak256(textEncoder.encode(text))\<close>.
\<close>

definition keccak256 :: "string \<Rightarrow> error + string" where
  "keccak256 v =
     (if take 2 v = ''0x'' then
        (case hexToBytes v of
           Inl e \<Rightarrow> Inl e
         | Inr bs \<Rightarrow> Inr (bytesToHex (keccak_256 bs)))
      else Inr (bytesToHex (keccak_256 (map of_char v))))"

definition keccak256_text :: "string \<Rightarrow> string" where
  "keccak256_text text = bytesToHex (keccak_256 (map of_char text))"

section \<open>Addresses (\<open>isAddress\<close> of the viem library)\<close>

text \<open>
  The encoders of viem accept as an address a text that is \<open>0x\<close> and 40 hex digits and
  that is either all in lower case or equal to its own checksum form: there the letter at
  place \<open>i\<close> is a capital exactly when the \<open>i\<close>-th half-byte of the Keccak-256 hash of
  the 40 digits in lower case (taken as text) is 8 or more.
\<close>

definition matchesAddressRegex :: "string \<Rightarrow> bool" where
  "matchesAddressRegex s =
     (take 2 s = ''0x'' \<and> length s = 42 \<and> list_all (\<lambda>c. charCodeToBase16 c \<noteq> None) (drop 2 s))"

definition toUpperCase_char :: "char \<Rightarrow> char" where
  "toUpperCase_char c =
     (let k = (of_char c :: nat) in if 97 \<le> k \<and> k \<le> 122 then char_of (k - 32) else c)"

definition hashNibble :: "nat list \<Rightarrow> nat \<Rightarrow> nat" where
  "hashNibble hash i = (if even i then hash ! (i div 2) div 16 else hash ! (i div 2) mod 16)"

definition checksumAddress :: "string \<Rightarrow> string" where
  "checksumAddress address =
     (let hexAddress = toLowerCase (drop 2 address);
          hash = keccak_256 (map of_char hexAddress)
      in ''0x'' @ map (\<lambda>(i, c). if i < 40 \<and> hashNibble hash i \<ge> 8 then toUpperCase_char c else c)
                    (enumerate 0 hexAddress))"

definition isAddress :: "string \<Rightarrow> bool" where
  "isAddress address =
     (if \<not> matchesAddressRegex address then False
      else if toLowerCase address = address then True
      else checksumAddress address = address)"

section \<open>The ledger (\<open>types.ts\<close>)\<close>

datatype TokenStandard = erc721 | erc1155

record ActiveListingState =
  orderHash :: string
  collection :: string
  tokenId :: string
  expectedProceedsWei :: int
  listedAtMs :: int
  tokenStandard :: TokenStandard
  listedQuantity :: int
  expectedPostSaleBalance :: "int option"

record BotState =
  version :: int
  commissionPoolWei :: int
  salePoolWei :: int
  pendingBurnAmount :: int
  pendingBurnCostWei :: int
  activeListings :: "ActiveListingState list"
  lastTaxBlock :: int

section \<open>The durable store (\<open>state/stateStore.ts\<close>)\<close>

definition STATE_VERSION :: int where
  "STATE_VERSION = 3"

text \<open>The rows of the two tables, with the column types of the schema.\<close>

record StateRow =
  version_col :: int
  commissionPoolWei_col :: string
  salePoolWei_col :: string
  lastTaxBlock_col :: string
  pendingBurnAmount_col :: string
  pendingBurnCostWei_col :: string

record ListingRow =
  orderHash_col :: string
  collection_col :: string
  tokenId_col :: string
  expectedProceedsWei_col :: string
  listedAtMs_col :: int
  tokenStandard_col :: "string option"
  listedQuantity_col :: "string option"
  expectedPostSaleBalance_col :: "string option"

text \<open>
  The database: table \<open>state\<close> holds at most the row with \<open>id = 1\<close>; table \<open>listings\<close> is
  the list of its rows in rowid order, which is the order of insertion into the emptied
  table. \<open>orderHash\<close> is its primary key.
\<close>

record database =
  state_table :: "StateRow option"
  listings_table :: "ListingRow list"

definition tokenStandard_text :: "TokenStandard \<Rightarrow> string" where
  "tokenStandard_text t = (case t of erc721 \<Rightarrow> ''erc721'' | erc1155 \<Rightarrow> ''erc1155'')"

definition listing_to_row :: "ActiveListingState \<Rightarrow> ListingRow" where
  "listing_to_row listing =
     \<lparr> orderHash_col = orderHash listing,
       collection_col = collection listing,
       tokenId_col = tokenId listing,
       expectedProceedsWei_col = bigint_toString (expectedProceedsWei listing),
       listedAtMs_col = listedAtMs listing,
       tokenStandard_col = Some (tokenStandard_text (tokenStandard listing)),
       listedQuantity_col = Some (bigint_toString (listedQuantity listing)),
       expectedPostSaleBalance_col =
         (case expectedPostSaleBalance listing of
            None \<Rightarrow> None
          | Some b \<Rightarrow> Some (bigint_toString b)) \<rparr>"

text \<open>\<open>INSERT INTO listings\<close>: a second row with the same primary key is refused.\<close>

definition insertListing :: "ListingRow list \<Rightarrow> ListingRow \<Rightarrow> error + ListingRow list" where
  "insertListing rows r =
     (if orderHash_col r \<in> set (map orderHash_col rows)
      then Inl (SqliteError ''UNIQUE constraint failed: listings.orderHash'')
      else Inr (rows @ [r]))"

fun insertListings :: "ListingRow list \<Rightarrow> ActiveListingState list \<Rightarrow> error + ListingRow list" where
  "insertListings rows [] = Inr rows"
| "insertListings rows (listing # rest) =
     (case insertListing rows (listing_to_row listing) of
        Inl e \<Rightarrow> Inl e
      | Inr rows' \<Rightarrow> insertListings rows' rest)"

text \<open>
  \<open>persistState\<close>: one transaction that upserts the scalar row (its version is always
  \<open>STATE_VERSION\<close>), deletes every listing row and inserts the current listings. A statement
  that throws rolls the transaction back: the database is then the one before the call.
\<close>

definition persistState :: "database \<Rightarrow> BotState \<Rightarrow> error + database" where
  "persistState db st =
     (let row = \<lparr> version_col = STATE_VERSION,
                  commissionPoolWei_col = bigint_toString (commissionPoolWei st),
                  salePoolWei_col = bigint_toString (salePoolWei st),
                  lastTaxBlock_col = bigint_toString (lastTaxBlock st),
                  pendingBurnAmount_col = bigint_toString (pendingBurnAmount st),
                  pendingBurnCostWei_col = bigint_toString (pendingBurnCostWei st) \<rparr>
      in case insertListings [] (activeListings st) of
           Inl e \<Rightarrow> Inl e
         | Inr rows \<Rightarrow> Inr \<lparr> state_table = Some row, listings_table = rows \<rparr>)"

definition row_to_listing :: "ListingRow \<Rightarrow> error + ActiveListingState" where
  "row_to_listing r =
     (case BigInt (expectedProceedsWei_col r) of
        Inl e \<Rightarrow> Inl e
      | Inr proceeds \<Rightarrow>
     (case BigInt (case listedQuantity_col r of None \<Rightarrow> ''1'' | Some q \<Rightarrow> q) of
        Inl e \<Rightarrow> Inl e
      | Inr quantity \<Rightarrow>
     (case (case expectedPostSaleBalance_col r of
              None \<Rightarrow> Inr None
            | Some b \<Rightarrow> (case BigInt b of Inl e \<Rightarrow> Inl e | Inr v \<Rightarrow> Inr (Some v))) of
        Inl e \<Rightarrow> Inl e
      | Inr balance \<Rightarrow>
          Inr \<lparr> orderHash = orderHash_col r,
                collection = collection_col r,
                tokenId = tokenId_col r,
                expectedProceedsWei = proceeds,
                listedAtMs = listedAtMs_col r,
                tokenStandard =
                  (if (case tokenStandard_col r of None \<Rightarrow> ''erc721'' | Some t \<Rightarrow> t) = ''erc1155''
                   then erc1155 else erc721),
                listedQuantity = quantity,
                expectedPostSaleBalance = balance \<rparr>)))"

fun rows_to_listings :: "ListingRow list \<Rightarrow> error + ActiveListingState list" where
  "rows_to_listings [] = Inr []"
| "rows_to_listings (r # rs) =
     (case row_to_listing r of
        Inl e \<Rightarrow> Inl e
      | Inr listing \<Rightarrow>
          (case rows_to_listings rs of
             Inl e \<Rightarrow> Inl e
           | Inr listings \<Rightarrow> Inr (listing # listings)))"

text \<open>
  \<open>SELECT ... FROM listings ORDER BY listedAtMs ASC\<close>: the rows by ascending
  \<open>listedAtMs\<close>; rows with the same \<open>listedAtMs\<close> stay in rowid order.
\<close>

definition select_listings :: "database \<Rightarrow> ListingRow list" where
  "select_listings db = sort_key listedAtMs_col (listings_table db)"

text \<open>\<open>readStateFromDatabase\<close>: \<open>Inr None\<close> is the source's \<open>null\<close> (no scalar row).\<close>

definition readStateFromDatabase :: "database \<Rightarrow> error + BotState option" where
  "readStateFromDatabase db =
     (case state_table db of
        None \<Rightarrow> Inr None
      | Some stateRow \<Rightarrow>
          (let storedVersion = version_col stateRow;
               normalizedVersion =
                 (if storedVersion < STATE_VERSION then STATE_VERSION else storedVersion);
               listings = select_listings db
           in case BigInt (commissionPoolWei_col stateRow) of Inl e \<Rightarrow> Inl e | Inr commission \<Rightarrow>
              (case BigInt (salePoolWei_col stateRow) of Inl e \<Rightarrow> Inl e | Inr sale \<Rightarrow>
              (case BigInt (pendingBurnAmount_col stateRow) of Inl e \<Rightarrow> Inl e | Inr burnAmount \<Rightarrow>
              (case BigInt (pendingBurnCostWei_col stateRow) of Inl e \<Rightarrow> Inl e | Inr burnCost \<Rightarrow>
              (case BigInt (lastTaxBlock_col stateRow) of Inl e \<Rightarrow> Inl e | Inr taxBlock \<Rightarrow>
              (case rows_to_listings listings of Inl e \<Rightarrow> Inl e | Inr active \<Rightarrow>
                 Inr (Some \<lparr> version = normalizedVersion,
                             commissionPoolWei = commission,
                             salePoolWei = sale,
                             pendingBurnAmount = burnAmount,
                             pendingBurnCostWei = burnCost,
                             activeListings = active,
                             lastTaxBlock = taxBlock \<rparr>))))))))"

text \<open>Saving a ledger and reading the store back: \<open>save()\<close> followed by a load.\<close>

definition persist_then_load :: "database \<Rightarrow> BotState \<Rightarrow> error + BotState option" where
  "persist_then_load db st =
     (case persistState db st of
        Inl e \<Rightarrow> Inl e
      | Inr db' \<Rightarrow> readStateFromDatabase db')"

text \<open>
  A \<open>StateStore\<close> after \<open>load\<close>: its database connection and its in-memory ledger. The
  services mutate the ledger object in place; here each returns the store with the new
  ledger. \<open>save\<close> commits the in-memory ledger; when the transaction throws, the database
  keeps its last committed content and the in-memory ledger keeps its mutations.
\<close>

record StateStore =
  db :: database
  state :: BotState

definition save :: "StateStore \<Rightarrow> error + StateStore" where
  "save store =
     (case persistState (db store) (state store) of
        Inl e \<Rightarrow> Inl e
      | Inr db' \<Rightarrow> Inr (store\<lparr>db := db'\<rparr>))"

definition createDefaultState :: "int \<Rightarrow> BotState" where
  "createDefaultState initialBlock =
     \<lparr> version = STATE_VERSION, commissionPoolWei = 0, salePoolWei = 0,
       pendingBurnAmount = 0, pendingBurnCostWei = 0, activeListings = [],
       lastTaxBlock = initialBlock \<rparr>"

text \<open>
  \<open>load\<close>: \<open>dbAlreadyExists\<close> is whether the database file existed, \<open>legacy\<close> the outcome of
  \<open>tryLoadFromLegacyJson\<close> (consulted only when the file did not exist).
\<close>

definition load ::
  "bool \<Rightarrow> database \<Rightarrow> (error + BotState option) \<Rightarrow> int \<Rightarrow> error + StateStore" where
  "load dbAlreadyExists database legacy initialBlock =
     (case readStateFromDatabase database of
        Inl e \<Rightarrow> Inl e
      | Inr (Some loadedState) \<Rightarrow> Inr \<lparr> db = database, state = loadedState \<rparr>
      | Inr None \<Rightarrow>
          (case (if \<not> dbAlreadyExists then legacy else Inr None) of
             Inl e \<Rightarrow> Inl e
           | Inr fromLegacy \<Rightarrow>
               save \<lparr> db = database,
                      state = (case fromLegacy of
                                 None \<Rightarrow> createDefaultState initialBlock
                               | Some legacyState \<Rightarrow> legacyState) \<rparr>))"

section \<open>Configuration and the outside world\<close>

record config =
  TREASURY_ADDRESS :: string
  TOKEN_ADDRESS :: "string option"
  BUYBACK_ROUTER_ADDRESS :: "string option"
  WETH_ADDRESS :: "string option"
  BURN_ADDRESS :: string
  BUYBACK_CHUNK_WEI :: "int option"
  TARGET_COLLECTION :: "string option"
  TARGET_COLLECTION_SLUG :: "string option"
  TARGET_TOKEN_ID :: "string option"
  MAX_LISTING_CHECKS_PER_TICK :: nat
  LOOP_INTERVAL_MS :: int

text \<open>
  Call data: that of a call of \<open>transfer(recipient, amount)\<close> or of
  \<open>swapExactETHForTokensSupportingFeeOnTransferTokens(amountOutMin, path, to, deadline)\<close>,
  or the hex text that came from the marketplace. The bytes of an encoded call are not
  modelled: its call data is the call.
\<close>

datatype calldata =
    Transfer string int
  | SwapExactETHForTokens int "string list" string int
  | RawCalldata string

text \<open>
  \<open>encodeFunctionData\<close> of viem checks the arguments against their ABI types, in their
  order, before it returns: an \<open>address\<close> has to pass \<open>isAddress\<close> and a \<open>uint256\<close> has
  to lie between 0 and \<open>2 ^ 256 - 1\<close>. The first argument that fails is thrown (the messages
  are abridged).
\<close>

definition maxUint256 :: int where
  "maxUint256 = 2 ^ 256 - 1"

definition checkAddress :: "string \<Rightarrow> error option" where
  "checkAddress a =
     (if isAddress a then None
      else Some (InvalidAddressError (''Address '' @ a @ '' is invalid.'')))"

definition checkUint256 :: "int \<Rightarrow> error option" where
  "checkUint256 v =
     (if 0 \<le> v \<and> v \<le> maxUint256 then None
      else Some (IntegerOutOfRangeError
                  (''Number '' @ bigint_toString v @
                   '' is not in safe 256-bit unsigned integer range'')))"

fun firstThrown :: "error option list \<Rightarrow> error option" where
  "firstThrown [] = None"
| "firstThrown (None # rest) = firstThrown rest"
| "firstThrown (Some e # rest) = Some e"

definition encodeFunctionData :: "calldata \<Rightarrow> error + calldata" where
  "encodeFunctionData call =
     (case firstThrown
             (case call of
                Transfer recipient amount \<Rightarrow> [checkAddress recipient, checkUint256 amount]
              | SwapExactETHForTokens amountOutMin path to deadline \<Rightarrow>
                  [checkUint256 amountOutMin] @ map checkAddress path @
                  [checkAddress to, checkUint256 deadline]
              | RawCalldata hex \<Rightarrow> []) of
        Some e \<Rightarrow> Inl e
      | None \<Rightarrow> Inr call)"

record ExecuteSeaportRequest =
  router_req :: string
  valueWei_req :: int
  calldata_req :: calldata
  callValueWei_req :: int

record OpenSeaListingConsiderationBlueprint =
  itemType :: int
  token :: string
  identifierOrCriteria :: int
  originalAmount :: int
  recipient :: string
  isSellerProceeds :: bool

record OpenSeaListingBlueprint =
  protocolAddress :: string
  offerToken :: string
  offerIdentifier :: int
  offerItemType :: int
  offerStartAmount :: int
  offerEndAmount :: int
  consideration :: "OpenSeaListingConsiderationBlueprint list"
  originalConsiderationTotal :: int

record ExecutionPayload =
  router :: string
  calldata :: string
  valueWei :: int
  priceWei :: "int option"
  openSeaMetadata :: "OpenSeaListingBlueprint option"

record ListingResult =
  orderHash_result :: string
  sellerProceedsWei :: int
  listingPriceWei :: int

text \<open>What a contract read returns at run time (the source checks it with \<open>typeof\<close>).\<close>

datatype rpc_value = Str string | Big int | OtherValue

record WalletTaxSentLog =
  log_recipient :: "string option"
  log_amount :: "int option"

text \<open>
  The answers of the chain, of the marketplace and of the clock during one tick. Each field
  is the outcome of one call of the source as a whole: what it returns or what it throws,
  whether the value thrown comes from the library, the transport or the contract. The services
  see the transaction submitter through \<open>executeSeaport\<close> and \<open>waitForReceipt\<close> only.
  The pauses of the source (\<open>delay\<close>) and its log lines change no value and are left out.
  \<open>readTokenBalance w k\<close> is the answer to the \<open>k\<close>-th \<open>balanceOf\<close> read of the token
  (\<open>k = 0\<close> is the read before the swap); a block number is a natural number.
\<close>

record world =
  getBlockNumber :: "error + nat"
  getLogs :: "string \<Rightarrow> int \<Rightarrow> int \<Rightarrow> error + WalletTaxSentLog list"
  executeSeaport :: "ExecuteSeaportRequest \<Rightarrow> error + string"
  waitForReceipt :: "string \<Rightarrow> error + unit"
  readRouters :: "string \<Rightarrow> error + bool"
  readTokenBalance :: "nat \<Rightarrow> error + int"
  readOwnerOf :: "string \<Rightarrow> int \<Rightarrow> error + rpc_value"
  readBalanceOf :: "string \<Rightarrow> string \<Rightarrow> int \<Rightarrow> error + rpc_value"
  fetchOpenSeaBuyExecution :: "error + ExecutionPayload"
  createOpenSeaListing :: "OpenSeaListingBlueprint \<Rightarrow> int \<Rightarrow> error + ListingResult option"
  dateNow :: int
  loopStart :: int
  loopEnd :: int

text \<open>
  The calls with an effect outside the process or on the store, in the order the services
  make them. \<open>Save\<close> carries the ledger handed to the store.
\<close>

datatype event =
    ExecuteSeaport ExecuteSeaportRequest
  | WaitForReceipt string
  | Save BotState
  | CreateOpenSeaListing int

section \<open>Listing reconciler (\<open>services/listingMonitor.ts\<close>)\<close>

text \<open>
  The body of the \<open>try\<close> block for one checked listing: \<open>True\<close> when it runs to the line
  that counts the sale, \<open>False\<close> when the listing is pushed back, either because the asset is
  still held or because something in the block threw (\<open>BigInt(tokenId)\<close>, the contract read,
  or the \<open>typeof\<close> check) and the \<open>catch\<close> kept the listing.
\<close>

definition saleDetected :: "world \<Rightarrow> config \<Rightarrow> ActiveListingState \<Rightarrow> bool" where
  "saleDetected w cfg listing =
     (case tokenStandard listing of
        erc1155 \<Rightarrow>
          (case BigInt (tokenId listing) of
             Inl e \<Rightarrow> False
           | Inr tid \<Rightarrow>
               (case readBalanceOf w (collection listing) (TREASURY_ADDRESS cfg) tid of
                  Inl e \<Rightarrow> False
                | Inr (Big balance) \<Rightarrow>
                    (let targetBalance =
                       (case expectedPostSaleBalance listing of Some b \<Rightarrow> b | None \<Rightarrow> 0)
                     in \<not> balance > targetBalance)
                | Inr other \<Rightarrow> False))
      | erc721 \<Rightarrow>
          (case BigInt (tokenId listing) of
             Inl e \<Rightarrow> False
           | Inr tid \<Rightarrow>
               (case readOwnerOf w (collection listing) tid of
                  Inl e \<Rightarrow> False
                | Inr (Str currentOwner) \<Rightarrow>
                    \<not> toLowerCase currentOwner = toLowerCase (TREASURY_ADDRESS cfg)
                | Inr other \<Rightarrow> False)))"

text \<open>
  The \<open>for\<close> loop over the active listings, with its three accumulators
  \<open>updatedListings\<close>, \<open>checked\<close> and \<open>proceedsCaptured\<close>.
\<close>

fun reconcile_loop ::
  "world \<Rightarrow> config \<Rightarrow> ActiveListingState list \<Rightarrow> ActiveListingState list \<Rightarrow> nat \<Rightarrow> int
   \<Rightarrow> ActiveListingState list \<times> nat \<times> int" where
  "reconcile_loop w cfg [] updatedListings checked proceedsCaptured =
     (updatedListings, checked, proceedsCaptured)"
| "reconcile_loop w cfg (listing # rest) updatedListings checked proceedsCaptured =
     (if checked \<ge> MAX_LISTING_CHECKS_PER_TICK cfg then
        reconcile_loop w cfg rest (updatedListings @ [listing]) checked proceedsCaptured
      else if saleDetected w cfg listing then
        reconcile_loop w cfg rest updatedListings (checked + 1)
          (proceedsCaptured + expectedProceedsWei listing)
      else
        reconcile_loop w cfg rest (updatedListings @ [listing]) (checked + 1) proceedsCaptured)"

definition reconcileListings ::
  "world \<Rightarrow> config \<Rightarrow> StateStore \<Rightarrow> (error + int) \<times> StateStore \<times> event list" where
  "reconcileListings w cfg store =
     (if activeListings (state store) = [] then (Inr 0, store, [])
      else
        (case reconcile_loop w cfg (activeListings (state store)) [] 0 0 of
           (updatedListings, checked, proceedsCaptured) \<Rightarrow>
             (let store1 = store\<lparr>state := (state store)\<lparr>activeListings := updatedListings\<rparr>\<rparr>
              in if proceedsCaptured > 0 then
                   (let store2 = store1\<lparr>state := (state store1)
                          \<lparr>salePoolWei := salePoolWei (state store1) + proceedsCaptured\<rparr>\<rparr>
                    in case save store2 of
                         Inl e \<Rightarrow> (Inl e, store2, [Save (state store2)])
                       | Inr store3 \<Rightarrow> (Inr proceedsCaptured, store3, [Save (state store2)]))
                 else (Inr proceedsCaptured, store1, []))))"

section \<open>Tax collector (\<open>services/taxCollector.ts\<close>)\<close>

definition MAX_LOG_SPAN :: int where
  "MAX_LOG_SPAN = 10"

text \<open>The body of the inner \<open>for\<close> loop over the logs of one sub-range.\<close>

definition countLog :: "string \<Rightarrow> int \<Rightarrow> WalletTaxSentLog \<Rightarrow> int" where
  "countLog treasuryLower totalCollected l =
     (case log_recipient l of
        None \<Rightarrow> totalCollected
      | Some r \<Rightarrow>
          if toLowerCase r \<noteq> treasuryLower then totalCollected
          else (case log_amount l of
                  None \<Rightarrow> totalCollected
                | Some a \<Rightarrow> if a > 0 then totalCollected + a else totalCollected))"

text \<open>The \<open>while (cursor <= latestBlock)\<close> loop; a \<open>getLogs\<close> that throws ends the scan.\<close>

function scanLogs :: "world \<Rightarrow> string \<Rightarrow> string \<Rightarrow> int \<Rightarrow> int \<Rightarrow> int \<Rightarrow> error + int" where
  "scanLogs w tokenAddress treasuryLower latestBlock cursor totalCollected =
     (if cursor \<le> latestBlock then
        (case getLogs w tokenAddress cursor
                (if cursor + (MAX_LOG_SPAN - 1) > latestBlock then latestBlock
                 else cursor + (MAX_LOG_SPAN - 1)) of
           Inl e \<Rightarrow> Inl e
         | Inr logs \<Rightarrow>
             scanLogs w tokenAddress treasuryLower latestBlock
               ((if cursor + (MAX_LOG_SPAN - 1) > latestBlock then latestBlock
                 else cursor + (MAX_LOG_SPAN - 1)) + 1)
               (foldl (countLog treasuryLower) totalCollected logs))
      else Inr totalCollected)"
  by pat_completeness auto
termination
  by (relation "measure (\<lambda>(w, tokenAddress, treasuryLower, latestBlock, cursor, totalCollected).
        nat (latestBlock + 1 - cursor))")
     (auto simp: MAX_LOG_SPAN_def)

declare scanLogs.simps [simp del]

definition collectNewTaxProceeds ::
  "world \<Rightarrow> config \<Rightarrow> StateStore \<Rightarrow> (error + bool) \<times> StateStore \<times> event list" where
  "collectNewTaxProceeds w cfg store =
     (case TOKEN_ADDRESS cfg of
        None \<Rightarrow> (Inr False, store, [])
      | Some tokenAddress \<Rightarrow>
          (case getBlockNumber w of
             Inl e \<Rightarrow> (Inl e, store, [])
           | Inr head \<Rightarrow>
               (let latestBlock = int head in
                if lastTaxBlock (state store) = 0 then
                  (let store1 = store\<lparr>state := (state store)\<lparr>lastTaxBlock := latestBlock\<rparr>\<rparr>
                   in case save store1 of
                        Inl e \<Rightarrow> (Inl e, store1, [Save (state store1)])
                      | Inr store2 \<Rightarrow> (Inr False, store2, [Save (state store1)]))
                else if lastTaxBlock (state store) \<ge> latestBlock then (Inr False, store, [])
                else
                  (case scanLogs w tokenAddress (toLowerCase (TREASURY_ADDRESS cfg)) latestBlock
                          (lastTaxBlock (state store) + 1) 0 of
                     Inl e \<Rightarrow> (Inl e, store, [])
                   | Inr totalCollected \<Rightarrow>
                       (let store1 = store\<lparr>state := (state store)\<lparr>lastTaxBlock := latestBlock\<rparr>\<rparr>;
                            store2 =
                              (if totalCollected > 0 then
                                 store1\<lparr>state := (state store1)\<lparr>commissionPoolWei :=
                                   commissionPoolWei (state store1) + totalCollected\<rparr>\<rparr>
                               else store1)
                        in case save store2 of
                             Inl e \<Rightarrow> (Inl e, store2, [Save (state store2)])
                           | Inr store3 \<Rightarrow>
                               (Inr (totalCollected > 0), store3, [Save (state store2)]))))))"

section \<open>Buyback and burn (\<open>services/buyback.ts\<close>)\<close>

text \<open>
  \<open>completePendingBurn(stateStore, state, spentWeiOverride)\<close>; its \<open>state\<close> argument is
  the store's own ledger object in both calls of the source, so the model takes it from the
  store.
\<close>

definition completePendingBurn ::
  "world \<Rightarrow> config \<Rightarrow> StateStore \<Rightarrow> int option \<Rightarrow> (error + unit) \<times> StateStore \<times> event list" where
  "completePendingBurn w cfg store spentWeiOverride =
     (if pendingBurnAmount (state store) \<le> 0 then (Inr (), store, [])
      else
        (case TOKEN_ADDRESS cfg of
           None \<Rightarrow> (Inl (Error ''TOKEN_ADDRESS is not configured''), store, [])
         | Some tokenAddress \<Rightarrow>
             (case encodeFunctionData
                     (Transfer (BURN_ADDRESS cfg) (pendingBurnAmount (state store))) of
                Inl e \<Rightarrow> (Inl e, store, [])
              | Inr burnCalldata \<Rightarrow>
             (let request = \<lparr> router_req = tokenAddress, valueWei_req = 0,
                              calldata_req = burnCalldata, callValueWei_req = 0 \<rparr>
              in case executeSeaport w request of
                   Inl e \<Rightarrow> (Inl e, store, [ExecuteSeaport request])
                 | Inr burnTx \<Rightarrow>
                     (case waitForReceipt w burnTx of
                        Inl e \<Rightarrow> (Inl e, store, [ExecuteSeaport request, WaitForReceipt burnTx])
                      | Inr receipt \<Rightarrow>
                          (let costSource =
                                 (case spentWeiOverride of
                                    Some spent \<Rightarrow> spent
                                  | None \<Rightarrow> pendingBurnCostWei (state store));
                               costToDeduct =
                                 (if costSource > 0 then
                                    (if salePoolWei (state store) \<ge> costSource then costSource
                                     else salePoolWei (state store))
                                  else 0);
                               store1 = store\<lparr>state := (state store)
                                          \<lparr>pendingBurnAmount := 0, pendingBurnCostWei := 0\<rparr>\<rparr>;
                               store2 =
                                 (if costToDeduct > 0 then
                                    store1\<lparr>state := (state store1)\<lparr>salePoolWei :=
                                      salePoolWei (state store1) - costToDeduct\<rparr>\<rparr>
                                  else store1)
                           in case save store2 of
                                Inl e \<Rightarrow>
                                  (Inl e, store2,
                                   [ExecuteSeaport request, WaitForReceipt burnTx,
                                    Save (state store2)])
                              | Inr store3 \<Rightarrow>
                                  (Inr (), store3,
                                   [ExecuteSeaport request, WaitForReceipt burnTx,
                                    Save (state store2)])))))))"

text \<open>
  The loop that reads the token balance up to three times after the swap; \<open>attempt\<close> counts
  from 0 and the \<open>k\<close>-th poll is the read number \<open>k + 1\<close>.
\<close>

function pollBalance :: "world \<Rightarrow> int \<Rightarrow> nat \<Rightarrow> int \<Rightarrow> error + int" where
  "pollBalance w balanceBefore attempt balanceAfter =
     (if attempt < 3 then
        (case readTokenBalance w (attempt + 1) of
           Inl e \<Rightarrow> Inl e
         | Inr balance \<Rightarrow>
             if balance > balanceBefore then Inr balance
             else pollBalance w balanceBefore (attempt + 1) balance)
      else Inr balanceAfter)"
  by pat_completeness auto
termination
  by (relation "measure (\<lambda>(w, balanceBefore, attempt, balanceAfter). 3 - attempt)") auto

declare pollBalance.simps [simp del]

definition performBuybackAndBurn ::
  "world \<Rightarrow> config \<Rightarrow> StateStore \<Rightarrow> (error + bool) \<times> StateStore \<times> event list" where
  "performBuybackAndBurn w cfg store =
     (case (TOKEN_ADDRESS cfg, BUYBACK_ROUTER_ADDRESS cfg, WETH_ADDRESS cfg) of
        (Some tokenAddress, Some buybackRouter, Some weth) \<Rightarrow>
          if pendingBurnAmount (state store) > 0 then
            (case completePendingBurn w cfg store None of
               (Inl e, store1, events) \<Rightarrow> (Inl e, store1, events)
             | (Inr u, store1, events) \<Rightarrow> (Inr True, store1, events))
          else if salePoolWei (state store) \<le> 0 then (Inr False, store, [])
          else
            (let amountToUse =
                   (case BUYBACK_CHUNK_WEI cfg of
                      None \<Rightarrow> salePoolWei (state store)
                    | Some chunk \<Rightarrow>
                        if chunk \<noteq> 0 \<and> chunk > 0 then
                          (if salePoolWei (state store) < chunk then salePoolWei (state store)
                           else chunk)
                        else salePoolWei (state store))
             in if amountToUse \<le> 0 then (Inr False, store, [])
                else
                  (case readRouters w tokenAddress of
                     Inl e \<Rightarrow> (Inl e, store, [])
                   | Inr tokenRouterAllowed \<Rightarrow>
                  if \<not> tokenRouterAllowed then (Inr False, store, [])
                  else
                  (case readTokenBalance w 0 of
                     Inl e \<Rightarrow> (Inl e, store, [])
                   | Inr balanceBefore \<Rightarrow>
                  (case encodeFunctionData
                          (SwapExactETHForTokens 0 [weth, tokenAddress]
                             (TREASURY_ADDRESS cfg) (dateNow w div 1000 + 15 * 60)) of
                     Inl e \<Rightarrow> (Inl e, store, [])
                   | Inr swapCalldata \<Rightarrow>
                  (let request = \<lparr> router_req = buybackRouter, valueWei_req = amountToUse,
                                   calldata_req = swapCalldata, callValueWei_req = 0 \<rparr>
                   in case executeSeaport w request of
                        Inl e \<Rightarrow> (Inl e, store, [ExecuteSeaport request])
                      | Inr swapTx \<Rightarrow>
                  (case waitForReceipt w swapTx of
                     Inl e \<Rightarrow> (Inl e, store, [ExecuteSeaport request, WaitForReceipt swapTx])
                   | Inr receipt \<Rightarrow>
                  (case pollBalance w balanceBefore 0 balanceBefore of
                     Inl e \<Rightarrow> (Inl e, store, [ExecuteSeaport request, WaitForReceipt swapTx])
                   | Inr balanceAfter \<Rightarrow>
                  (let purchasedAmount =
                         (if balanceAfter > balanceBefore then balanceAfter - balanceBefore else 0)
                   in if purchasedAmount = 0 then
                        (let store1 = store\<lparr>state := (state store)
                               \<lparr>pendingBurnAmount := 0, pendingBurnCostWei := 0,
                                salePoolWei :=
                                  (if salePoolWei (state store) \<ge> amountToUse
                                   then salePoolWei (state store) - amountToUse else 0)\<rparr>\<rparr>
                         in case save store1 of
                              Inl e \<Rightarrow>
                                (Inl e, store1,
                                 [ExecuteSeaport request, WaitForReceipt swapTx,
                                  Save (state store1)])
                            | Inr store2 \<Rightarrow>
                                (Inr True, store2,
                                 [ExecuteSeaport request, WaitForReceipt swapTx,
                                  Save (state store1)]))
                      else
                        (let store1 = store\<lparr>state := (state store)
                               \<lparr>pendingBurnAmount := purchasedAmount,
                                pendingBurnCostWei := amountToUse\<rparr>\<rparr>
                         in case save store1 of
                              Inl e \<Rightarrow>
                                (Inl e, store1,
                                 [ExecuteSeaport request, WaitForReceipt swapTx,
                                  Save (state store1)])
                            | Inr store2 \<Rightarrow>
                                (case completePendingBurn w cfg store2 (Some amountToUse) of
                                   (Inl e, store3, events) \<Rightarrow>
                                     (Inl e, store3,
                                      [ExecuteSeaport request, WaitForReceipt swapTx,
                                       Save (state store1)] @ events)
                                 | (Inr u, store3, events) \<Rightarrow>
                                     (Inr True, store3,
                                      [ExecuteSeaport request, WaitForReceipt swapTx,
                                       Save (state store1)] @ events)))))))))))
      | notConfigured \<Rightarrow> (Inr False, store, []))"

section \<open>Purchase and relist (\<open>services/purchase.ts\<close>)\<close>

text \<open>
  The part of the \<open>try\<close> block after \<open>createOpenSeaListing\<close> returned a listing: the new
  \<open>ActiveListingState\<close>. A balance read that throws, or that returns no bigint, is caught
  by the inner \<open>catch\<close> and gives an expected post-sale balance of 0.
\<close>

definition newActiveListing ::
  "world \<Rightarrow> config \<Rightarrow> OpenSeaListingBlueprint \<Rightarrow> ListingResult \<Rightarrow> ActiveListingState" where
  "newActiveListing w cfg metadata listing =
     (let standard = (if offerItemType metadata = 3 then erc1155 else erc721);
          listedQuantityRaw =
            (if offerEndAmount metadata > 0 then offerEndAmount metadata
             else if offerStartAmount metadata > 0 then offerStartAmount metadata
             else 1);
          quantity =
            (if standard = erc1155 then 1
             else if listedQuantityRaw > 0 then listedQuantityRaw else 1);
          postSaleBalance =
            (if standard = erc1155 then
               (case readBalanceOf w (offerToken metadata) (TREASURY_ADDRESS cfg)
                       (offerIdentifier metadata) of
                  Inr (Big currentBalance) \<Rightarrow>
                    Some (if currentBalance > quantity then currentBalance - quantity else 0)
                | failed \<Rightarrow> Some 0)
             else None)
      in \<lparr> orderHash = orderHash_result listing,
           collection = offerToken metadata,
           tokenId = bigint_toString (offerIdentifier metadata),
           expectedProceedsWei = sellerProceedsWei listing,
           listedAtMs = dateNow w,
           tokenStandard = standard,
           listedQuantity = quantity,
           expectedPostSaleBalance = postSaleBalance \<rparr>)"

text \<open>
  The relist step, entered after the deduction was saved. Whatever throws inside its \<open>try\<close>
  block is caught and logged, so the step always returns.
\<close>

definition relistStep ::
  "world \<Rightarrow> config \<Rightarrow> StateStore \<Rightarrow> OpenSeaListingBlueprint \<Rightarrow> int
   \<Rightarrow> StateStore \<times> event list" where
  "relistStep w cfg store metadata cost =
     (case createOpenSeaListing w metadata cost of
        Inl e \<Rightarrow> (store, [CreateOpenSeaListing cost])
      | Inr None \<Rightarrow> (store, [CreateOpenSeaListing cost])
      | Inr (Some listing) \<Rightarrow>
          (let store1 = store\<lparr>state := (state store)\<lparr>activeListings :=
                 activeListings (state store) @ [newActiveListing w cfg metadata listing]\<rparr>\<rparr>
           in case save store1 of
                Inl e \<Rightarrow> (store1, [CreateOpenSeaListing cost, Save (state store1)])
              | Inr store2 \<Rightarrow> (store2, [CreateOpenSeaListing cost, Save (state store1)])))"

definition attemptPurchaseAndListing ::
  "world \<Rightarrow> config \<Rightarrow> StateStore \<Rightarrow> (error + bool) \<times> StateStore \<times> event list" where
  "attemptPurchaseAndListing w cfg store =
     (if TARGET_COLLECTION cfg = None \<and> TARGET_COLLECTION_SLUG cfg = None then
        (Inr False, store, [])
      else if TARGET_TOKEN_ID cfg \<noteq> None \<and> TARGET_COLLECTION cfg = None then
        (Inr False, store, [])
      else if commissionPoolWei (state store) \<le> 0 then (Inr False, store, [])
      else
        (case fetchOpenSeaBuyExecution w of
           Inl e \<Rightarrow> (Inr False, store, [])
         | Inr execution \<Rightarrow>
             (let cost = valueWei execution in
              if cost \<le> 0 \<or> commissionPoolWei (state store) < cost then (Inr False, store, [])
              else
                (let request = \<lparr> router_req = router execution, valueWei_req = cost,
                                 calldata_req = RawCalldata (calldata execution),
                                 callValueWei_req = 0 \<rparr>
                 in case executeSeaport w request of
                      Inl e \<Rightarrow> (Inl e, store, [ExecuteSeaport request])
                    | Inr purchaseTx \<Rightarrow>
                (case waitForReceipt w purchaseTx of
                   Inl e \<Rightarrow> (Inl e, store, [ExecuteSeaport request, WaitForReceipt purchaseTx])
                 | Inr receipt \<Rightarrow>
                (let store1 = store\<lparr>state := (state store)\<lparr>commissionPoolWei :=
                       commissionPoolWei (state store) - cost\<rparr>\<rparr>
                 in case save store1 of
                      Inl e \<Rightarrow>
                        (Inl e, store1,
                         [ExecuteSeaport request, WaitForReceipt purchaseTx, Save (state store1)])
                    | Inr store2 \<Rightarrow>
                        (case openSeaMetadata execution of
                           None \<Rightarrow>
                             (Inr True, store2,
                              [ExecuteSeaport request, WaitForReceipt purchaseTx,
                               Save (state store1)])
                         | Some metadata \<Rightarrow>
                             (case relistStep w cfg store2 metadata cost of
                                (store3, events) \<Rightarrow>
                                  (Inr True, store3,
                                   [ExecuteSeaport request, WaitForReceipt purchaseTx,
                                    Save (state store1)] @ events)))))))))"

section \<open>Loop driver (\<open>index.ts\<close>)\<close>

datatype step = TaxCollection | ListingReconciliation | BuybackBurn | PurchaseAndList

text \<open>
  One iteration of the \<open>for (;;)\<close> loop. The four calls stand in one \<open>try\<close> block: the
  first that throws ends the block, and the \<open>catch\<close> logs what was thrown. The result is the
  logged error if any, the store, the events, and the steps that were started.
\<close>

definition tick ::
  "world \<Rightarrow> config \<Rightarrow> StateStore \<Rightarrow> error option \<times> StateStore \<times> event list \<times> step list" where
  "tick w cfg store =
     (case collectNewTaxProceeds w cfg store of
        (Inl e, store1, events1) \<Rightarrow> (Some e, store1, events1, [TaxCollection])
      | (Inr collected, store1, events1) \<Rightarrow>
     (case reconcileListings w cfg store1 of
        (Inl e, store2, events2) \<Rightarrow>
          (Some e, store2, events1 @ events2, [TaxCollection, ListingReconciliation])
      | (Inr proceedsCaptured, store2, events2) \<Rightarrow>
     (case performBuybackAndBurn w cfg store2 of
        (Inl e, store3, events3) \<Rightarrow>
          (Some e, store3, events1 @ events2 @ events3,
           [TaxCollection, ListingReconciliation, BuybackBurn])
      | (Inr actionPerformed, store3, events3) \<Rightarrow>
          if actionPerformed then
            (None, store3, events1 @ events2 @ events3,
             [TaxCollection, ListingReconciliation, BuybackBurn])
          else
            (case attemptPurchaseAndListing w cfg store3 of
               (Inl e, store4, events4) \<Rightarrow>
                 (Some e, store4, events1 @ events2 @ events3 @ events4,
                  [TaxCollection, ListingReconciliation, BuybackBurn, PurchaseAndList])
             | (Inr purchased, store4, events4) \<Rightarrow>
                 (None, store4, events1 @ events2 @ events3 @ events4,
                  [TaxCollection, ListingReconciliation, BuybackBurn, PurchaseAndList])))))"

text \<open>
  The sleep at the end of an iteration: \<open>Math.max(0, LOOP_INTERVAL_MS - elapsed)\<close>, with
  \<open>elapsed\<close> the difference of the two clock readings.
\<close>

definition sleepFor :: "world \<Rightarrow> config \<Rightarrow> int" where
  "sleepFor w cfg = max 0 (LOOP_INTERVAL_MS cfg - (loopEnd w - loopStart w))"

text \<open>
  The first \<open>n\<close> iterations of the endless loop; \<open>worlds k\<close> is the outside world during
  iteration \<open>k\<close>. The result lists, for each iteration run, what \<open>tick\<close> logged and started
  and the sleep that followed.
\<close>

fun mainLoop ::
  "nat \<Rightarrow> nat \<Rightarrow> (nat \<Rightarrow> world) \<Rightarrow> config \<Rightarrow> StateStore
   \<Rightarrow> StateStore \<times> (error option \<times> step list \<times> int) list" where
  "mainLoop 0 k worlds cfg store = (store, [])"
| "mainLoop (Suc n) k worlds cfg store =
     (case tick (worlds k) cfg store of
        (logged, store1, events, steps) \<Rightarrow>
          (case mainLoop n (Suc k) worlds cfg store1 of
             (store2, iterations) \<Rightarrow>
               (store2, (logged, steps, sleepFor (worlds k) cfg) # iterations)))"

section \<open>Consideration rescaling (\<open>marketplaces/openseaListings.ts\<close>)\<close>

record ScaledConsiderationItem =
  itemType_scaled :: int
  token_scaled :: string
  identifierOrCriteria_scaled :: int
  amount :: int
  recipient_scaled :: string

text \<open>The item pushed for one blueprint line; the seller's own line goes to the treasury.\<close>

definition scaledItem ::
  "string \<Rightarrow> OpenSeaListingConsiderationBlueprint \<Rightarrow> int \<Rightarrow> ScaledConsiderationItem" where
  "scaledItem treasury item a =
     \<lparr> itemType_scaled = itemType item,
       token_scaled = token item,
       identifierOrCriteria_scaled = identifierOrCriteria item,
       amount = a,
       recipient_scaled = (if isSellerProceeds item then treasury else recipient item) \<rparr>"

text \<open>
  The \<open>for\<close> loop of \<open>scaleConsiderationAmounts\<close> over the items not yet visited, with its
  variables \<open>remainder\<close> and \<open>scaled\<close>; \<open>index === items.length - 1\<close> holds exactly when no
  item follows. Every element of the list is an item, so the \<open>if (!item) continue\<close> of the
  source is never taken. Division of bigints truncates towards zero: \<open>sdiv\<close>.
\<close>

fun scale_loop ::
  "string \<Rightarrow> int \<Rightarrow> int \<Rightarrow> OpenSeaListingConsiderationBlueprint list \<Rightarrow> int
   \<Rightarrow> ScaledConsiderationItem list \<Rightarrow> ScaledConsiderationItem list" where
  "scale_loop treasury originalTotal newTotal [] remainder scaled = scaled"
| "scale_loop treasury originalTotal newTotal (item # rest) remainder scaled =
     (if rest = [] then
        scale_loop treasury originalTotal newTotal rest remainder
          (scaled @ [scaledItem treasury item (if remainder > 0 then remainder else 0)])
      else
        scale_loop treasury originalTotal newTotal rest
          (remainder - (newTotal * originalAmount item) sdiv originalTotal)
          (scaled @ [scaledItem treasury item ((newTotal * originalAmount item) sdiv originalTotal)]))"

definition scaleConsiderationAmounts ::
  "string \<Rightarrow> OpenSeaListingConsiderationBlueprint list \<Rightarrow> int \<Rightarrow> int
   \<Rightarrow> ScaledConsiderationItem list" where
  "scaleConsiderationAmounts treasury items originalTotal newTotal =
     (if originalTotal = 0 \<or> newTotal = 0 then []
      else scale_loop treasury originalTotal newTotal items newTotal [])"

section \<open>Transaction submitter: the nonce cache (\<open>treasuryClient.ts\<close>)\<close>

record Submitter =
  cachedNonce :: "int option"

definition FEE_MULTIPLIERS :: "int list" where
  "FEE_MULTIPLIERS = [100, 120, 140]"

text \<open>
  \<open>acquireNextNonce\<close>; \<open>transactionCount\<close> is what \<open>getTransactionCount\<close> (pending state)
  answers if it is called, which happens only when nothing is cached.
\<close>

definition acquireNextNonce :: "Submitter \<Rightarrow> (error + int) \<Rightarrow> (error + int) \<times> Submitter" where
  "acquireNextNonce s transactionCount =
     (case cachedNonce s of
        None \<Rightarrow>
          (case transactionCount of
             Inl e \<Rightarrow> (Inl e, s)
           | Inr rawNonce \<Rightarrow> (Inr rawNonce, s\<lparr>cachedNonce := Some rawNonce\<rparr>))
      | Some n \<Rightarrow> (Inr n, s))"

definition incrementNonce :: "Submitter \<Rightarrow> Submitter" where
  "incrementNonce s =
     (case cachedNonce s of
        None \<Rightarrow> s
      | Some n \<Rightarrow> s\<lparr>cachedNonce := Some (n + 1)\<rparr>)"

definition resetNonceCache :: "Submitter \<Rightarrow> Submitter" where
  "resetNonceCache s = s\<lparr>cachedNonce := None\<rparr>"

fun startsWith :: "string \<Rightarrow> string \<Rightarrow> bool" where
  "startsWith s [] = True"
| "startsWith [] (p # ps) = False"
| "startsWith (c # cs) (p # ps) = (c = p \<and> startsWith cs ps)"

fun includesText :: "string \<Rightarrow> string \<Rightarrow> bool" where
  "includesText [] p = (p = [])"
| "includesText (c # cs) p = (startsWith (c # cs) p \<or> includesText cs p)"

text \<open>The text the \<open>catch\<close> block classifies.\<close>

definition errorMessage :: "error \<Rightarrow> string" where
  "errorMessage e =
     (case e of
        Error m \<Rightarrow> toLowerCase m
      | SyntaxError m \<Rightarrow> toLowerCase m
      | SqliteError m \<Rightarrow> toLowerCase m
      | TransactionNotFoundError m \<Rightarrow> toLowerCase m
      | InvalidAddressError m \<Rightarrow> toLowerCase m
      | IntegerOutOfRangeError m \<Rightarrow> toLowerCase m
      | NonError v \<Rightarrow> v)"

definition isUnderpriced :: "string \<Rightarrow> bool" where
  "isUnderpriced message =
     (includesText message ''replacement transaction underpriced'' \<or>
      includesText message ''nonce too low'' \<or>
      includesText message ''fee too low'' \<or>
      includesText message ''max fee per gas less than block base fee'')"

text \<open>
  The \<open>for\<close> loop of \<open>writeContractWithAdaptiveFees\<close> over the multipliers not yet tried.
  \<open>attempt nonce multiplier\<close> is the outcome of the \<open>try\<close> block (fee estimation and
  \<open>walletClient.writeContract\<close>) with that nonce at that multiplier: a transaction hash, or
  the value thrown. Every attempt uses the nonce acquired before the loop.
\<close>

fun attemptLoop ::
  "(int \<Rightarrow> int \<Rightarrow> error + string) \<Rightarrow> int \<Rightarrow> int list \<Rightarrow> error option \<Rightarrow> Submitter
   \<Rightarrow> (error + string) \<times> Submitter" where
  "attemptLoop attempt nonce [] lastError s =
     (case lastError of
        None \<Rightarrow> (Inl (Error ''null''), s)
      | Some (NonError v) \<Rightarrow> (Inl (Error v), s)
      | Some e \<Rightarrow> (Inl e, s))"
| "attemptLoop attempt nonce (multiplier # rest) lastError s =
     (case attempt nonce multiplier of
        Inr hash \<Rightarrow> (Inr hash, incrementNonce s)
      | Inl e \<Rightarrow>
          if \<not> isUnderpriced (errorMessage e) \<or> multiplier = last FEE_MULTIPLIERS then (Inl e, s)
          else
            attemptLoop attempt nonce rest (Some e)
              (if includesText (errorMessage e) ''nonce too low'' then resetNonceCache s else s))"

definition writeContractWithAdaptiveFees ::
  "(error + int) \<Rightarrow> (int \<Rightarrow> int \<Rightarrow> error + string) \<Rightarrow> Submitter
   \<Rightarrow> (error + string) \<times> Submitter" where
  "writeContractWithAdaptiveFees transactionCount attempt s =
     (case acquireNextNonce s transactionCount of
        (Inl e, s1) \<Rightarrow> (Inl e, s1)
      | (Inr nonce, s1) \<Rightarrow> attemptLoop attempt nonce FEE_MULTIPLIERS None s1)"

text \<open>
  A run of submissions, one after the other on the same submitter; each element gives the
  chain's answers during that submission. It stops at the first submission that throws.
\<close>

fun submitAll ::
  "((error + int) \<times> (int \<Rightarrow> int \<Rightarrow> error + string)) list \<Rightarrow> Submitter
   \<Rightarrow> (error + string list) \<times> Submitter" where
  "submitAll [] s = (Inr [], s)"
| "submitAll ((transactionCount, attempt) # rest) s =
     (case writeContractWithAdaptiveFees transactionCount attempt s of
        (Inl e, s1) \<Rightarrow> (Inl e, s1)
      | (Inr hash, s1) \<Rightarrow>
          (case submitAll rest s1 of
             (Inl e, s2) \<Rightarrow> (Inl e, s2)
           | (Inr hashes, s2) \<Rightarrow> (Inr (hash # hashes), s2)))"

section \<open>Order hash engine (\<open>deriveSeaportOrderHash\<close>, \<open>hashStructArray\<close>)\<close>

record SeaportOfferItem =
  itemType_item :: int
  token_item :: string
  identifierOrCriteria_item :: int
  startAmount :: int
  endAmount :: int

record SeaportConsiderationItem = SeaportOfferItem +
  recipient_item :: string

record SeaportOrderComponents =
  offerer :: string
  zone :: string
  offer :: "SeaportOfferItem list"
  consideration_order :: "SeaportConsiderationItem list"
  orderType :: int
  startTime :: int
  endTime :: int
  zoneHash :: string
  salt :: int
  conduitKey :: string
  totalOriginalConsiderationItems :: int
  counter :: int

definition OFFER_ITEM_TYPEHASH :: string where
  "OFFER_ITEM_TYPEHASH = keccak256_text
     (''OfferItem(uint8 itemType,address token,uint256 identifierOrCriteria,'' @
      ''uint256 startAmount,uint256 endAmount)'')"

definition CONSIDERATION_ITEM_TYPEHASH :: string where
  "CONSIDERATION_ITEM_TYPEHASH = keccak256_text
     (''ConsiderationItem(uint8 itemType,address token,uint256 identifierOrCriteria,'' @
      ''uint256 startAmount,uint256 endAmount,address recipient)'')"

definition ORDER_TYPEHASH :: string where
  "ORDER_TYPEHASH = keccak256_text
     (''OrderComponents(address offerer,address zone,OfferItem[] offer,'' @
      ''ConsiderationItem[] consideration,uint8 orderType,uint256 startTime,'' @
      ''uint256 endTime,bytes32 zoneHash,uint256 salt,bytes32 conduitKey,'' @
      ''uint256 totalOriginalConsiderationItems,uint256 counter)'' @
      ''OfferItem(uint8 itemType,address token,uint256 identifierOrCriteria,'' @
      ''uint256 startAmount,uint256 endAmount)'' @
      ''ConsiderationItem(uint8 itemType,address token,uint256 identifierOrCriteria,'' @
      ''uint256 startAmount,uint256 endAmount,address recipient)'')"

definition ZERO_BYTES32 :: string where
  "ZERO_BYTES32 = ''0x'' @ concat (replicate 32 ''00'')"

text \<open>
  The values handed to \<open>encodeAbiParameters\<close>, each with its ABI type. The encoder is
  viem's and is a parameter of the functions below: it returns the encoding as a hex string,
  or throws.
\<close>

datatype abi_value = Bytes32 string | Address string | Uint8 int | Uint256 int

definition hashStructArray :: "string list \<Rightarrow> error + string" where
  "hashStructArray hashes =
     (if length hashes = 0 then keccak256 ''0x''
      else keccak256 (''0x'' @ concat (map (drop 2) hashes)))"

definition hashOfferItem ::
  "(abi_value list \<Rightarrow> error + string) \<Rightarrow> SeaportOfferItem \<Rightarrow> error + string" where
  "hashOfferItem encodeAbiParameters item =
     (case encodeAbiParameters
             [Bytes32 OFFER_ITEM_TYPEHASH, Uint8 (itemType_item item), Address (token_item item),
              Uint256 (identifierOrCriteria_item item), Uint256 (startAmount item),
              Uint256 (endAmount item)] of
        Inl e \<Rightarrow> Inl e
      | Inr encoded \<Rightarrow> keccak256 encoded)"

definition hashConsiderationItem ::
  "(abi_value list \<Rightarrow> error + string) \<Rightarrow> SeaportConsiderationItem \<Rightarrow> error + string" where
  "hashConsiderationItem encodeAbiParameters item =
     (case encodeAbiParameters
             [Bytes32 CONSIDERATION_ITEM_TYPEHASH, Uint8 (itemType_item item),
              Address (token_item item), Uint256 (identifierOrCriteria_item item),
              Uint256 (startAmount item), Uint256 (endAmount item),
              Address (recipient_item item)] of
        Inl e \<Rightarrow> Inl e
      | Inr encoded \<Rightarrow> keccak256 encoded)"

text \<open>\<open>items.map(hashItem)\<close>, ended by the first item whose hashing throws.\<close>

fun hashItems :: "('a \<Rightarrow> error + string) \<Rightarrow> 'a list \<Rightarrow> error + string list" where
  "hashItems hashItem [] = Inr []"
| "hashItems hashItem (item # rest) =
     (case hashItem item of
        Inl e \<Rightarrow> Inl e
      | Inr hash \<Rightarrow>
          (case hashItems hashItem rest of
             Inl e \<Rightarrow> Inl e
           | Inr hashes \<Rightarrow> Inr (hash # hashes)))"

text \<open>The thirteen values of the order struct, with the two array hashes in fourth and fifth place.\<close>

definition orderParameters :: "SeaportOrderComponents \<Rightarrow> string \<Rightarrow> string \<Rightarrow> abi_value list" where
  "orderParameters order offerArrayHash considerationArrayHash =
     [Bytes32 ORDER_TYPEHASH, Address (offerer order), Address (zone order),
      Bytes32 offerArrayHash, Bytes32 considerationArrayHash,
      Uint8 (orderType order), Uint256 (startTime order), Uint256 (endTime order),
      Bytes32 (zoneHash order), Uint256 (salt order), Bytes32 (conduitKey order),
      Uint256 (totalOriginalConsiderationItems order), Uint256 (counter order)]"

definition deriveSeaportOrderHash ::
  "(abi_value list \<Rightarrow> error + string) \<Rightarrow> SeaportOrderComponents \<Rightarrow> error + string" where
  "deriveSeaportOrderHash encodeAbiParameters order =
     (case hashItems (hashOfferItem encodeAbiParameters) (offer order) of
        Inl e \<Rightarrow> Inl e
      | Inr offerHashes \<Rightarrow>
     (case hashItems (hashConsiderationItem encodeAbiParameters) (consideration_order order) of
        Inl e \<Rightarrow> Inl e
      | Inr considerationHashes \<Rightarrow>
     (case hashStructArray offerHashes of
        Inl e \<Rightarrow> Inl e
      | Inr offerArrayHash \<Rightarrow>
     (case hashStructArray considerationHashes of
        Inl e \<Rightarrow> Inl e
      | Inr considerationArrayHash \<Rightarrow>
     (case encodeAbiParameters (orderParameters order offerArrayHash considerationArrayHash) of
        Inl e \<Rightarrow> Inl e
      | Inr encoded \<Rightarrow> keccak256 encoded)))))"

section \<open>Concrete ledgers, stores and worlds\<close>

text \<open>The inputs at which the theorems below are instantiated and evaluated.\<close>

definition emptyDatabase :: database where
  "emptyDatabase = \<lparr> state_table = None, listings_table = [] \<rparr>"

definition listingA :: ActiveListingState where
  "listingA = \<lparr> orderHash = ''0xaa'', collection = ''0x32911f93'', tokenId = ''15732'',
                 expectedProceedsWei = 1300, listedAtMs = 2000, tokenStandard = erc721,
                 listedQuantity = 1, expectedPostSaleBalance = None \<rparr>"

definition listingB :: ActiveListingState where
  "listingB = \<lparr> orderHash = ''0xbb'', collection = ''0xc0'', tokenId = ''7'',
                 expectedProceedsWei = 0, listedAtMs = 1000, tokenStandard = erc1155,
                 listedQuantity = 1, expectedPostSaleBalance = Some 4 \<rparr>"

definition ledger :: "int \<Rightarrow> ActiveListingState list \<Rightarrow> BotState" where
  "ledger v ls = \<lparr> version = v, commissionPoolWei = 1500, salePoolWei = 0,
                   pendingBurnAmount = 0, pendingBurnCostWei = 0, activeListings = ls,
                   lastTaxBlock = 15 \<rparr>"

definition considerationLine :: "int \<Rightarrow> string \<Rightarrow> bool \<Rightarrow> OpenSeaListingConsiderationBlueprint" where
  "considerationLine a r seller =
     \<lparr> itemType = 0, token = ''0x00'', identifierOrCriteria = 0,
       originalAmount = a, recipient = r, isSellerProceeds = seller \<rparr>"

definition threeLines :: "OpenSeaListingConsiderationBlueprint list" where
  "threeLines =
     [considerationLine 975 ''0x5e11e4'' True, considerationLine 25 ''0xfee'' False,
      considerationLine 1 ''0xc4ea704'' False]"

definition cfg0 :: config where
  "cfg0 = \<lparr> TREASURY_ADDRESS = ''0x3d2c8b92f3fe48e0961d5f9e64506a4e92ce7899'', TOKEN_ADDRESS = Some ''0x7000000000000000000000000000000000000070'',
            BUYBACK_ROUTER_ADDRESS = Some ''0x4752ba5dbc23f44d87826276bf6fd6b1c372ad24'', WETH_ADDRESS = Some ''0x4200000000000000000000000000000000000006'',
            BURN_ADDRESS = ''0x000000000000000000000000000000000000dead'', BUYBACK_CHUNK_WEI = None,
            TARGET_COLLECTION = Some ''0x32911f93'', TARGET_COLLECTION_SLUG = None,
            TARGET_TOKEN_ID = None, MAX_LISTING_CHECKS_PER_TICK = 3,
            LOOP_INTERVAL_MS = 15000 \<rparr>"

definition purchaseBlueprint :: OpenSeaListingBlueprint where
  "purchaseBlueprint =
     \<lparr> protocolAddress = ''0x0068f116'', offerToken = ''0x32911f93'', offerIdentifier = 15732,
       offerItemType = 2, offerStartAmount = 1, offerEndAmount = 1,
       consideration = threeLines, originalConsiderationTotal = 1001 \<rparr>"

definition world0 :: world where
  "world0 =
     \<lparr> getBlockNumber = Inr 15,
       getLogs = (\<lambda>tokenAddress fromBlock toBlock.
         Inr (if fromBlock \<le> 12 \<and> 12 \<le> toBlock
              then [\<lparr> log_recipient = Some ''0x3D2C8B92F3FE48E0961D5F9E64506A4E92CE7899'', log_amount = Some 500 \<rparr>] else [])),
       executeSeaport = (\<lambda>request. Inr ''0x7a''),
       waitForReceipt = (\<lambda>txHash. Inr ()),
       readRouters = (\<lambda>address. Inr True),
       readTokenBalance = (\<lambda>k. Inr (if k = 0 then 0 else 500)),
       readOwnerOf = (\<lambda>address tid. Inr (Str ''0xB0b'')),
       readBalanceOf = (\<lambda>address account tid. Inr (Big 0)),
       fetchOpenSeaBuyExecution =
         Inr \<lparr> router = ''0x0068f116'', calldata = ''0xe7acab24'', valueWei = 1200,
               priceWei = Some 1200, openSeaMetadata = Some purchaseBlueprint \<rparr>,
       createOpenSeaListing = (\<lambda>metadata cost.
         Inr (Some \<lparr> orderHash_result = ''0xaa'', sellerProceedsWei = 1300,
                      listingPriceWei = 1300 \<rparr>)),
       dateNow = 2000, loopStart = 2000, loopEnd = 9000 \<rparr>"

definition pendingStore :: StateStore where
  "pendingStore =
     \<lparr> db = emptyDatabase,
       state = \<lparr> version = 3, commissionPoolWei = 300, salePoolWei = 1300,
                 pendingBurnAmount = 500, pendingBurnCostWei = 1300, activeListings = [],
                 lastTaxBlock = 15 \<rparr> \<rparr>"

definition taxStore :: StateStore where
  "taxStore =
     \<lparr> db = emptyDatabase,
       state = \<lparr> version = 3, commissionPoolWei = 1000, salePoolWei = 0,
                 pendingBurnAmount = 0, pendingBurnCostWei = 0, activeListings = [],
                 lastTaxBlock = 9 \<rparr> \<rparr>"

definition savedStore :: "BotState \<Rightarrow> StateStore" where
  "savedStore st =
     (case persistState emptyDatabase st of
        Inr d \<Rightarrow> \<lparr> db = d, state = st \<rparr>
      | Inl e \<Rightarrow> \<lparr> db = emptyDatabase, state = st \<rparr>)"

definition listingZero :: ActiveListingState where
  "listingZero = \<lparr> orderHash = ''0xcc'', collection = ''0xc0'', tokenId = ''9'',
                    expectedProceedsWei = 0, listedAtMs = 3000, tokenStandard = erc721,
                    listedQuantity = 1, expectedPostSaleBalance = None \<rparr>"

definition listedStore :: StateStore where
  "listedStore =
     savedStore \<lparr> version = 3, commissionPoolWei = 300, salePoolWei = 0,
                  pendingBurnAmount = 0, pendingBurnCostWei = 0,
                  activeListings = [listingA], lastTaxBlock = 15 \<rparr>"

definition zeroStore :: StateStore where
  "zeroStore =
     savedStore \<lparr> version = 3, commissionPoolWei = 300, salePoolWei = 0,
                  pendingBurnAmount = 0, pendingBurnCostWei = 0,
                  activeListings = [listingZero], lastTaxBlock = 15 \<rparr>"

definition mixedStore :: StateStore where
  "mixedStore =
     savedStore \<lparr> version = 3, commissionPoolWei = 300, salePoolWei = 0,
                  pendingBurnAmount = 0, pendingBurnCostWei = 0,
                  activeListings = [listingA, listingZero], lastTaxBlock = 15 \<rparr>"

definition listingHex :: ActiveListingState where
  "listingHex = listingA\<lparr>orderHash := ''0xdd'', tokenId := '' 0x10''\<rparr>"

definition worldToken16 :: world where
  "worldToken16 =
     world0\<lparr>readOwnerOf := (\<lambda>address tid.
       if tid = 16 then Inr (Str ''0xB0b'') else Inl (Error ''execution reverted''))\<rparr>"

definition worldReadFails :: world where
  "worldReadFails = world0\<lparr>readOwnerOf := (\<lambda>address tid. Inl (Error ''execution reverted''))\<rparr>"

text \<open>A chain that accepts a transaction only with the nonce that is due.\<close>

definition attemptDue :: "int \<Rightarrow> int \<Rightarrow> int \<Rightarrow> error + string" where
  "attemptDue due nonce multiplier =
     (if nonce = due then Inr (''0x7a'' @ bigint_toString nonce)
      else if nonce < due then Inl (Error ''Nonce too low'')
      else Inl (Error ''Nonce too high''))"

definition threeSubmissions :: "((error + int) \<times> (int \<Rightarrow> int \<Rightarrow> error + string)) list" where
  "threeSubmissions =
     [(Inr 7, attemptDue 7), (Inl (Error ''not asked''), attemptDue 8), (Inr 100, attemptDue 9)]"

definition attemptFeeTooLow :: "int \<Rightarrow> int \<Rightarrow> error + string" where
  "attemptFeeTooLow nonce multiplier =
     (if multiplier = 100 then Inl (Error ''Fee too low'') else Inr ''0x7c'')"

definition attemptStaleFirst :: "int \<Rightarrow> int \<Rightarrow> error + string" where
  "attemptStaleFirst nonce multiplier =
     (if multiplier = 100 then Inl (Error ''Nonce too low: next nonce 9, tx nonce 7'')
      else Inr ''0x7b'')"

definition attemptStaleLast :: "int \<Rightarrow> int \<Rightarrow> error + string" where
  "attemptStaleLast nonce multiplier =
     (if multiplier = 140 then Inl (Error ''Nonce too low: next nonce 9, tx nonce 7'')
      else Inl (Error ''Replacement transaction underpriced''))"

definition fundedStore :: StateStore where
  "fundedStore =
     savedStore \<lparr> version = 3, commissionPoolWei = 1500, salePoolWei = 0,
                  pendingBurnAmount = 0, pendingBurnCostWei = 0,
                  activeListings = [], lastTaxBlock = 15 \<rparr>"

definition worldPriceAbovePool :: world where
  "worldPriceAbovePool =
     world0\<lparr>fetchOpenSeaBuyExecution :=
       Inr \<lparr> router = ''0x0068f116'', calldata = ''0xe7acab24'', valueWei = 1200,
             priceWei = Some 2000, openSeaMetadata = None \<rparr>\<rparr>"

definition worldNoHead :: world where
  "worldNoHead = world0\<lparr>getBlockNumber := Inl (Error ''rpc down'')\<rparr>"

definition emptyOrder :: SeaportOrderComponents where
  "emptyOrder =
     \<lparr> offerer = ''0x3d2C8b92F3fE48e0961d5F9E64506A4E92CE7899'',
       zone = ''0x0000000000000000000000000000000000000000'',
       offer = [], consideration_order = [], orderType = 0,
       startTime = 1760194913, endTime = 1760799713, zoneHash = ZERO_BYTES32,
       salt = 7, conduitKey = ZERO_BYTES32,
       totalOriginalConsiderationItems = 0, counter = 0 \<rparr>"

text \<open>
  A stand-in for the encoder that shows where the offer array hash goes: the encoding of the
  thirteen values of an order is its fourth value, any other encoding is empty.
\<close>

definition offerHashOnly :: "abi_value list \<Rightarrow> error + string" where
  "offerHashOnly values =
     (if length values = 13
      then (case values ! 3 of Bytes32 h \<Rightarrow> Inr h | other \<Rightarrow> Inr ''0x'')
      else Inr ''0x'')"

definition oneItemOrder :: SeaportOrderComponents where
  "oneItemOrder =
     emptyOrder\<lparr>offer :=
       [\<lparr> itemType_item = 2, token_item = ''0x32911f93a1a2b3c4d5e6f708192a3b4c5d6e7f80'',
          identifierOrCriteria_item = 15732, startAmount = 1, endAmount = 1 \<rparr>]\<rparr>"

definition twoHashes :: "string list" where
  "twoHashes =
     [''0xa66999307ad1bb4fde44d13a5d710bd7718e0c87c1eef68a571629fbf5b93d02'',
      ''0x4e03657aea45a94fc7d47ba826c8d667c0d1e6e33a64a036ec44f58fa12d6c45'']"

section \<open>Round trip through the store\<close>

lemma digit_chars_table:
  "list_all (\<lambda>n. digit_val 10 (digit_chars ! n) = Some n \<and>
                 digit_chars ! n \<noteq> CHR ''-'' \<and> digit_chars ! n \<noteq> CHR ''+'' \<and>
                 \<not> isStrWhiteSpaceChar (digit_chars ! n)) [0..<10]"
  by (simp add: upt_rec digit_chars_def digit_val_def isStrWhiteSpaceChar_def)

lemma digit_val_digit_chars: "n < 10 \<Longrightarrow> digit_val 10 (digit_chars ! n) = Some n"
  using digit_chars_table by (simp add: list_all_iff)

lemma digit_chars_not_sign:
  "n < 10 \<Longrightarrow> digit_chars ! n \<noteq> CHR ''-'' \<and> digit_chars ! n \<noteq> CHR ''+''"
  using digit_chars_table by (simp add: list_all_iff)

lemma parse_digits_append:
  "parse_digits radix acc (xs @ ys) =
     (case parse_digits radix acc xs of None \<Rightarrow> None | Some a \<Rightarrow> parse_digits radix a ys)"
  by (induction xs arbitrary: acc) (auto split: option.splits)

lemma parse_nat_toString: "parse_digits 10 0 (nat_toString n) = Some n"
proof (induction n rule: nat_toString.induct)
  case (1 n)
  show ?case
  proof (cases "n < 10")
    case True
    then show ?thesis
      by (subst nat_toString.simps) (simp add: digit_val_digit_chars)
  next
    case False
    then have ih: "parse_digits 10 0 (nat_toString (n div 10)) = Some (n div 10)"
      using "1.IH" by simp
    have "n mod 10 < 10" by simp
    then have d: "digit_val 10 (digit_chars ! (n mod 10)) = Some (n mod 10)"
      by (rule digit_val_digit_chars)
    show ?thesis
      using False by (subst nat_toString.simps) (simp add: parse_digits_append ih d)
  qed
qed

lemma nat_toString_digits: "nat_toString n \<noteq> [] \<and> set (nat_toString n) \<subseteq> set digit_chars"
proof (induction n rule: nat_toString.induct)
  case (1 n)
  show ?case
  proof (cases "n < 10")
    case True
    then have "digit_chars ! n \<in> set digit_chars"
      by (intro nth_mem) (simp add: digit_chars_def)
    then show ?thesis
      using True by (subst (1 2) nat_toString.simps) simp
  next
    case False
    have "digit_chars ! (n mod 10) \<in> set digit_chars"
      by (rule nth_mem) (simp add: digit_chars_def)
    then show ?thesis
      using False "1.IH" by (subst (1 2) nat_toString.simps) simp
  qed
qed

lemma digit_chars_plain:
  "c \<in> set digit_chars \<Longrightarrow>
   c \<noteq> CHR ''-'' \<and> c \<noteq> CHR ''+'' \<and> \<not> isStrWhiteSpaceChar c \<and>
   c \<notin> set ''xXoObB''"
  by (auto simp add: digit_chars_def isStrWhiteSpaceChar_def)

lemma trimString_id:
  assumes "s \<noteq> []" and "\<not> isStrWhiteSpaceChar (hd s)" and "\<not> isStrWhiteSpaceChar (last s)"
  shows "trimString s = s"
proof -
  have "dropWhile isStrWhiteSpaceChar s = s"
    using assms(2) by (simp add: dropWhile_eq_self_iff)
  moreover have "dropWhile isStrWhiteSpaceChar (rev s) = rev s"
    using assms(1,3) by (simp add: dropWhile_eq_self_iff hd_rev)
  ultimately show ?thesis
    by (simp add: trimString_def)
qed

lemma radixOfPrefix_digits:
  assumes "set cs \<subseteq> set digit_chars"
  shows "radixOfPrefix cs = None" and "radixOfPrefix (CHR ''-'' # cs) = None"
proof -
  show "radixOfPrefix (CHR ''-'' # cs) = None"
    by (cases cs) (simp_all add: radixOfPrefix_def)
  show "radixOfPrefix cs = None"
  proof (cases cs)
    case Nil
    then show ?thesis by (simp add: radixOfPrefix_def)
  next
    case (Cons a rest)
    show ?thesis
    proof (cases rest)
      case Nil
      then show ?thesis using Cons by (simp add: radixOfPrefix_def)
    next
      case (Cons b more)
      then have "b \<in> set digit_chars"
        using assms \<open>cs = a # rest\<close> by simp
      then have "b \<notin> set ''xXoObB''"
        using digit_chars_plain by blast
      then show ?thesis
        using Cons \<open>cs = a # rest\<close> by (simp add: radixOfPrefix_def)
    qed
  qed
qed

text \<open>Reading back the decimal text of a bigint gives the bigint.\<close>

lemma BigInt_toString: "BigInt (bigint_toString i) = Inr i"
proof -
  define n where "n = nat \<bar>i\<bar>"
  define ds where "ds = nat_toString n"
  have ds: "ds \<noteq> []" "set ds \<subseteq> set digit_chars"
    using nat_toString_digits [of n] by (simp_all add: ds_def)
  then have ends: "hd ds \<in> set digit_chars" "last ds \<in> set digit_chars"
    by auto
  have parsed: "parse_digits 10 0 ds = Some n"
    by (simp add: ds_def parse_nat_toString)
  show ?thesis
  proof (cases "i < 0")
    case True
    then have shape: "bigint_toString i = CHR ''-'' # ds"
      by (simp add: bigint_toString_def ds_def n_def)
    have "\<not> isStrWhiteSpaceChar (CHR ''-'')"
      by (simp add: isStrWhiteSpaceChar_def)
    then have "trimString (CHR ''-'' # ds) = CHR ''-'' # ds"
      using ds(1) ends(2) by (intro trimString_id) (simp_all add: digit_chars_plain)
    then show ?thesis
      using True ds(1) parsed radixOfPrefix_digits(2) [OF ds(2)]
      by (simp add: BigInt_def shape n_def)
  next
    case False
    then have shape: "bigint_toString i = ds"
      by (simp add: bigint_toString_def ds_def n_def)
    have "trimString ds = ds"
      using ds(1) ends by (intro trimString_id) (simp_all add: digit_chars_plain)
    then show ?thesis
      using False ds(1) parsed radixOfPrefix_digits(1) [OF ds(2)] ends(1)
      by (simp add: BigInt_def shape n_def digit_chars_plain)
  qed
qed

lemma row_to_listing_inverse: "row_to_listing (listing_to_row l) = Inr l"
  by (cases "tokenStandard l")
     (simp_all add: row_to_listing_def listing_to_row_def BigInt_toString tokenStandard_text_def
        split: option.splits)

lemma rows_to_listings_inverse: "rows_to_listings (map listing_to_row ls) = Inr ls"
  by (induction ls) (simp_all add: row_to_listing_inverse)

lemma insertListings_distinct:
  "distinct (map orderHash_col rows @ map orderHash ls) \<Longrightarrow>
   insertListings rows ls = Inr (rows @ map listing_to_row ls)"
proof (induction ls arbitrary: rows)
  case Nil
  then show ?case by simp
next
  case (Cons l ls)
  have fresh: "orderHash l \<notin> set (map orderHash_col rows)"
    using Cons.prems by auto
  have "distinct (map orderHash_col (rows @ [listing_to_row l]) @ map orderHash ls)"
    using Cons.prems by (auto simp: listing_to_row_def)
  from Cons.IH [OF this] fresh show ?case
    by (simp add: insertListing_def listing_to_row_def)
qed

lemma select_sorted:
  "sorted (map listedAtMs ls) \<Longrightarrow>
   sort_key listedAtMs_col (map listing_to_row ls) = map listing_to_row ls"
proof -
  assume "sorted (map listedAtMs ls)"
  moreover have "map listedAtMs_col (map listing_to_row ls) = map listedAtMs ls"
    by (simp add: listing_to_row_def comp_def)
  ultimately have "sorted (map listedAtMs_col (map listing_to_row ls))"
    by (simp only:)
  then show ?thesis
    by (rule sort_key_id_if_sorted)
qed

lemma persistState_distinct:
  "distinct (map orderHash (activeListings st)) \<Longrightarrow>
   persistState d st =
     Inr \<lparr> state_table = Some
             \<lparr> version_col = STATE_VERSION,
               commissionPoolWei_col = bigint_toString (commissionPoolWei st),
               salePoolWei_col = bigint_toString (salePoolWei st),
               lastTaxBlock_col = bigint_toString (lastTaxBlock st),
               pendingBurnAmount_col = bigint_toString (pendingBurnAmount st),
               pendingBurnCostWei_col = bigint_toString (pendingBurnCostWei st) \<rparr>,
           listings_table = map listing_to_row (activeListings st) \<rparr>"
  using insertListings_distinct [of "[]" "activeListings st"]
  by (simp add: persistState_def)

lemma persist_then_load_sorted:
  assumes "distinct (map orderHash (activeListings st))"
    and "sorted (map listedAtMs (activeListings st))"
  shows "persist_then_load d st = Inr (Some (st\<lparr>version := STATE_VERSION\<rparr>))"
  using assms(2)
  by (simp add: persist_then_load_def persistState_distinct [OF assms(1)]
      readStateFromDatabase_def select_listings_def select_sorted BigInt_toString
      rows_to_listings_inverse Let_def)

text \<open>What a read returns after any save that went through.\<close>

lemma insertListings_result:
  "insertListings rows ls = Inr rows' \<Longrightarrow> rows' = rows @ map listing_to_row ls"
proof (induction ls arbitrary: rows)
  case Nil
  then show ?case by simp
next
  case (Cons l ls)
  from Cons.prems have "insertListings (rows @ [listing_to_row l]) ls = Inr rows'"
    by (simp add: insertListing_def split: if_splits)
  from Cons.IH [OF this] show ?case by simp
qed

lemma insort_key_map:
  "insort_key f (g x) (map g xs) = map g (insort_key (\<lambda>y. f (g y)) x xs)"
  by (induction xs) simp_all

lemma sort_key_map:
  "sort_key f (map g xs) = map g (sort_key (\<lambda>y. f (g y)) xs)"
  by (induction xs) (simp_all add: insort_key_map)

lemma select_listings_rows:
  "sort_key listedAtMs_col (map listing_to_row ls) = map listing_to_row (sort_key listedAtMs ls)"
proof -
  have "(\<lambda>y. listedAtMs_col (listing_to_row y)) = listedAtMs"
    by (rule ext) (simp add: listing_to_row_def)
  then show ?thesis by (simp add: sort_key_map)
qed

lemma read_after_persist:
  assumes "persistState d st = Inr d'"
  shows "readStateFromDatabase d' =
     Inr (Some (st\<lparr>version := STATE_VERSION,
                   activeListings := sort_key listedAtMs (activeListings st)\<rparr>))"
proof -
  obtain rows where ins: "insertListings [] (activeListings st) = Inr rows"
    using assms by (auto simp add: persistState_def split: sum.splits)
  then have rows: "rows = map listing_to_row (activeListings st)"
    using insertListings_result by fastforce
  show ?thesis
    using assms
    by (auto simp add: persistState_def ins rows readStateFromDatabase_def select_listings_def
        select_listings_rows BigInt_toString rows_to_listings_inverse Let_def)
qed

text \<open>
  C1, as amended. A ledger whose listings have pairwise different order hashes and stand in
  ascending \<open>listedAtMs\<close> order is saved without error, and loading the store afterwards
  returns the same ledger field for field (the two pools, the two pending-burn fields,
  \<open>lastTaxBlock\<close>, and the listings in the same order with every field), except that
  \<open>version\<close> is \<open>STATE_VERSION\<close>, whatever the version of the ledger saved and whatever the
  store held before.
\<close>

theorem persist_then_load_roundtrip:
  assumes "distinct (map orderHash (activeListings st))"
    and "sorted (map listedAtMs (activeListings st))"
  shows "persist_then_load d st = Inr (Some (st\<lparr>version := STATE_VERSION\<rparr>))"
  using assms by (rule persist_then_load_sorted)

theorem persist_then_load_roundtrip_witness:
  "distinct (map orderHash (activeListings (ledger 3 [listingB, listingA]))) \<and>
   sorted (map listedAtMs (activeListings (ledger 3 [listingB, listingA]))) \<and>
   persist_then_load emptyDatabase (ledger 3 [listingB, listingA]) =
     Inr (Some ((ledger 3 [listingB, listingA])\<lparr>version := STATE_VERSION\<rparr>))"
proof -
  have h1: "distinct (map orderHash (activeListings (ledger 3 [listingB, listingA])))"
    by (simp add: ledger_def listingA_def listingB_def)
  have h2: "sorted (map listedAtMs (activeListings (ledger 3 [listingB, listingA])))"
    by (simp add: ledger_def listingA_def listingB_def)
  show ?thesis
    using persist_then_load_roundtrip [OF h1 h2, of emptyDatabase] h1 h2 by simp
qed

text \<open>
  C1 as stated fails: a ledger of version 4 comes back with version 3; listings that are not
  in ascending \<open>listedAtMs\<close> order come back reordered; and two listings with one order hash
  make the save itself throw.
\<close>

theorem persist_then_load_counterexample:
  "persist_then_load emptyDatabase (ledger 4 []) = Inr (Some (ledger 3 [])) \<and>
   persist_then_load emptyDatabase (ledger 4 []) \<noteq> Inr (Some (ledger 4 [])) \<and>
   persist_then_load emptyDatabase (ledger 3 [listingA, listingB]) =
     Inr (Some (ledger 3 [listingB, listingA])) \<and>
   persist_then_load emptyDatabase (ledger 3 [listingA, listingB]) \<noteq>
     Inr (Some (ledger 3 [listingA, listingB])) \<and>
   persist_then_load emptyDatabase (ledger 3 [listingA, listingA]) =
     Inl (SqliteError ''UNIQUE constraint failed: listings.orderHash'')"
  by code_simp

section \<open>Consideration rescaling\<close>

lemma sdiv_nonneg: "0 \<le> k \<Longrightarrow> 0 < l \<Longrightarrow> k sdiv l = k div (l::int)"
  by (simp add: signed_divide_int_def sgn_if)

text \<open>
  What the loop computes: every line but the last gets its truncated share, and the last gets
  what is left of \<open>rem\<close>, or 0 if nothing positive is left.
\<close>

lemma scale_loop_amounts:
  "xs \<noteq> [] \<Longrightarrow>
   map amount (scale_loop tr T N xs rem scaled) =
     map amount scaled @ map (\<lambda>it. (N * originalAmount it) sdiv T) (butlast xs) @
     [if rem - sum_list (map (\<lambda>it. (N * originalAmount it) sdiv T) (butlast xs)) > 0
      then rem - sum_list (map (\<lambda>it. (N * originalAmount it) sdiv T) (butlast xs)) else 0]"
proof (induction xs arbitrary: rem scaled)
  case Nil
  then show ?case by simp
next
  case (Cons x xs)
  show ?case
  proof (cases "xs = []")
    case True
    then show ?thesis by (simp add: scaledItem_def)
  next
    case False
    then show ?thesis
      using Cons.IH [OF False] by (simp add: scaledItem_def algebra_simps)
  qed
qed

lemma shares_bound:
  assumes "0 < (T::int)" and "0 \<le> (N::int)" and "\<forall>x \<in> set xs. 0 \<le> f x"
  shows "T * sum_list (map (\<lambda>x. (N * f x) div T) xs) \<le> N * sum_list (map f xs)"
  using assms(3)
proof (induction xs)
  case Nil
  then show ?case by simp
next
  case (Cons x xs)
  have "T * ((N * f x) div T) \<le> N * f x"
    using pos_mod_sign [OF assms(1), of "N * f x"] mult_div_mod_eq [of T "N * f x"]
    by linarith
  then show ?case using Cons by (simp add: algebra_simps)
qed

lemma sum_list_butlast_last:
  "xs \<noteq> [] \<Longrightarrow> sum_list (map f xs) = sum_list (map f (butlast xs)) + (f (last xs) :: int)"
  by (induction xs) auto

lemma scale_amounts_nonneg:
  assumes nonneg: "\<forall>it \<in> set xs. 0 \<le> originalAmount it"
    and total: "T = sum_list (map originalAmount xs)"
    and T0: "T \<noteq> 0" and N0: "0 < N"
  shows "map amount (scaleConsiderationAmounts tr xs T N) =
           map (\<lambda>it. (N * originalAmount it) div T) (butlast xs) @
           [N - sum_list (map (\<lambda>it. (N * originalAmount it) div T) (butlast xs))]"
proof -
  have sum_nonneg: "0 \<le> sum_list (map originalAmount xs)"
    by (rule sum_list_nonneg) (use nonneg in auto)
  then have Tpos: "0 < T" using total T0 by simp
  have ne: "xs \<noteq> []" using total T0 by auto
  have bl: "\<forall>it \<in> set (butlast xs). 0 \<le> originalAmount it"
    using nonneg by (auto dest: in_set_butlastD)
  have eq: "map (\<lambda>it. (N * originalAmount it) sdiv T) (butlast xs) =
            map (\<lambda>it. (N * originalAmount it) div T) (butlast xs)"
  proof (rule map_cong [OF refl])
    fix it assume "it \<in> set (butlast xs)"
    then have "0 \<le> N * originalAmount it" using bl N0 by simp
    then show "(N * originalAmount it) sdiv T = (N * originalAmount it) div T"
      using Tpos by (rule sdiv_nonneg)
  qed
  let ?S = "sum_list (map (\<lambda>it. (N * originalAmount it) div T) (butlast xs))"
  have "T * ?S \<le> N * sum_list (map originalAmount (butlast xs))"
    using shares_bound [OF Tpos _ bl] N0 by simp
  also have "sum_list (map originalAmount (butlast xs)) \<le> T"
  proof -
    have "sum_list (map originalAmount xs) =
        sum_list (map originalAmount (butlast xs)) + originalAmount (last xs)"
      using ne by (rule sum_list_butlast_last)
    moreover have "0 \<le> originalAmount (last xs)" using nonneg ne by simp
    ultimately show ?thesis using total by simp
  qed
  finally have "T * ?S \<le> T * N" using N0 by (simp add: mult_left_mono mult.commute)
  then have le: "?S \<le> N" using Tpos by (rule mult_left_le_imp_le)
  have "map amount (scaleConsiderationAmounts tr xs T N) =
          map amount (scale_loop tr T N xs N [])"
    using T0 N0 by (simp add: scaleConsiderationAmounts_def)
  also have "\<dots> = map (\<lambda>it. (N * originalAmount it) div T) (butlast xs) @
      [if N - ?S > 0 then N - ?S else 0]"
    unfolding scale_loop_amounts [OF ne] eq by simp
  also have "(if N - ?S > 0 then N - ?S else 0) = N - ?S"
    using le by simp
  finally show ?thesis .
qed

text \<open>
  C2. The amounts are wei amounts of an order, so none is negative, and the only caller
  returns before the call when the target total is not positive. For consideration lines
  whose original amounts sum to a nonzero \<open>originalTotal\<close> and such a target total,
  \<open>scaleConsiderationAmounts\<close> returns as many items as there are lines, their amounts
  sum exactly to the target, every item but the last has the amount
  \<open>floor (target * originalAmount / originalTotal)\<close>, and the last has the remaining
  difference.
\<close>

theorem scaleConsiderationAmounts_conserves:
  assumes "\<forall>it \<in> set lines. 0 \<le> originalAmount it"
    and "originalTotal = sum_list (map originalAmount lines)"
    and "originalTotal \<noteq> 0"
    and "0 < newTotal"
  shows "length (scaleConsiderationAmounts treasury lines originalTotal newTotal) = length lines \<and>
         sum_list (map amount (scaleConsiderationAmounts treasury lines originalTotal newTotal))
           = newTotal \<and>
         (\<forall>i. i + 1 < length lines \<longrightarrow>
            amount (scaleConsiderationAmounts treasury lines originalTotal newTotal ! i) =
              (newTotal * originalAmount (lines ! i)) div originalTotal) \<and>
         amount (last (scaleConsiderationAmounts treasury lines originalTotal newTotal)) =
           newTotal - sum_list (map amount
             (butlast (scaleConsiderationAmounts treasury lines originalTotal newTotal)))"
proof -
  let ?R = "scaleConsiderationAmounts treasury lines originalTotal newTotal"
  let ?shares = "map (\<lambda>it. (newTotal * originalAmount it) div originalTotal) (butlast lines)"
  have am: "map amount ?R = ?shares @ [newTotal - sum_list ?shares]"
    using assms by (rule scale_amounts_nonneg)
  have ne: "lines \<noteq> []" using assms(2,3) by auto
  have "length (map amount ?R) = length (butlast lines) + 1"
    unfolding am by simp
  then have len: "length ?R = length lines" using ne by simp
  have rne: "?R \<noteq> []" using len ne by auto
  have total: "sum_list (map amount ?R) = newTotal"
    unfolding am by simp
  have shares: "\<forall>i. i + 1 < length lines \<longrightarrow>
      amount (?R ! i) = (newTotal * originalAmount (lines ! i)) div originalTotal"
  proof (intro allI impI)
    fix i assume i: "i + 1 < length lines"
    then have ib: "i < length (butlast lines)" by simp
    have "amount (?R ! i) = map amount ?R ! i" using i len by simp
    also have "\<dots> = ?shares ! i" unfolding am using ib by (simp add: nth_append)
    also have "\<dots> = (newTotal * originalAmount (butlast lines ! i)) div originalTotal"
      using ib by simp
    also have "butlast lines ! i = lines ! i" using ib by (simp add: nth_butlast)
    finally show "amount (?R ! i) = (newTotal * originalAmount (lines ! i)) div originalTotal" .
  qed
  have "amount (last ?R) = last (map amount ?R)" using rne by (simp add: last_map)
  also have "\<dots> = newTotal - sum_list ?shares" unfolding am by simp
  also have "?shares = butlast (map amount ?R)" unfolding am by simp
  also have "\<dots> = map amount (butlast ?R)" by (simp add: map_butlast)
  finally have lastR: "amount (last ?R) = newTotal - sum_list (map amount (butlast ?R))" .
  show ?thesis using len total shares lastR by blast
qed

theorem scaleConsiderationAmounts_conserves_witness:
  "sum_list (map originalAmount threeLines) = 1001 \<and>
   map amount (scaleConsiderationAmounts ''0x7ea5'' threeLines 1001 1300) = [1266, 32, 2] \<and>
   length (scaleConsiderationAmounts ''0x7ea5'' threeLines 1001 1300) = length threeLines \<and>
   sum_list (map amount (scaleConsiderationAmounts ''0x7ea5'' threeLines 1001 1300)) = 1300 \<and>
   amount (last (scaleConsiderationAmounts ''0x7ea5'' threeLines 1001 1300)) =
     1300 - sum_list (map amount
       (butlast (scaleConsiderationAmounts ''0x7ea5'' threeLines 1001 1300)))"
proof -
  have h1: "\<forall>it \<in> set threeLines. 0 \<le> originalAmount it"
    by (simp add: threeLines_def considerationLine_def)
  have h2: "(1001::int) = sum_list (map originalAmount threeLines)"
    by (simp add: threeLines_def considerationLine_def)
  have h3: "(1001::int) \<noteq> 0" by simp
  have h4: "(0::int) < 1300" by simp
  have ev: "map amount (scaleConsiderationAmounts ''0x7ea5'' threeLines 1001 1300) = [1266, 32, 2]"
    by code_simp
  show ?thesis
    using scaleConsiderationAmounts_conserves [OF h1 h2 h3 h4, of "''0x7ea5''"] h2 ev by simp
qed

text \<open>
  Outside these amounts, for a negative target total or a negative original amount, the
  last amount is clamped at 0.
\<close>

lemma scaleConsiderationAmounts_clamps_at_zero:
  "sum_list (map originalAmount [considerationLine 1 ''0xfee'' False]) = 1 \<and>
   map amount (scaleConsiderationAmounts ''0x7ea5'' [considerationLine 1 ''0xfee'' False] 1 (- 10))
     = [0] \<and>
   sum_list (map amount
     (scaleConsiderationAmounts ''0x7ea5'' [considerationLine 1 ''0xfee'' False] 1 (- 10))) \<noteq> - 10 \<and>
   sum_list (map originalAmount
     [considerationLine 3 ''0x5e11e4'' True, considerationLine (- 1) ''0xfee'' False]) = 2 \<and>
   map amount (scaleConsiderationAmounts ''0x7ea5''
     [considerationLine 3 ''0x5e11e4'' True, considerationLine (- 1) ''0xfee'' False] 2 10)
     = [15, 0] \<and>
   sum_list (map amount (scaleConsiderationAmounts ''0x7ea5''
     [considerationLine 3 ''0x5e11e4'' True, considerationLine (- 1) ''0xfee'' False] 2 10)) \<noteq> 10"
  by code_simp

section \<open>Buyback and burn\<close>

lemma encodeFunctionData_transfer:
  "isAddress burnAddress \<Longrightarrow> 0 \<le> burnAmount \<Longrightarrow> burnAmount \<le> maxUint256 \<Longrightarrow>
   encodeFunctionData (Transfer burnAddress burnAmount) = Inr (Transfer burnAddress burnAmount)"
  by (simp add: encodeFunctionData_def checkAddress_def checkUint256_def)

lemma encodeFunctionData_transfer_throws:
  "\<not> (isAddress burnAddress \<and> 0 \<le> burnAmount \<and> burnAmount \<le> maxUint256) \<Longrightarrow>
   \<exists>e. encodeFunctionData (Transfer burnAddress burnAmount) = Inl e"
  by (auto simp add: encodeFunctionData_def checkAddress_def checkUint256_def)

lemma performBuybackAndBurn_not_configured:
  "TOKEN_ADDRESS cfg = None \<or> BUYBACK_ROUTER_ADDRESS cfg = None \<or> WETH_ADDRESS cfg = None \<Longrightarrow>
   performBuybackAndBurn w cfg store = (Inr False, store, [])"
  by (auto simp add: performBuybackAndBurn_def split: option.splits)

lemma performBuybackAndBurn_pending:
  assumes "TOKEN_ADDRESS cfg = Some tokenAddress"
    and "BUYBACK_ROUTER_ADDRESS cfg = Some buybackRouter"
    and "WETH_ADDRESS cfg = Some weth"
    and "0 < pendingBurnAmount (state store)"
  shows "performBuybackAndBurn w cfg store =
     (case completePendingBurn w cfg store None of
        (Inl e, store1, events) \<Rightarrow> (Inl e, store1, events)
      | (Inr u, store1, events) \<Rightarrow> (Inr True, store1, events))"
  using assms by (simp add: performBuybackAndBurn_def)

lemma completePendingBurn_encode_throws:
  assumes "TOKEN_ADDRESS cfg = Some tokenAddress"
    and "0 < pendingBurnAmount (state store)"
    and "encodeFunctionData (Transfer (BURN_ADDRESS cfg) (pendingBurnAmount (state store))) = Inl e"
  shows "completePendingBurn w cfg store spent = (Inl e, store, [])"
  using assms by (simp add: completePendingBurn_def)

lemma completePendingBurn_submit_fails:
  assumes "TOKEN_ADDRESS cfg = Some tokenAddress"
    and "0 < pendingBurnAmount (state store)"
    and "encodeFunctionData (Transfer (BURN_ADDRESS cfg) (pendingBurnAmount (state store))) =
           Inr burnCalldata"
    and "executeSeaport w \<lparr> router_req = tokenAddress, valueWei_req = 0,
           calldata_req = burnCalldata, callValueWei_req = 0 \<rparr> = Inl e"
  shows "completePendingBurn w cfg store spent =
     (Inl e, store, [ExecuteSeaport \<lparr> router_req = tokenAddress, valueWei_req = 0,
           calldata_req = burnCalldata, callValueWei_req = 0 \<rparr>])"
  using assms by (simp add: completePendingBurn_def Let_def)

lemma completePendingBurn_receipt_fails:
  assumes "TOKEN_ADDRESS cfg = Some tokenAddress"
    and "0 < pendingBurnAmount (state store)"
    and "encodeFunctionData (Transfer (BURN_ADDRESS cfg) (pendingBurnAmount (state store))) =
           Inr burnCalldata"
    and "executeSeaport w \<lparr> router_req = tokenAddress, valueWei_req = 0,
           calldata_req = burnCalldata, callValueWei_req = 0 \<rparr> = Inr burnTx"
    and "waitForReceipt w burnTx = Inl e"
  shows "completePendingBurn w cfg store spent =
     (Inl e, store, [ExecuteSeaport \<lparr> router_req = tokenAddress, valueWei_req = 0,
           calldata_req = burnCalldata, callValueWei_req = 0 \<rparr>, WaitForReceipt burnTx])"
  using assms by (simp add: completePendingBurn_def Let_def)

text \<open>
  A confirmed burn: the ledger handed to \<open>save\<close> and left in memory, whether or not the
  save goes through.
\<close>

lemma completePendingBurn_confirmed:
  fixes store :: StateStore and spent :: "int option"
  defines "burned \<equiv>
     (state store)\<lparr>pendingBurnAmount := 0, pendingBurnCostWei := 0,
        salePoolWei := salePoolWei (state store) -
          max 0 (min (case spent of Some v \<Rightarrow> v | None \<Rightarrow> pendingBurnCostWei (state store))
                     (salePoolWei (state store)))\<rparr>"
  assumes "TOKEN_ADDRESS cfg = Some tokenAddress"
    and "0 < pendingBurnAmount (state store)"
    and "encodeFunctionData (Transfer (BURN_ADDRESS cfg) (pendingBurnAmount (state store))) =
           Inr burnCalldata"
    and "executeSeaport w \<lparr> router_req = tokenAddress, valueWei_req = 0,
           calldata_req = burnCalldata, callValueWei_req = 0 \<rparr> = Inr burnTx"
    and "waitForReceipt w burnTx = Inr receipt"
  shows "completePendingBurn w cfg store spent =
     (case save (store\<lparr>state := burned\<rparr>) of
        Inl e \<Rightarrow>
          (Inl e, store\<lparr>state := burned\<rparr>,
           [ExecuteSeaport \<lparr> router_req = tokenAddress, valueWei_req = 0,
              calldata_req = burnCalldata, callValueWei_req = 0 \<rparr>, WaitForReceipt burnTx,
            Save burned])
      | Inr store3 \<Rightarrow>
          (Inr (), store3,
           [ExecuteSeaport \<lparr> router_req = tokenAddress, valueWei_req = 0,
              calldata_req = burnCalldata, callValueWei_req = 0 \<rparr>, WaitForReceipt burnTx,
            Save burned]))"
proof -
  define cost where
    "cost = (case spent of Some v \<Rightarrow> v | None \<Rightarrow> pendingBurnCostWei (state store))"
  have b: "burned = (state store)\<lparr>pendingBurnAmount := 0, pendingBurnCostWei := 0,
        salePoolWei := salePoolWei (state store) - max 0 (min cost (salePoolWei (state store)))\<rparr>"
    by (simp add: burned_def cost_def)
  have c: "(case spent of Some v \<Rightarrow> v | None \<Rightarrow> pendingBurnCostWei (state store)) = cost"
    by (simp add: cost_def)
  consider "cost \<le> 0" | "0 < cost" "cost \<le> salePoolWei (state store)"
    | "0 < cost" "salePoolWei (state store) < cost" "0 < salePoolWei (state store)"
    | "0 < cost" "salePoolWei (state store) < cost" "salePoolWei (state store) \<le> 0"
    by linarith
  then show ?thesis
  proof cases
    case 1
    then show ?thesis
      using assms(2-) by (simp add: completePendingBurn_def Let_def c b split: sum.splits)
  next
    case 2
    then show ?thesis
      using assms(2-) by (simp add: completePendingBurn_def Let_def c b split: sum.splits)
  next
    case 3
    then show ?thesis
      using assms(2-) by (simp add: completePendingBurn_def Let_def c b split: sum.splits)
  next
    case 4
    then show ?thesis
      using assms(2-) by (simp add: completePendingBurn_def Let_def c b split: sum.splits)
  qed
qed

text \<open>
  C3, as amended. With a pending burn and the buyback configured (\<open>TOKEN_ADDRESS\<close>,
  \<open>BUYBACK_ROUTER_ADDRESS\<close> and \<open>WETH_ADDRESS\<close> all set), \<open>performBuybackAndBurn\<close> submits
  nothing but the burn transfer of the pending amount: no swap. When that transfer is
  encoded, submitted and confirmed, both pending fields are set to 0, the sale pool is
  debited by the recorded cost capped at the pool, and that ledger is handed to \<open>save\<close>; a
  pool that was not negative does not become negative, and with distinct order hashes the
  save goes through and a later read of the database returns these values. A burn that
  cannot be encoded, is not submitted or is not confirmed leaves the store as it was, and
  once the burn is confirmed the burn step is a no-op, so the cost recorded for one swap is
  deducted at most once. When one of the three addresses is not configured,
  \<open>performBuybackAndBurn\<close> returns \<open>false\<close> before it looks at the pending burn.
\<close>

theorem performBuybackAndBurn_resumes_burn:
  fixes w :: world and cfg :: config and store :: StateStore
  defines "configured \<equiv>
     TOKEN_ADDRESS cfg \<noteq> None \<and> BUYBACK_ROUTER_ADDRESS cfg \<noteq> None \<and> WETH_ADDRESS cfg \<noteq> None"
  defines "encodable \<equiv>
     isAddress (BURN_ADDRESS cfg) \<and> pendingBurnAmount (state store) \<le> maxUint256"
  defines "burnRequest \<equiv>
     \<lparr> router_req = the (TOKEN_ADDRESS cfg), valueWei_req = 0,
       calldata_req = Transfer (BURN_ADDRESS cfg) (pendingBurnAmount (state store)),
       callValueWei_req = 0 \<rparr>"
  defines "burned \<equiv>
     (state store)\<lparr>pendingBurnAmount := 0, pendingBurnCostWei := 0,
        salePoolWei := salePoolWei (state store) -
          max 0 (min (pendingBurnCostWei (state store)) (salePoolWei (state store)))\<rparr>"
  assumes pending: "0 < pendingBurnAmount (state store)"
  shows "(\<not> configured \<longrightarrow> performBuybackAndBurn w cfg store = (Inr False, store, [])) \<and>
         (configured \<longrightarrow>
            (\<forall>request. ExecuteSeaport request \<in> set (snd (snd (performBuybackAndBurn w cfg store)))
               \<longrightarrow> request = burnRequest)) \<and>
         (configured \<and> \<not> encodable \<longrightarrow>
            (\<exists>e. performBuybackAndBurn w cfg store = (Inl e, store, []))) \<and>
         (\<forall>e. configured \<and> encodable \<and> executeSeaport w burnRequest = Inl e
            \<longrightarrow> performBuybackAndBurn w cfg store = (Inl e, store, [ExecuteSeaport burnRequest])) \<and>
         (\<forall>burnTx e. configured \<and> encodable \<and> executeSeaport w burnRequest = Inr burnTx \<and>
              waitForReceipt w burnTx = Inl e
            \<longrightarrow> performBuybackAndBurn w cfg store =
                  (Inl e, store, [ExecuteSeaport burnRequest, WaitForReceipt burnTx])) \<and>
         (\<forall>burnTx. configured \<and> encodable \<and> executeSeaport w burnRequest = Inr burnTx \<and>
              waitForReceipt w burnTx = Inr ()
            \<longrightarrow> state (fst (snd (performBuybackAndBurn w cfg store))) = burned \<and>
                snd (snd (performBuybackAndBurn w cfg store)) =
                  [ExecuteSeaport burnRequest, WaitForReceipt burnTx, Save burned] \<and>
                (\<forall>e. persistState (db store) burned = Inl e \<longrightarrow>
                   performBuybackAndBurn w cfg store =
                     (Inl e, \<lparr> db = db store, state = burned \<rparr>,
                      [ExecuteSeaport burnRequest, WaitForReceipt burnTx, Save burned])) \<and>
                (distinct (map orderHash (activeListings (state store))) \<longrightarrow>
                   fst (performBuybackAndBurn w cfg store) = Inr True \<and>
                   (\<exists>loaded.
                      readStateFromDatabase (db (fst (snd (performBuybackAndBurn w cfg store)))) =
                        Inr (Some loaded) \<and>
                      pendingBurnAmount loaded = 0 \<and> pendingBurnCostWei loaded = 0 \<and>
                      salePoolWei loaded = salePoolWei burned))) \<and>
         pendingBurnAmount burned = 0 \<and> pendingBurnCostWei burned = 0 \<and>
         (0 \<le> salePoolWei (state store) \<longrightarrow> 0 \<le> salePoolWei burned) \<and>
         (0 \<le> salePoolWei (state store) \<and> 0 \<le> pendingBurnCostWei (state store)
            \<longrightarrow> salePoolWei burned = salePoolWei (state store) -
                  min (pendingBurnCostWei (state store)) (salePoolWei (state store))) \<and>
         (\<forall>w' d'. completePendingBurn w' cfg \<lparr> db = d', state = burned \<rparr> None =
            (Inr (), \<lparr> db = d', state = burned \<rparr>, []))"
proof -
  have off: "performBuybackAndBurn w cfg store = (Inr False, store, [])" if "\<not> configured"
    using that performBuybackAndBurn_not_configured [of cfg w store]
    by (auto simp add: configured_def)
  have z: "pendingBurnAmount burned = 0" "pendingBurnCostWei burned = 0"
    by (simp_all add: burned_def)
  have nn: "0 \<le> salePoolWei (state store) \<longrightarrow> 0 \<le> salePoolWei burned"
    by (simp add: burned_def min_def max_def)
  have cap: "0 \<le> salePoolWei (state store) \<and> 0 \<le> pendingBurnCostWei (state store)
            \<longrightarrow> salePoolWei burned = salePoolWei (state store) -
                  min (pendingBurnCostWei (state store)) (salePoolWei (state store))"
    by (simp add: burned_def min_def max_def)
  have noop: "\<forall>w' d'. completePendingBurn w' cfg \<lparr> db = d', state = burned \<rparr> None =
            (Inr (), \<lparr> db = d', state = burned \<rparr>, [])"
    by (simp add: completePendingBurn_def burned_def)
  have on: "(\<forall>request. ExecuteSeaport request \<in> set (snd (snd (performBuybackAndBurn w cfg store)))
               \<longrightarrow> request = burnRequest) \<and>
         (\<not> encodable \<longrightarrow> (\<exists>e. performBuybackAndBurn w cfg store = (Inl e, store, []))) \<and>
         (\<forall>e. encodable \<and> executeSeaport w burnRequest = Inl e
            \<longrightarrow> performBuybackAndBurn w cfg store = (Inl e, store, [ExecuteSeaport burnRequest])) \<and>
         (\<forall>burnTx e. encodable \<and> executeSeaport w burnRequest = Inr burnTx \<and>
              waitForReceipt w burnTx = Inl e
            \<longrightarrow> performBuybackAndBurn w cfg store =
                  (Inl e, store, [ExecuteSeaport burnRequest, WaitForReceipt burnTx])) \<and>
         (\<forall>burnTx. encodable \<and> executeSeaport w burnRequest = Inr burnTx \<and>
              waitForReceipt w burnTx = Inr ()
            \<longrightarrow> state (fst (snd (performBuybackAndBurn w cfg store))) = burned \<and>
                snd (snd (performBuybackAndBurn w cfg store)) =
                  [ExecuteSeaport burnRequest, WaitForReceipt burnTx, Save burned] \<and>
                (\<forall>e. persistState (db store) burned = Inl e \<longrightarrow>
                   performBuybackAndBurn w cfg store =
                     (Inl e, \<lparr> db = db store, state = burned \<rparr>,
                      [ExecuteSeaport burnRequest, WaitForReceipt burnTx, Save burned])) \<and>
                (distinct (map orderHash (activeListings (state store))) \<longrightarrow>
                   fst (performBuybackAndBurn w cfg store) = Inr True \<and>
                   (\<exists>loaded.
                      readStateFromDatabase (db (fst (snd (performBuybackAndBurn w cfg store)))) =
                        Inr (Some loaded) \<and>
                      pendingBurnAmount loaded = 0 \<and> pendingBurnCostWei loaded = 0 \<and>
                      salePoolWei loaded = salePoolWei burned)))"
    if configured
  proof -
    have "TOKEN_ADDRESS cfg \<noteq> None" "BUYBACK_ROUTER_ADDRESS cfg \<noteq> None"
      "WETH_ADDRESS cfg \<noteq> None"
      using that by (simp_all add: configured_def)
    then obtain tokenAddress buybackRouter weth where cf:
      "TOKEN_ADDRESS cfg = Some tokenAddress" "BUYBACK_ROUTER_ADDRESS cfg = Some buybackRouter"
      "WETH_ADDRESS cfg = Some weth"
      by auto
    let ?call = "Transfer (BURN_ADDRESS cfg) (pendingBurnAmount (state store))"
    have req: "burnRequest = \<lparr> router_req = tokenAddress, valueWei_req = 0,
         calldata_req = ?call, callValueWei_req = 0 \<rparr>"
      by (simp add: burnRequest_def cf)
    note resume = performBuybackAndBurn_pending [OF cf pending]
    have enc: "encodeFunctionData ?call = Inr ?call" if encodable
      using that pending by (intro encodeFunctionData_transfer) (simp_all add: encodable_def)
    have fail0: "\<exists>e. performBuybackAndBurn w cfg store = (Inl e, store, [])" if "\<not> encodable"
    proof -
      have "\<not> (isAddress (BURN_ADDRESS cfg) \<and> 0 \<le> pendingBurnAmount (state store) \<and>
          pendingBurnAmount (state store) \<le> maxUint256)"
        using that by (simp add: encodable_def)
      from encodeFunctionData_transfer_throws [OF this]
      obtain e where "encodeFunctionData ?call = Inl e" ..
      from completePendingBurn_encode_throws [OF cf(1) pending this, of w None]
      show ?thesis by (simp add: resume)
    qed
    have fail1: "performBuybackAndBurn w cfg store = (Inl e, store, [ExecuteSeaport burnRequest])"
      if encodable "executeSeaport w burnRequest = Inl e" for e
      using that(2) completePendingBurn_submit_fails [OF cf(1) pending enc [OF that(1)], of w e None]
      by (simp add: resume req)
    have fail2: "performBuybackAndBurn w cfg store =
        (Inl e, store, [ExecuteSeaport burnRequest, WaitForReceipt burnTx])"
      if encodable "executeSeaport w burnRequest = Inr burnTx" "waitForReceipt w burnTx = Inl e"
      for burnTx e
      using that(2,3)
        completePendingBurn_receipt_fails [OF cf(1) pending enc [OF that(1)], of w burnTx e None]
      by (simp add: resume req)
    have run: "completePendingBurn w cfg store None =
        (case save (store\<lparr>state := burned\<rparr>) of
           Inl e \<Rightarrow> (Inl e, store\<lparr>state := burned\<rparr>,
                     [ExecuteSeaport burnRequest, WaitForReceipt burnTx, Save burned])
         | Inr store3 \<Rightarrow> (Inr (), store3,
                     [ExecuteSeaport burnRequest, WaitForReceipt burnTx, Save burned]))"
      if encodable "executeSeaport w burnRequest = Inr burnTx" "waitForReceipt w burnTx = Inr ()"
      for burnTx
      using that(2,3)
        completePendingBurn_confirmed [OF cf(1) pending enc [OF that(1)], of w burnTx "()" None]
      by (simp add: req burned_def cong: sum.case_cong)
    have ok: "state (fst (snd (performBuybackAndBurn w cfg store))) = burned \<and>
        snd (snd (performBuybackAndBurn w cfg store)) =
          [ExecuteSeaport burnRequest, WaitForReceipt burnTx, Save burned] \<and>
        (\<forall>e. persistState (db store) burned = Inl e \<longrightarrow>
           performBuybackAndBurn w cfg store =
             (Inl e, \<lparr> db = db store, state = burned \<rparr>,
              [ExecuteSeaport burnRequest, WaitForReceipt burnTx, Save burned])) \<and>
        (distinct (map orderHash (activeListings (state store))) \<longrightarrow>
           fst (performBuybackAndBurn w cfg store) = Inr True \<and>
           (\<exists>loaded.
              readStateFromDatabase (db (fst (snd (performBuybackAndBurn w cfg store)))) =
                Inr (Some loaded) \<and>
              pendingBurnAmount loaded = 0 \<and> pendingBurnCostWei loaded = 0 \<and>
              salePoolWei loaded = salePoolWei burned))"
      if encodable "executeSeaport w burnRequest = Inr burnTx" "waitForReceipt w burnTx = Inr ()"
      for burnTx
    proof (cases "persistState (db store) burned")
      case (Inl e)
      have "\<not> distinct (map orderHash (activeListings (state store)))"
      proof
        assume "distinct (map orderHash (activeListings (state store)))"
        then have "distinct (map orderHash (activeListings burned))"
          by (simp add: burned_def)
        from persistState_distinct [OF this, of "db store"] Inl show False by simp
      qed
      note nd = this
      have sv: "save (store\<lparr>state := burned\<rparr>) = Inl e"
        using Inl by (simp add: save_def)
      have eq: "store\<lparr>state := burned\<rparr> = \<lparr> db = db store, state = burned \<rparr>"
        by (cases store) simp
      have "performBuybackAndBurn w cfg store =
          (Inl e, \<lparr> db = db store, state = burned \<rparr>,
           [ExecuteSeaport burnRequest, WaitForReceipt burnTx, Save burned])"
        by (simp add: resume run [OF that] sv)
      then show ?thesis
        using Inl nd by simp
    next
      case (Inr d')
      have sv: "save (store\<lparr>state := burned\<rparr>) = Inr \<lparr> db = d', state = burned \<rparr>"
        using Inr by (cases store) (simp add: save_def)
      have "performBuybackAndBurn w cfg store =
          (Inr True, \<lparr> db = d', state = burned \<rparr>,
           [ExecuteSeaport burnRequest, WaitForReceipt burnTx, Save burned])"
        by (simp add: resume run [OF that] sv)
      then show ?thesis
        using Inr read_after_persist [OF Inr] by (simp add: burned_def)
    qed
    have only: "\<forall>request. ExecuteSeaport request \<in> set (snd (snd (performBuybackAndBurn w cfg store)))
              \<longrightarrow> request = burnRequest"
    proof (cases encodable)
      case False
      then show ?thesis using fail0 by auto
    next
      case True
      show ?thesis
      proof (cases "executeSeaport w burnRequest")
        case (Inl e)
        then show ?thesis using fail1 [OF True] by simp
      next
        case (Inr burnTx)
        show ?thesis
        proof (cases "waitForReceipt w burnTx")
          case (Inl e)
          then show ?thesis using fail2 [OF True Inr] by simp
        next
          case (Inr u)
          then have "waitForReceipt w burnTx = Inr ()" by simp
          from ok [OF True \<open>executeSeaport w burnRequest = Inr burnTx\<close> this]
          show ?thesis by simp
        qed
      qed
    qed
    show ?thesis
      using only fail0 fail1 fail2 ok by blast
  qed
  show ?thesis
    using off on z nn cap noop by blast
qed

theorem performBuybackAndBurn_resumes_burn_witness:
  "0 < pendingBurnAmount (state pendingStore) \<and>
   TOKEN_ADDRESS cfg0 \<noteq> None \<and> BUYBACK_ROUTER_ADDRESS cfg0 \<noteq> None \<and> WETH_ADDRESS cfg0 \<noteq> None \<and>
   isAddress (BURN_ADDRESS cfg0) \<and> pendingBurnAmount (state pendingStore) \<le> maxUint256 \<and>
   distinct (map orderHash (activeListings (state pendingStore))) \<and>
   executeSeaport world0
     \<lparr> router_req = ''0x7000000000000000000000000000000000000070'', valueWei_req = 0,
       calldata_req = Transfer ''0x000000000000000000000000000000000000dead'' 500,
       callValueWei_req = 0 \<rparr> = Inr ''0x7a'' \<and>
   waitForReceipt world0 ''0x7a'' = Inr () \<and>
   fst (performBuybackAndBurn world0 cfg0 pendingStore) = Inr True \<and>
   state (fst (snd (performBuybackAndBurn world0 cfg0 pendingStore))) =
     \<lparr> version = 3, commissionPoolWei = 300, salePoolWei = 0, pendingBurnAmount = 0,
       pendingBurnCostWei = 0, activeListings = [], lastTaxBlock = 15 \<rparr> \<and>
   snd (snd (performBuybackAndBurn world0 cfg0 pendingStore)) =
     [ExecuteSeaport \<lparr> router_req = ''0x7000000000000000000000000000000000000070'',
                       valueWei_req = 0,
                       calldata_req = Transfer ''0x000000000000000000000000000000000000dead'' 500,
                       callValueWei_req = 0 \<rparr>,
      WaitForReceipt ''0x7a'',
      Save \<lparr> version = 3, commissionPoolWei = 300, salePoolWei = 0, pendingBurnAmount = 0,
             pendingBurnCostWei = 0, activeListings = [], lastTaxBlock = 15 \<rparr>] \<and>
   (\<exists>loaded.
      readStateFromDatabase (db (fst (snd (performBuybackAndBurn world0 cfg0 pendingStore)))) =
        Inr (Some loaded) \<and>
      pendingBurnAmount loaded = 0 \<and> pendingBurnCostWei loaded = 0 \<and> salePoolWei loaded = 0)"
proof -
  have h1: "TOKEN_ADDRESS cfg0 \<noteq> None \<and> BUYBACK_ROUTER_ADDRESS cfg0 \<noteq> None \<and>
      WETH_ADDRESS cfg0 \<noteq> None"
    by (simp add: cfg0_def)
  have h2: "0 < pendingBurnAmount (state pendingStore)"
    by (simp add: pendingStore_def)
  have h3: "distinct (map orderHash (activeListings (state pendingStore)))"
    by (simp add: pendingStore_def)
  have h4: "isAddress (BURN_ADDRESS cfg0)"
    by (simp add: cfg0_def isAddress_def matchesAddressRegex_def charCodeToBase16_def
        toLowerCase_def toLowerCase_char_def)
  have h5: "pendingBurnAmount (state pendingStore) \<le> maxUint256"
    by (simp add: pendingStore_def maxUint256_def)
  have h6: "executeSeaport world0
     \<lparr> router_req = the (TOKEN_ADDRESS cfg0), valueWei_req = 0,
       calldata_req = Transfer (BURN_ADDRESS cfg0) (pendingBurnAmount (state pendingStore)),
       callValueWei_req = 0 \<rparr> = Inr ''0x7a''"
    "waitForReceipt world0 ''0x7a'' = Inr ()"
    by (simp_all add: world0_def)
  note confirmed = performBuybackAndBurn_resumes_burn [OF h2, of cfg0 world0,
      THEN conjunct2, THEN conjunct2, THEN conjunct2, THEN conjunct2, THEN conjunct2,
      THEN conjunct1, rule_format, of "''0x7a''"]
  show ?thesis
    using confirmed h1 h2 h3 h4 h5 h6
    by (auto simp add: cfg0_def pendingStore_def world0_def)
qed

text \<open>
  C3 as stated fails when the buyback is not fully configured: with a pending burn of 500
  and a token address, but no \<open>WETH_ADDRESS\<close>, the step returns \<open>false\<close> and the burn is
  not attempted.
\<close>

theorem performBuybackAndBurn_counterexample:
  "0 < pendingBurnAmount (state pendingStore) \<and>
   TOKEN_ADDRESS (cfg0\<lparr>WETH_ADDRESS := None\<rparr>) =
     Some ''0x7000000000000000000000000000000000000070'' \<and>
   performBuybackAndBurn world0 (cfg0\<lparr>WETH_ADDRESS := None\<rparr>) pendingStore =
     (Inr False, pendingStore, [])"
  by (simp add: performBuybackAndBurn_def cfg0_def pendingStore_def)

section \<open>Tax collector\<close>

lemma countLog_mono: "soFar \<le> countLog treasuryLower soFar l"
  by (simp add: countLog_def split: option.splits)

lemma foldl_countLog_mono: "soFar \<le> foldl (countLog treasuryLower) soFar logs"
proof (induction logs arbitrary: soFar)
  case Nil
  then show ?case by simp
next
  case (Cons l logs)
  have "soFar \<le> countLog treasuryLower soFar l" by (rule countLog_mono)
  also have "\<dots> \<le> foldl (countLog treasuryLower) (countLog treasuryLower soFar l) logs"
    by (rule Cons.IH)
  finally show ?case by simp
qed

lemma scanLogs_mono:
  "scanLogs w tokenAddress treasuryLower latestBlock cursor soFar = Inr collected \<Longrightarrow>
   soFar \<le> collected"
proof (induction w tokenAddress treasuryLower latestBlock cursor soFar rule: scanLogs.induct)
  case (1 w tokenAddress treasuryLower latestBlock cursor totalCollected)
  show ?case
  proof (cases "cursor \<le> latestBlock")
    case False
    then show ?thesis using "1.prems" by (simp add: scanLogs.simps)
  next
    case True
    let ?to = "if cursor + (MAX_LOG_SPAN - 1) > latestBlock then latestBlock
                 else cursor + (MAX_LOG_SPAN - 1)"
    show ?thesis
    proof (cases "getLogs w tokenAddress cursor ?to")
      case (Inl e)
      then show ?thesis using "1.prems" True by (subst (asm) scanLogs.simps) simp
    next
      case (Inr logs)
      have step: "scanLogs w tokenAddress treasuryLower latestBlock (?to + 1)
                    (foldl (countLog treasuryLower) totalCollected logs) = Inr collected"
        using "1.prems" True Inr by (subst (asm) scanLogs.simps) simp
      have "totalCollected \<le> foldl (countLog treasuryLower) totalCollected logs"
        by (rule foldl_countLog_mono)
      also have "\<dots> \<le> collected"
        using "1.IH" [OF True Inr step] .
      finally show ?thesis .
    qed
  qed
qed

lemma scanLogs_succeeds:
  assumes "\<forall>fromBlock toBlock. \<exists>logs. getLogs w tokenAddress fromBlock toBlock = Inr logs"
  shows "\<exists>collected. scanLogs w tokenAddress treasuryLower latestBlock cursor soFar = Inr collected"
  using assms
proof (induction w tokenAddress treasuryLower latestBlock cursor soFar rule: scanLogs.induct)
  case (1 w tokenAddress treasuryLower latestBlock cursor totalCollected)
  show ?case
  proof (cases "cursor \<le> latestBlock")
    case False
    then show ?thesis by (simp add: scanLogs.simps)
  next
    case True
    let ?to = "if cursor + (MAX_LOG_SPAN - 1) > latestBlock then latestBlock
                 else cursor + (MAX_LOG_SPAN - 1)"
    obtain logs where logs: "getLogs w tokenAddress cursor ?to = Inr logs"
      using "1.prems" by blast
    have "\<exists>collected. scanLogs w tokenAddress treasuryLower latestBlock (?to + 1)
        (foldl (countLog treasuryLower) totalCollected logs) = Inr collected"
      using "1.IH" [OF True logs "1.prems"] .
    then show ?thesis
      using True logs by (subst scanLogs.simps) simp
  qed
qed

lemma lastTaxBlock_never_rewinds:
  "lastTaxBlock (state store) \<le>
   lastTaxBlock (state (fst (snd (collectNewTaxProceeds w cfg store))))"
  by (auto simp add: collectNewTaxProceeds_def save_def Let_def
      split: option.splits sum.splits)

lemma collectNewTaxProceeds_scanned:
  fixes store :: StateStore
  defines "advanced collected head \<equiv>
     (state store)\<lparr>lastTaxBlock := int head,
        commissionPoolWei := commissionPoolWei (state store) + collected\<rparr>"
  assumes "TOKEN_ADDRESS cfg = Some tokenAddress" and "getBlockNumber w = Inr head"
    and "lastTaxBlock (state store) \<noteq> 0" and "lastTaxBlock (state store) < int head"
    and "scanLogs w tokenAddress (toLowerCase (TREASURY_ADDRESS cfg)) (int head)
           (lastTaxBlock (state store) + 1) 0 = Inr collected"
  shows "collectNewTaxProceeds w cfg store =
     (case persistState (db store) (advanced collected head) of
        Inl e \<Rightarrow>
          (Inl e, \<lparr> db = db store, state = advanced collected head \<rparr>,
           [Save (advanced collected head)])
      | Inr d' \<Rightarrow>
          (Inr (0 < collected), \<lparr> db = d', state = advanced collected head \<rparr>,
           [Save (advanced collected head)]))"
proof -
  have nonneg: "0 \<le> collected"
    using assms(6) scanLogs_mono by blast
  show ?thesis
  proof (cases "0 < collected")
    case True
    then show ?thesis
      using assms(2-)
      by (cases store)
         (simp add: collectNewTaxProceeds_def Let_def save_def advanced_def split: sum.splits)
  next
    case False
    then have "collected = 0" using nonneg by simp
    then show ?thesis
      using assms(2-)
      by (cases store)
         (simp add: collectNewTaxProceeds_def Let_def save_def advanced_def split: sum.splits)
  qed
qed

lemma collectNewTaxProceeds_first_run:
  assumes "TOKEN_ADDRESS cfg = Some tokenAddress" and "getBlockNumber w = Inr head"
    and "lastTaxBlock (state store) = 0"
  shows "collectNewTaxProceeds w cfg store =
     (case persistState (db store) ((state store)\<lparr>lastTaxBlock := int head\<rparr>) of
        Inl e \<Rightarrow>
          (Inl e, \<lparr> db = db store, state = (state store)\<lparr>lastTaxBlock := int head\<rparr> \<rparr>,
           [Save ((state store)\<lparr>lastTaxBlock := int head\<rparr>)])
      | Inr d' \<Rightarrow>
          (Inr False, \<lparr> db = d', state = (state store)\<lparr>lastTaxBlock := int head\<rparr> \<rparr>,
           [Save ((state store)\<lparr>lastTaxBlock := int head\<rparr>)]))"
  using assms
  by (cases store) (simp add: collectNewTaxProceeds_def Let_def save_def split: sum.splits)

text \<open>
  C4. \<open>lastTaxBlock\<close> after a call of the tax collector is never below its value before
  the call, whatever the chain answers and whether or not the call throws. When
  \<open>lastTaxBlock\<close> is below the current head and the scan of the blocks in between completes,
  \<open>lastTaxBlock\<close> becomes the head, the sum collected (which is never negative, and 0 when
  no event matched) is added to \<open>commissionPoolWei\<close>, and that one ledger is handed to
  \<open>save\<close>, whether or not anything was collected. The save goes through when the order
  hashes of the listings are distinct, and a read of the database then returns the head as
  \<open>lastTaxBlock\<close> and the increased pool; a save that throws is rethrown. A ledger with
  \<open>lastTaxBlock = 0\<close> is moved to the head and saved without a scan; a scan that throws
  leaves the store as it was, and a scan in which every \<open>getLogs\<close> answers completes.
\<close>

theorem collectNewTaxProceeds_advances:
  fixes store :: StateStore
  defines "advanced collected head \<equiv>
     (state store)\<lparr>lastTaxBlock := int head,
        commissionPoolWei := commissionPoolWei (state store) + collected\<rparr>"
  shows
  "lastTaxBlock (state store) \<le>
     lastTaxBlock (state (fst (snd (collectNewTaxProceeds w cfg store)))) \<and>
   (\<forall>tokenAddress head collected.
      TOKEN_ADDRESS cfg = Some tokenAddress \<and> getBlockNumber w = Inr head \<and>
      lastTaxBlock (state store) \<noteq> 0 \<and> lastTaxBlock (state store) < int head \<and>
      scanLogs w tokenAddress (toLowerCase (TREASURY_ADDRESS cfg)) (int head)
        (lastTaxBlock (state store) + 1) 0 = Inr collected
      \<longrightarrow> 0 \<le> collected \<and>
          state (fst (snd (collectNewTaxProceeds w cfg store))) = advanced collected head \<and>
          snd (snd (collectNewTaxProceeds w cfg store)) = [Save (advanced collected head)] \<and>
          (\<forall>e. persistState (db store) (advanced collected head) = Inl e \<longrightarrow>
             collectNewTaxProceeds w cfg store =
               (Inl e, \<lparr> db = db store, state = advanced collected head \<rparr>,
                [Save (advanced collected head)])) \<and>
          (distinct (map orderHash (activeListings (state store))) \<longrightarrow>
             (\<exists>d'. collectNewTaxProceeds w cfg store =
                     (Inr (0 < collected), \<lparr> db = d', state = advanced collected head \<rparr>,
                      [Save (advanced collected head)]) \<and>
                   readStateFromDatabase d' =
                     Inr (Some ((advanced collected head)
                            \<lparr>version := STATE_VERSION,
                             activeListings :=
                               sort_key listedAtMs (activeListings (state store))\<rparr>))))) \<and>
   (\<forall>tokenAddress head.
      TOKEN_ADDRESS cfg = Some tokenAddress \<and> getBlockNumber w = Inr head \<and>
      lastTaxBlock (state store) = 0
      \<longrightarrow> state (fst (snd (collectNewTaxProceeds w cfg store))) = ((state store)\<lparr>lastTaxBlock := int head\<rparr>) \<and>
          snd (snd (collectNewTaxProceeds w cfg store)) = [Save (((state store)\<lparr>lastTaxBlock := int head\<rparr>))] \<and>
          (distinct (map orderHash (activeListings (state store))) \<longrightarrow>
             (\<exists>d'. collectNewTaxProceeds w cfg store =
                     (Inr False, \<lparr> db = d', state = ((state store)\<lparr>lastTaxBlock := int head\<rparr>) \<rparr>,
                      [Save (((state store)\<lparr>lastTaxBlock := int head\<rparr>))]) \<and>
                   readStateFromDatabase d' =
                     Inr (Some ((((state store)\<lparr>lastTaxBlock := int head\<rparr>))
                            \<lparr>version := STATE_VERSION,
                             activeListings :=
                               sort_key listedAtMs (activeListings (state store))\<rparr>))))) \<and>
   (\<forall>tokenAddress head e.
      TOKEN_ADDRESS cfg = Some tokenAddress \<and> getBlockNumber w = Inr head \<and>
      lastTaxBlock (state store) \<noteq> 0 \<and> lastTaxBlock (state store) < int head \<and>
      scanLogs w tokenAddress (toLowerCase (TREASURY_ADDRESS cfg)) (int head)
        (lastTaxBlock (state store) + 1) 0 = Inl e
      \<longrightarrow> collectNewTaxProceeds w cfg store = (Inl e, store, [])) \<and>
   (\<forall>tokenAddress latestBlock cursor.
      (\<forall>fromBlock toBlock. \<exists>logs. getLogs w tokenAddress fromBlock toBlock = Inr logs)
      \<longrightarrow> (\<exists>collected. scanLogs w tokenAddress (toLowerCase (TREASURY_ADDRESS cfg))
             latestBlock cursor 0 = Inr collected))"
proof -
  have run: "collectNewTaxProceeds w cfg store =
     (case persistState (db store) (advanced collected head) of
        Inl e \<Rightarrow>
          (Inl e, \<lparr> db = db store, state = advanced collected head \<rparr>,
           [Save (advanced collected head)])
      | Inr d' \<Rightarrow>
          (Inr (0 < collected), \<lparr> db = d', state = advanced collected head \<rparr>,
           [Save (advanced collected head)]))"
    if "TOKEN_ADDRESS cfg = Some tokenAddress \<and> getBlockNumber w = Inr head \<and>
      lastTaxBlock (state store) \<noteq> 0 \<and> lastTaxBlock (state store) < int head \<and>
      scanLogs w tokenAddress (toLowerCase (TREASURY_ADDRESS cfg)) (int head)
        (lastTaxBlock (state store) + 1) 0 = Inr collected"
    for tokenAddress head collected
    using that collectNewTaxProceeds_scanned [of cfg tokenAddress w head store collected]
    unfolding advanced_def by simp
  have first: "collectNewTaxProceeds w cfg store =
     (case persistState (db store) (((state store)\<lparr>lastTaxBlock := int head\<rparr>)) of
        Inl e \<Rightarrow>
          (Inl e, \<lparr> db = db store, state = ((state store)\<lparr>lastTaxBlock := int head\<rparr>) \<rparr>, [Save (((state store)\<lparr>lastTaxBlock := int head\<rparr>))])
      | Inr d' \<Rightarrow>
          (Inr False, \<lparr> db = d', state = ((state store)\<lparr>lastTaxBlock := int head\<rparr>) \<rparr>, [Save (((state store)\<lparr>lastTaxBlock := int head\<rparr>))]))"
    if "TOKEN_ADDRESS cfg = Some tokenAddress \<and> getBlockNumber w = Inr head \<and>
      lastTaxBlock (state store) = 0"
    for tokenAddress head
    using that collectNewTaxProceeds_first_run [of cfg tokenAddress w head store]
    by simp
  have durable: "\<exists>d'. persistState (db store) st = Inr d' \<and>
      readStateFromDatabase d' =
        Inr (Some (st\<lparr>version := STATE_VERSION,
                       activeListings := sort_key listedAtMs (activeListings (state store))\<rparr>))"
    if "distinct (map orderHash (activeListings (state store)))"
      and "activeListings st = activeListings (state store)" for st
  proof -
    have "distinct (map orderHash (activeListings st))"
      using that by simp
    then obtain d' where d': "persistState (db store) st = Inr d'"
      using persistState_distinct by blast
    from read_after_persist [OF d'] d' that(2) show ?thesis
      by simp
  qed
  show ?thesis
  proof (intro conjI allI impI, goal_cases)
    case 1
    show ?case by (rule lastTaxBlock_never_rewinds)
  next
    case (2 tokenAddress head collected)
    then show ?case using scanLogs_mono by blast
  next
    case (3 tokenAddress head collected)
    from run [OF this] show ?case by (simp split: sum.splits)
  next
    case (4 tokenAddress head collected)
    from run [OF this] show ?case by (simp split: sum.splits)
  next
    case (5 tokenAddress head collected e)
    from run [OF 5(1)] 5(2) show ?case by simp
  next
    case (6 tokenAddress head collected)
    have "activeListings (advanced collected head) = activeListings (state store)"
      by (simp add: advanced_def)
    from durable [OF 6(2) this] run [OF 6(1)] show ?case by auto
  next
    case (7 tokenAddress head)
    from first [OF this] show ?case by (simp split: sum.splits)
  next
    case (8 tokenAddress head)
    from first [OF this] show ?case by (simp split: sum.splits)
  next
    case (9 tokenAddress head)
    have "activeListings ((state store)\<lparr>lastTaxBlock := int head\<rparr>) =
        activeListings (state store)"
      by simp
    from durable [OF 9(2) this] first [OF 9(1)] show ?case by auto
  next
    case (10 tokenAddress head e)
    then show ?case by (simp add: collectNewTaxProceeds_def Let_def)
  next
    case (11 tokenAddress latestBlock cursor)
    then show ?case by (intro scanLogs_succeeds)
  qed
qed

theorem collectNewTaxProceeds_advances_witness:
  "TOKEN_ADDRESS cfg0 = Some ''0x7000000000000000000000000000000000000070'' \<and>
   getBlockNumber world0 = Inr 15 \<and>
   lastTaxBlock (state taxStore) \<noteq> 0 \<and> lastTaxBlock (state taxStore) < int 15 \<and>
   scanLogs world0 ''0x7000000000000000000000000000000000000070''
     (toLowerCase (TREASURY_ADDRESS cfg0)) (int 15) (lastTaxBlock (state taxStore) + 1) 0 =
     Inr 500 \<and>
   distinct (map orderHash (activeListings (state taxStore))) \<and>
   (\<exists>d'. collectNewTaxProceeds world0 cfg0 taxStore =
      (Inr True,
       \<lparr> db = d',
         state = \<lparr> version = 3, commissionPoolWei = 1500, salePoolWei = 0,
                   pendingBurnAmount = 0, pendingBurnCostWei = 0, activeListings = [],
                   lastTaxBlock = 15 \<rparr> \<rparr>,
       [Save \<lparr> version = 3, commissionPoolWei = 1500, salePoolWei = 0, pendingBurnAmount = 0,
               pendingBurnCostWei = 0, activeListings = [], lastTaxBlock = 15 \<rparr>]) \<and>
      readStateFromDatabase d' =
        Inr (Some \<lparr> version = 3, commissionPoolWei = 1500, salePoolWei = 0,
                    pendingBurnAmount = 0, pendingBurnCostWei = 0, activeListings = [],
                    lastTaxBlock = 15 \<rparr>))"
proof -
  have h1: "TOKEN_ADDRESS cfg0 = Some ''0x7000000000000000000000000000000000000070''"
    by (simp add: cfg0_def)
  have h2: "getBlockNumber world0 = Inr 15" by (simp add: world0_def)
  have h3: "lastTaxBlock (state taxStore) \<noteq> 0" "lastTaxBlock (state taxStore) < int 15"
    by (simp_all add: taxStore_def)
  have h4: "scanLogs world0 ''0x7000000000000000000000000000000000000070''
     (toLowerCase (TREASURY_ADDRESS cfg0)) (int 15) (lastTaxBlock (state taxStore) + 1) 0 =
     Inr 500"
    by code_simp
  have h5: "distinct (map orderHash (activeListings (state taxStore)))"
    by (simp add: taxStore_def)
  note scanned = collectNewTaxProceeds_advances [of taxStore world0 cfg0, THEN conjunct2,
        THEN conjunct1, rule_format,
        of "''0x7000000000000000000000000000000000000070''" 15 500]
  show ?thesis
    using scanned h1 h2 h3 h4 h5 by (auto simp add: taxStore_def STATE_VERSION_def)
qed

section \<open>Listing reconciler\<close>

lemma reconcile_loop_eq:
  "reconcile_loop w cfg ls updated checked proceeds =
     (updated @ filter (\<lambda>l. \<not> saleDetected w cfg l)
                  (take (MAX_LISTING_CHECKS_PER_TICK cfg - checked) ls) @
        drop (MAX_LISTING_CHECKS_PER_TICK cfg - checked) ls,
      checked + min (MAX_LISTING_CHECKS_PER_TICK cfg - checked) (length ls),
      proceeds + sum_list (map expectedProceedsWei
        (filter (saleDetected w cfg) (take (MAX_LISTING_CHECKS_PER_TICK cfg - checked) ls))))"
proof (induction ls arbitrary: updated checked proceeds)
  case Nil
  then show ?case by simp
next
  case (Cons l ls)
  show ?case
  proof (cases "checked \<ge> MAX_LISTING_CHECKS_PER_TICK cfg")
    case True
    then show ?thesis by (simp add: Cons.IH)
  next
    case False
    then have s: "MAX_LISTING_CHECKS_PER_TICK cfg - checked =
        Suc (MAX_LISTING_CHECKS_PER_TICK cfg - (checked + 1))"
      by simp
    show ?thesis
      using False by (simp add: Cons.IH s del: One_nat_def)
  qed
qed

lemma reconcileListings_state:
  "state (fst (snd (reconcileListings w cfg store))) =
     (state store)
       \<lparr>activeListings :=
          filter (\<lambda>l. \<not> saleDetected w cfg l)
            (take (MAX_LISTING_CHECKS_PER_TICK cfg) (activeListings (state store))) @
          drop (MAX_LISTING_CHECKS_PER_TICK cfg) (activeListings (state store)),
        salePoolWei := salePoolWei (state store) +
          max 0 (sum_list (map expectedProceedsWei (filter (saleDetected w cfg)
            (take (MAX_LISTING_CHECKS_PER_TICK cfg) (activeListings (state store))))))\<rparr>"
  by (cases store)
     (auto simp add: reconcileListings_def reconcile_loop_eq Let_def save_def max_def
        split: sum.splits)

lemma reconcileListings_no_save:
  "sum_list (map expectedProceedsWei (filter (saleDetected w cfg)
      (take (MAX_LISTING_CHECKS_PER_TICK cfg) (activeListings (state store))))) \<le> 0 \<Longrightarrow>
   db (fst (snd (reconcileListings w cfg store))) = db store \<and>
   snd (snd (reconcileListings w cfg store)) = []"
  by (cases store)
     (auto simp add: reconcileListings_def reconcile_loop_eq Let_def save_def
        split: sum.splits)

lemma reconcileListings_save:
  "0 < sum_list (map expectedProceedsWei (filter (saleDetected w cfg)
      (take (MAX_LISTING_CHECKS_PER_TICK cfg) (activeListings (state store))))) \<Longrightarrow>
   snd (snd (reconcileListings w cfg store)) =
     [Save (state (fst (snd (reconcileListings w cfg store))))]"
  by (cases store)
     (auto simp add: reconcileListings_def reconcile_loop_eq Let_def save_def
        split: sum.splits)

lemma reconcileListings_saved_db:
  assumes "0 < sum_list (map expectedProceedsWei (filter (saleDetected w cfg)
      (take (MAX_LISTING_CHECKS_PER_TICK cfg) (activeListings (state store)))))"
    and "persistState (db store) (state (fst (snd (reconcileListings w cfg store)))) = Inr d'"
  shows "db (fst (snd (reconcileListings w cfg store))) = d'"
proof -
  define updated where "updated =
    (state store)
       \<lparr>activeListings :=
          filter (\<lambda>l. \<not> saleDetected w cfg l)
            (take (MAX_LISTING_CHECKS_PER_TICK cfg) (activeListings (state store))) @
          drop (MAX_LISTING_CHECKS_PER_TICK cfg) (activeListings (state store)),
        salePoolWei := salePoolWei (state store) +
          sum_list (map expectedProceedsWei (filter (saleDetected w cfg)
            (take (MAX_LISTING_CHECKS_PER_TICK cfg) (activeListings (state store)))))\<rparr>"
  have "state (fst (snd (reconcileListings w cfg store))) = updated"
    using assms(1) by (simp add: reconcileListings_state updated_def)
  then have saved: "persistState (db store) updated = Inr d'"
    using assms(2) by simp
  have "activeListings (state store) \<noteq> []"
    using assms(1) by auto
  then show ?thesis
    using assms(1) saved
    by (cases store)
       (simp add: reconcileListings_def reconcile_loop_eq Let_def save_def updated_def)
qed

text \<open>What \<open>BigInt\<close> makes of some texts.\<close>

lemma BigInt_literals:
  "BigInt ''15732'' = Inr 15732 \<and> BigInt ''0x10'' = Inr 16 \<and> BigInt '' 12 '' = Inr 12 \<and>
   BigInt [] = Inr 0 \<and> BigInt ''007'' = Inr 7 \<and> BigInt ''-5'' = Inr (- 5) \<and>
   BigInt ''+5'' = Inr 5 \<and> BigInt ''0b101'' = Inr 5 \<and> BigInt ''0O17'' = Inr 15 \<and>
   BigInt ''0XfF'' = Inr 255 \<and> BigInt [CHR 0x0A, CHR ''7'', CHR 0xA0] = Inr 7 \<and>
   BigInt ''-0x10'' = Inl (SyntaxError ''-0x10'') \<and> BigInt ''0x'' = Inl (SyntaxError ''0x'') \<and>
   BigInt ''1 2'' = Inl (SyntaxError ''1 2'') \<and> BigInt ''- 5'' = Inl (SyntaxError ''- 5'') \<and>
   BigInt ''0b2'' = Inl (SyntaxError ''0b2'') \<and> BigInt ''1e3'' = Inl (SyntaxError ''1e3'') \<and>
   BigInt ''-'' = Inl (SyntaxError ''-'') \<and> BigInt ''12n'' = Inl (SyntaxError ''12n'')"
  by code_simp

lemma saleDetected_erc721:
  "tokenStandard l = erc721 \<Longrightarrow>
   saleDetected w cfg l =
     (\<exists>tid currentOwner. BigInt (tokenId l) = Inr tid \<and>
        readOwnerOf w (collection l) tid = Inr (Str currentOwner) \<and>
        toLowerCase currentOwner \<noteq> toLowerCase (TREASURY_ADDRESS cfg))"
  by (auto simp add: saleDetected_def split: sum.splits rpc_value.splits)

lemma saleDetected_read_throws:
  "BigInt (tokenId l) = Inr tid \<Longrightarrow>
   (tokenStandard l = erc721 \<and> readOwnerOf w (collection l) tid = Inl e) \<or>
   (tokenStandard l = erc1155 \<and>
      readBalanceOf w (collection l) (TREASURY_ADDRESS cfg) tid = Inl e) \<Longrightarrow>
   \<not> saleDetected w cfg l"
  by (auto simp add: saleDetected_def)

text \<open>
  C5. After \<open>reconcileListings\<close> the active listings are the checked ones (the first
  \<open>MAX_LISTING_CHECKS_PER_TICK\<close>) for which no sale was detected, in their order, followed
  by the listings beyond the cap, unchanged. For a single-owner listing a sale is detected
  exactly when the owner read succeeds and the owner is not the treasury; a read that throws
  is never a detected sale, so that listing is retained as it is and adds nothing to the pool.
  The sale pool grows by the expected proceeds of the listings removed, each counted once
  (proceeds are not negative); no other field of the ledger changes.
\<close>

theorem reconcileListings_safety:
  "activeListings (state (fst (snd (reconcileListings w cfg store)))) =
     filter (\<lambda>l. \<not> saleDetected w cfg l)
       (take (MAX_LISTING_CHECKS_PER_TICK cfg) (activeListings (state store))) @
     drop (MAX_LISTING_CHECKS_PER_TICK cfg) (activeListings (state store)) \<and>
   salePoolWei (state (fst (snd (reconcileListings w cfg store)))) =
     salePoolWei (state store) +
       max 0 (sum_list (map expectedProceedsWei (filter (saleDetected w cfg)
         (take (MAX_LISTING_CHECKS_PER_TICK cfg) (activeListings (state store)))))) \<and>
   ((\<forall>l \<in> set (activeListings (state store)). 0 \<le> expectedProceedsWei l) \<longrightarrow>
      salePoolWei (state (fst (snd (reconcileListings w cfg store)))) =
        salePoolWei (state store) +
          sum_list (map expectedProceedsWei (filter (saleDetected w cfg)
            (take (MAX_LISTING_CHECKS_PER_TICK cfg) (activeListings (state store)))))) \<and>
   (\<forall>l. tokenStandard l = erc721 \<longrightarrow>
      saleDetected w cfg l =
        (\<exists>tid currentOwner. BigInt (tokenId l) = Inr tid \<and>
           readOwnerOf w (collection l) tid = Inr (Str currentOwner) \<and>
           toLowerCase currentOwner \<noteq> toLowerCase (TREASURY_ADDRESS cfg))) \<and>
   (\<forall>l tid e. BigInt (tokenId l) = Inr tid \<and>
      ((tokenStandard l = erc721 \<and> readOwnerOf w (collection l) tid = Inl e) \<or>
       (tokenStandard l = erc1155 \<and>
          readBalanceOf w (collection l) (TREASURY_ADDRESS cfg) tid = Inl e))
      \<longrightarrow> \<not> saleDetected w cfg l) \<and>
   commissionPoolWei (state (fst (snd (reconcileListings w cfg store)))) =
     commissionPoolWei (state store) \<and>
   pendingBurnAmount (state (fst (snd (reconcileListings w cfg store)))) =
     pendingBurnAmount (state store) \<and>
   pendingBurnCostWei (state (fst (snd (reconcileListings w cfg store)))) =
     pendingBurnCostWei (state store) \<and>
   lastTaxBlock (state (fst (snd (reconcileListings w cfg store)))) = lastTaxBlock (state store)"
proof -
  let ?sold = "filter (saleDetected w cfg)
         (take (MAX_LISTING_CHECKS_PER_TICK cfg) (activeListings (state store)))"
  have nonneg: "0 \<le> sum_list (map expectedProceedsWei ?sold)"
    if "\<forall>l \<in> set (activeListings (state store)). 0 \<le> expectedProceedsWei l"
    by (rule sum_list_nonneg) (use that in \<open>auto dest: in_set_takeD\<close>)
  show ?thesis
    using nonneg saleDetected_erc721 [of _ w cfg] saleDetected_read_throws [of _ _ w _ cfg]
    by (simp add: reconcileListings_state) blast
qed

theorem reconcileListings_safety_witness:
  "tokenStandard listingA = erc721 \<and> BigInt (tokenId listingA) = Inr 15732 \<and>
   readOwnerOf world0 (collection listingA) 15732 = Inr (Str ''0xB0b'') \<and>
   toLowerCase ''0xB0b'' \<noteq> toLowerCase (TREASURY_ADDRESS cfg0) \<and>
   saleDetected world0 cfg0 listingA \<and>
   0 \<le> expectedProceedsWei listingA \<and>
   activeListings (state listedStore) = [listingA] \<and>
   activeListings (state (fst (snd (reconcileListings world0 cfg0 listedStore)))) = [] \<and>
   salePoolWei (state (fst (snd (reconcileListings world0 cfg0 listedStore)))) = 1300 \<and>
   readOwnerOf worldReadFails (collection listingA) 15732 = Inl (Error ''execution reverted'') \<and>
   \<not> saleDetected worldReadFails cfg0 listingA \<and>
   activeListings (state (fst (snd (reconcileListings worldReadFails cfg0 listedStore)))) =
     [listingA] \<and>
   salePoolWei (state (fst (snd (reconcileListings worldReadFails cfg0 listedStore)))) = 0 \<and>
   tokenStandard listingHex = erc721 \<and> BigInt (tokenId listingHex) = Inr 16 \<and>
   readOwnerOf worldToken16 (collection listingHex) 16 = Inr (Str ''0xB0b'') \<and>
   saleDetected worldToken16 cfg0 listingHex"
proof -
  have x: "tokenStandard listingHex = erc721" by (simp add: listingHex_def listingA_def)
  have y: "BigInt (tokenId listingHex) = Inr 16" by code_simp
  have z: "readOwnerOf worldToken16 (collection listingHex) 16 = Inr (Str ''0xB0b'')"
    by (simp add: worldToken16_def)
  have a: "tokenStandard listingA = erc721" by (simp add: listingA_def)
  have b: "BigInt (tokenId listingA) = Inr 15732" by code_simp
  have c: "readOwnerOf world0 (collection listingA) 15732 = Inr (Str ''0xB0b'')"
    by (simp add: world0_def)
  have d: "toLowerCase ''0xB0b'' \<noteq> toLowerCase (TREASURY_ADDRESS cfg0)" by code_simp
  have e: "readOwnerOf worldReadFails (collection listingA) 15732 =
      Inl (Error ''execution reverted'')"
    by (simp add: worldReadFails_def)
  have ls: "activeListings (state listedStore) = [listingA]"
    by (simp add: listedStore_def savedStore_def split: sum.splits)
  have pool: "salePoolWei (state listedStore) = 0"
    by (simp add: listedStore_def savedStore_def split: sum.splits)
  have cap: "MAX_LISTING_CHECKS_PER_TICK cfg0 = 3" by (simp add: cfg0_def)
  have p: "expectedProceedsWei listingA = 1300" by (simp add: listingA_def)
  note thm1 = reconcileListings_safety [of world0 cfg0 listedStore]
  note thm2 = reconcileListings_safety [of worldReadFails cfg0 listedStore]
  have s1: "saleDetected world0 cfg0 listingA"
    using thm1 a b c d by blast
  have s2: "\<not> saleDetected worldReadFails cfg0 listingA"
    using thm2 a b e by blast
  have s3: "saleDetected worldToken16 cfg0 listingHex"
    using reconcileListings_safety [of worldToken16 cfg0 listedStore] x y z d by blast
  show ?thesis
    using thm1 thm2 a b c d e s1 s2 s3 x y z by (simp add: ls pool cap p)
qed

text \<open>
  C10, as amended. \<open>reconcileListings\<close> calls \<open>save\<close> exactly when the proceeds
  captured in the tick are strictly positive. When a checked listing with expected proceeds
  0 is detected as sold and the tick captures nothing positive, the listing leaves the
  in-memory list, nothing is saved and the database is the one before the call: a \<open>load\<close>
  after a restart returns the last saved ledger, and the listing is active again if that
  ledger lists what was in memory before the tick. When the sales of the same tick capture
  a positive amount, the one save writes the whole updated list: the removal of every sold
  listing, also of one with expected proceeds 0, is then in the database and a \<open>load\<close>
  returns a ledger without it.
\<close>

theorem reconcileListings_zero_proceeds_not_durable:
  fixes w :: world and cfg :: config and store :: StateStore
  defines "checkedListings \<equiv>
     take (MAX_LISTING_CHECKS_PER_TICK cfg) (activeListings (state store))"
  defines "captured \<equiv>
     sum_list (map expectedProceedsWei (filter (saleDetected w cfg) checkedListings))"
  defines "after \<equiv> fst (snd (reconcileListings w cfg store))"
  shows
  "((\<exists>st. Save st \<in> set (snd (snd (reconcileListings w cfg store)))) \<longleftrightarrow> 0 < captured) \<and>
   (\<forall>l snapshot dbAlreadyExists legacy initialBlock.
      l \<in> set checkedListings \<and> saleDetected w cfg l \<and> expectedProceedsWei l = 0 \<and>
      captured \<le> 0 \<and>
      distinct (map orderHash (activeListings (state store))) \<and>
      readStateFromDatabase (db store) = Inr (Some snapshot)
      \<longrightarrow> snd (snd (reconcileListings w cfg store)) = [] \<and>
          db after = db store \<and>
          l \<notin> set (activeListings (state after)) \<and>
          load dbAlreadyExists (db after) legacy initialBlock =
            Inr \<lparr> db = db store, state = snapshot \<rparr> \<and>
          (set (activeListings snapshot) = set (activeListings (state store))
             \<longrightarrow> l \<in> set (activeListings snapshot))) \<and>
   (\<forall>l dbAlreadyExists legacy initialBlock.
      l \<in> set checkedListings \<and> saleDetected w cfg l \<and> 0 < captured \<and>
      distinct (map orderHash (activeListings (state store)))
      \<longrightarrow> snd (snd (reconcileListings w cfg store)) = [Save (state after)] \<and>
          l \<notin> set (activeListings (state after)) \<and>
          (\<exists>loaded.
             load dbAlreadyExists (db after) legacy initialBlock =
               Inr \<lparr> db = db after, state = loaded \<rparr> \<and>
             l \<notin> set (activeListings loaded) \<and>
             salePoolWei loaded = salePoolWei (state store) + captured))"
proof -
  let ?ls = "activeListings (state store)"
  let ?n = "MAX_LISTING_CHECKS_PER_TICK cfg"
  let ?remaining = "filter (\<lambda>l. \<not> saleDetected w cfg l) (take ?n ?ls) @ drop ?n ?ls"
  have st: "state after =
      (state store)\<lparr>activeListings := ?remaining,
         salePoolWei := salePoolWei (state store) + max 0 captured\<rparr>"
    by (simp add: after_def captured_def checkedListings_def reconcileListings_state)
  have gone: "l \<notin> set (activeListings (state after))"
    if "l \<in> set checkedListings" "saleDetected w cfg l"
      "distinct (map orderHash ?ls)" for l
  proof -
    have "distinct (take ?n ?ls @ drop ?n ?ls)"
      using that(3) by (simp add: distinct_map)
    then have "l \<notin> set (drop ?n ?ls)"
      using that(1) by (simp add: checkedListings_def del: append_take_drop_id) blast
    then show ?thesis
      using that(2) by (simp add: st)
  qed
  have saves: "(\<exists>st. Save st \<in> set (snd (snd (reconcileListings w cfg store)))) \<longleftrightarrow> 0 < captured"
  proof (cases "0 < captured")
    case True
    then show ?thesis
      using reconcileListings_save [of w cfg store]
      by (simp add: captured_def checkedListings_def)
  next
    case False
    then show ?thesis
      using reconcileListings_no_save [of w cfg store]
      by (simp add: captured_def checkedListings_def)
  qed
  have lost: "snd (snd (reconcileListings w cfg store)) = [] \<and>
          db after = db store \<and>
          l \<notin> set (activeListings (state after)) \<and>
          load dbAlreadyExists (db after) legacy initialBlock =
            Inr \<lparr> db = db store, state = snapshot \<rparr> \<and>
          (set (activeListings snapshot) = set (activeListings (state store))
             \<longrightarrow> l \<in> set (activeListings snapshot))"
    if h: "l \<in> set checkedListings \<and> saleDetected w cfg l \<and> expectedProceedsWei l = 0 \<and>
      captured \<le> 0 \<and>
      distinct (map orderHash (activeListings (state store))) \<and>
      readStateFromDatabase (db store) = Inr (Some snapshot)"
    for l snapshot dbAlreadyExists legacy initialBlock
  proof -
    have ns: "db after = db store" "snd (snd (reconcileListings w cfg store)) = []"
      using h reconcileListings_no_save [of w cfg store]
      by (simp_all add: captured_def checkedListings_def after_def)
    have "l \<in> set ?ls"
      using h by (auto simp add: checkedListings_def dest: in_set_takeD)
    then show ?thesis
      using h ns gone [of l] by (simp add: load_def)
  qed
  have kept: "snd (snd (reconcileListings w cfg store)) = [Save (state after)] \<and>
          l \<notin> set (activeListings (state after)) \<and>
          (\<exists>loaded.
             load dbAlreadyExists (db after) legacy initialBlock =
               Inr \<lparr> db = db after, state = loaded \<rparr> \<and>
             l \<notin> set (activeListings loaded) \<and>
             salePoolWei loaded = salePoolWei (state store) + captured)"
    if h: "l \<in> set checkedListings \<and> saleDetected w cfg l \<and> 0 < captured \<and>
      distinct (map orderHash (activeListings (state store)))"
    for l dbAlreadyExists legacy initialBlock
  proof -
    have ev: "snd (snd (reconcileListings w cfg store)) = [Save (state after)]"
      using h reconcileListings_save [of w cfg store]
      by (simp add: captured_def checkedListings_def after_def)
    have out: "l \<notin> set (activeListings (state after))"
      using h gone [of l] by simp
    have "distinct (map orderHash ?remaining)"
    proof -
      have "distinct (map orderHash (take ?n ?ls @ drop ?n ?ls))"
        using h by simp
      then show ?thesis
        unfolding map_append distinct_append
        by (auto simp add: distinct_map_filter dest: in_set_takeD)
    qed
    then have "distinct (map orderHash (activeListings (state after)))"
      by (simp add: st)
    then obtain d' where d': "persistState (db store) (state after) = Inr d'"
      using persistState_distinct by blast
    have dbafter: "db after = d'"
      using h d' reconcileListings_saved_db [of w cfg store]
      by (simp add: captured_def checkedListings_def after_def)
    from read_after_persist [OF d'] have
      rd: "readStateFromDatabase (db after) =
        Inr (Some ((state after)\<lparr>version := STATE_VERSION,
               activeListings := sort_key listedAtMs (activeListings (state after))\<rparr>))"
      by (simp add: dbafter)
    have "salePoolWei (state after) = salePoolWei (state store) + captured"
      using h by (simp add: st)
    then show ?thesis
      using ev out rd by (simp add: load_def)
  qed
  show ?thesis
    using saves lost kept by blast
qed

theorem reconcileListings_zero_proceeds_not_durable_witness:
  "listingZero \<in> set (take (MAX_LISTING_CHECKS_PER_TICK cfg0) (activeListings (state zeroStore))) \<and>
   saleDetected world0 cfg0 listingZero \<and> expectedProceedsWei listingZero = 0 \<and>
   sum_list (map expectedProceedsWei (filter (saleDetected world0 cfg0)
     (take (MAX_LISTING_CHECKS_PER_TICK cfg0) (activeListings (state zeroStore))))) \<le> 0 \<and>
   distinct (map orderHash (activeListings (state zeroStore))) \<and>
   readStateFromDatabase (db zeroStore) = Inr (Some (state zeroStore)) \<and>
   snd (snd (reconcileListings world0 cfg0 zeroStore)) = [] \<and>
   db (fst (snd (reconcileListings world0 cfg0 zeroStore))) = db zeroStore \<and>
   listingZero \<notin> set (activeListings (state (fst (snd (reconcileListings world0 cfg0 zeroStore))))) \<and>
   load True (db (fst (snd (reconcileListings world0 cfg0 zeroStore)))) (Inr None) 15
     = Inr \<lparr> db = db zeroStore, state = state zeroStore \<rparr> \<and>
   listingZero \<in> set (activeListings (state zeroStore))"
proof -
  have ls: "activeListings (state zeroStore) = [listingZero]"
    by (simp add: zeroStore_def savedStore_def split: sum.splits)
  have cap: "MAX_LISTING_CHECKS_PER_TICK cfg0 = 3" by (simp add: cfg0_def)
  have h1: "listingZero \<in> set (take (MAX_LISTING_CHECKS_PER_TICK cfg0)
      (activeListings (state zeroStore)))"
    by (simp add: ls cap)
  have h2: "saleDetected world0 cfg0 listingZero" by code_simp
  have h3: "expectedProceedsWei listingZero = 0" by (simp add: listingZero_def)
  have h4: "sum_list (map expectedProceedsWei (filter (saleDetected world0 cfg0)
     (take (MAX_LISTING_CHECKS_PER_TICK cfg0) (activeListings (state zeroStore))))) \<le> 0"
    by (simp add: ls cap h2 h3)
  have h5: "distinct (map orderHash (activeListings (state zeroStore)))" by (simp add: ls)
  have h6: "readStateFromDatabase (db zeroStore) = Inr (Some (state zeroStore))" by code_simp
  note lost = reconcileListings_zero_proceeds_not_durable [of world0 cfg0 zeroStore,
      THEN conjunct2, THEN conjunct1, rule_format,
      of listingZero "state zeroStore" True "Inr None" 15]
  show ?thesis
    using lost h1 h2 h3 h4 h5 h6 by blast
qed

text \<open>
  C10 as stated fails when another listing is sold for a positive amount in the same tick:
  \<open>listingZero\<close> (expected proceeds 0) and \<open>listingA\<close> (1300) are both detected as sold,
  the ledger without both is saved, and a load after a restart returns no active listing.
\<close>

theorem reconcileListings_zero_proceeds_counterexample:
  "listingZero \<in> set (take (MAX_LISTING_CHECKS_PER_TICK cfg0) (activeListings (state mixedStore))) \<and>
   saleDetected world0 cfg0 listingZero \<and> expectedProceedsWei listingZero = 0 \<and>
   snd (snd (reconcileListings world0 cfg0 mixedStore)) =
     [Save \<lparr> version = 3, commissionPoolWei = 300, salePoolWei = 1300, pendingBurnAmount = 0,
             pendingBurnCostWei = 0, activeListings = [], lastTaxBlock = 15 \<rparr>] \<and>
   map_sum id state
     (load True (db (fst (snd (reconcileListings world0 cfg0 mixedStore)))) (Inr None) 15) =
     Inr \<lparr> version = 3, commissionPoolWei = 300, salePoolWei = 1300, pendingBurnAmount = 0,
           pendingBurnCostWei = 0, activeListings = [], lastTaxBlock = 15 \<rparr>"
  by code_simp

section \<open>Transaction submitter: the nonce cache\<close>

lemma acquire_cached:
  "cachedNonce s = Some n \<Longrightarrow> acquireNextNonce s transactionCount = (Inr n, s)"
  by (simp add: acquireNextNonce_def)

lemma acquire_result:
  "acquireNextNonce s transactionCount = (Inr nonce, s1) \<Longrightarrow> s1 = \<lparr> cachedNonce = Some nonce \<rparr>"
  by (cases s) (auto simp add: acquireNextNonce_def split: option.splits sum.splits)

lemma stale_is_underpriced:
  "includesText message ''nonce too low'' \<Longrightarrow> isUnderpriced message"
  by (simp add: isUnderpriced_def)

text \<open>The three ways a submission succeeds, and the cache each leaves.\<close>

lemma write_success_first:
  assumes "acquireNextNonce s transactionCount = (Inr nonce, s1)"
    and "attempt nonce 100 = Inr hash"
  shows "writeContractWithAdaptiveFees transactionCount attempt s =
     (Inr hash, \<lparr> cachedNonce = Some (nonce + 1) \<rparr>)"
  using assms acquire_result [OF assms(1)]
  by (simp add: writeContractWithAdaptiveFees_def FEE_MULTIPLIERS_def incrementNonce_def)

lemma write_success_second:
  assumes "acquireNextNonce s transactionCount = (Inr nonce, s1)"
    and "attempt nonce 100 = Inl e1" and "isUnderpriced (errorMessage e1)"
    and "attempt nonce 120 = Inr hash"
  shows "writeContractWithAdaptiveFees transactionCount attempt s =
     (Inr hash,
      \<lparr> cachedNonce = (if includesText (errorMessage e1) ''nonce too low'' then None
                        else Some (nonce + 1)) \<rparr>)"
  using assms acquire_result [OF assms(1)]
  by (simp add: writeContractWithAdaptiveFees_def FEE_MULTIPLIERS_def incrementNonce_def
      resetNonceCache_def)

lemma write_success_third:
  assumes "acquireNextNonce s transactionCount = (Inr nonce, s1)"
    and "attempt nonce 100 = Inl e1" and "isUnderpriced (errorMessage e1)"
    and "attempt nonce 120 = Inl e2" and "isUnderpriced (errorMessage e2)"
    and "attempt nonce 140 = Inr hash"
  shows "writeContractWithAdaptiveFees transactionCount attempt s =
     (Inr hash,
      \<lparr> cachedNonce = (if includesText (errorMessage e1) ''nonce too low'' \<or>
                           includesText (errorMessage e2) ''nonce too low'' then None
                        else Some (nonce + 1)) \<rparr>)"
  using assms acquire_result [OF assms(1)]
  by (simp add: writeContractWithAdaptiveFees_def FEE_MULTIPLIERS_def incrementNonce_def
      resetNonceCache_def)

text \<open>The errors that end a submission, and the cache each leaves.\<close>

lemma write_error_first:
  assumes "acquireNextNonce s transactionCount = (Inr nonce, s1)"
    and "attempt nonce 100 = Inl e1" and "\<not> isUnderpriced (errorMessage e1)"
  shows "writeContractWithAdaptiveFees transactionCount attempt s =
     (Inl e1, \<lparr> cachedNonce = Some nonce \<rparr>)"
  using assms acquire_result [OF assms(1)]
  by (simp add: writeContractWithAdaptiveFees_def FEE_MULTIPLIERS_def)

lemma write_error_second:
  assumes "acquireNextNonce s transactionCount = (Inr nonce, s1)"
    and "attempt nonce 100 = Inl e1" and "isUnderpriced (errorMessage e1)"
    and "attempt nonce 120 = Inl e2" and "\<not> isUnderpriced (errorMessage e2)"
  shows "writeContractWithAdaptiveFees transactionCount attempt s =
     (Inl e2,
      \<lparr> cachedNonce = (if includesText (errorMessage e1) ''nonce too low'' then None
                        else Some nonce) \<rparr>)"
  using assms acquire_result [OF assms(1)]
  by (simp add: writeContractWithAdaptiveFees_def FEE_MULTIPLIERS_def resetNonceCache_def)

lemma write_error_last:
  assumes "acquireNextNonce s transactionCount = (Inr nonce, s1)"
    and "attempt nonce 100 = Inl e1" and "isUnderpriced (errorMessage e1)"
    and "attempt nonce 120 = Inl e2" and "isUnderpriced (errorMessage e2)"
    and "attempt nonce 140 = Inl e3"
  shows "writeContractWithAdaptiveFees transactionCount attempt s =
     (Inl e3,
      \<lparr> cachedNonce = (if includesText (errorMessage e1) ''nonce too low'' \<or>
                           includesText (errorMessage e2) ''nonce too low'' then None
                        else Some nonce) \<rparr>)"
  using assms acquire_result [OF assms(1)]
  by (simp add: writeContractWithAdaptiveFees_def FEE_MULTIPLIERS_def resetNonceCache_def)

lemma attemptLoop_stays_reset:
  "cachedNonce s = None \<Longrightarrow> cachedNonce (snd (attemptLoop attempt nonce ms lastError s)) = None"
proof (induction ms arbitrary: lastError s)
  case Nil
  then show ?case by (simp split: option.splits error.splits)
next
  case (Cons m ms)
  then show ?case
    by (simp add: incrementNonce_def resetNonceCache_def split: sum.splits)
qed

lemma write_stale_first:
  assumes "acquireNextNonce s transactionCount = (Inr nonce, s1)"
    and "attempt nonce 100 = Inl e"
    and "includesText (errorMessage e) ''nonce too low''"
  shows "snd (writeContractWithAdaptiveFees transactionCount attempt s) = \<lparr> cachedNonce = None \<rparr>"
proof -
  have "writeContractWithAdaptiveFees transactionCount attempt s =
      attemptLoop attempt nonce [120, 140] (Some e) (resetNonceCache s1)"
    using assms stale_is_underpriced [OF assms(3)]
    by (simp add: writeContractWithAdaptiveFees_def FEE_MULTIPLIERS_def)
  moreover have "cachedNonce (resetNonceCache s1) = None"
    by (simp add: resetNonceCache_def)
  ultimately have
    "cachedNonce (snd (writeContractWithAdaptiveFees transactionCount attempt s)) = None"
    by (simp add: attemptLoop_stays_reset del: attemptLoop.simps)
  then show ?thesis
    by (cases "snd (writeContractWithAdaptiveFees transactionCount attempt s)") simp
qed

lemma write_stale_second:
  assumes "acquireNextNonce s transactionCount = (Inr nonce, s1)"
    and "attempt nonce 100 = Inl e1" and "isUnderpriced (errorMessage e1)"
    and "attempt nonce 120 = Inl e2"
    and "includesText (errorMessage e2) ''nonce too low''"
  shows "snd (writeContractWithAdaptiveFees transactionCount attempt s) = \<lparr> cachedNonce = None \<rparr>"
proof -
  define s2 where
    "s2 = (if includesText (errorMessage e1) ''nonce too low'' then resetNonceCache s1 else s1)"
  have "writeContractWithAdaptiveFees transactionCount attempt s =
      attemptLoop attempt nonce [140] (Some e2) (resetNonceCache s2)"
    using assms stale_is_underpriced [OF assms(5)]
    by (simp add: writeContractWithAdaptiveFees_def FEE_MULTIPLIERS_def s2_def)
  moreover have "cachedNonce (resetNonceCache s2) = None"
    by (simp add: resetNonceCache_def)
  ultimately have
    "cachedNonce (snd (writeContractWithAdaptiveFees transactionCount attempt s)) = None"
    by (simp add: attemptLoop_stays_reset del: attemptLoop.simps)
  then show ?thesis
    by (cases "snd (writeContractWithAdaptiveFees transactionCount attempt s)") simp
qed

text \<open>
  A run of submissions on a cached nonce, each accepted at the first fee step with the nonce
  that is due: the \<open>k\<close>-th uses \<open>n + k\<close>.
\<close>

lemma submitAll_cached:
  assumes "\<forall>k < length subs. \<exists>hash. snd (subs ! k) (n + int k) 100 = Inr hash"
  shows "\<exists>hashes. submitAll subs \<lparr> cachedNonce = Some n \<rparr> =
           (Inr hashes, \<lparr> cachedNonce = Some (n + int (length subs)) \<rparr>) \<and>
         length hashes = length subs"
  using assms
proof (induction subs arbitrary: n)
  case Nil
  then show ?case by simp
next
  case (Cons sub subs)
  obtain transactionCount attempt where sub: "sub = (transactionCount, attempt)" by (cases sub)
  obtain hash where h: "attempt n 100 = Inr hash"
    using Cons.prems sub by fastforce
  have w: "writeContractWithAdaptiveFees transactionCount attempt \<lparr> cachedNonce = Some n \<rparr> =
      (Inr hash, \<lparr> cachedNonce = Some (n + 1) \<rparr>)"
  proof -
    have "acquireNextNonce \<lparr> cachedNonce = Some n \<rparr> transactionCount =
        (Inr n, \<lparr> cachedNonce = Some n \<rparr>)"
      by (simp add: acquireNextNonce_def)
    from write_success_first [of _ transactionCount n _ attempt hash, OF this h]
    show ?thesis .
  qed
  have "\<forall>k < length subs. \<exists>hash. snd (subs ! k) (n + 1 + int k) 100 = Inr hash"
  proof (intro allI impI)
    fix k assume "k < length subs"
    then have "Suc k < length (sub # subs)" by simp
    with Cons.prems
    have "\<exists>hash. snd ((sub # subs) ! Suc k) (n + int (Suc k)) 100 = Inr hash"
      by blast
    then show "\<exists>hash. snd (subs ! k) (n + 1 + int k) 100 = Inr hash"
      by (simp add: algebra_simps)
  qed
  from Cons.IH [OF this] obtain hashes where
    "submitAll subs \<lparr> cachedNonce = Some (n + 1) \<rparr> =
       (Inr hashes, \<lparr> cachedNonce = Some (n + 1 + int (length subs)) \<rparr>)"
    "length hashes = length subs"
    by blast
  then show ?case
    using w sub by (simp add: algebra_simps)
qed

text \<open>
  C6, as amended. Starting with nothing cached, the first submission takes the nonce from
  the chain's transaction count; a cached nonce is returned as it is, without a read of the
  chain. A submission that succeeds, at whichever fee step, leaves the nonce it used plus
  one in the cache, unless a stale-nonce error (\<open>nonce too low\<close>) at an earlier fee step of
  the same submission had emptied the cache, which then stays empty. So \<open>N\<close> submissions
  in a row that each succeed without an error, each with the nonce that is due, leave
  \<open>initial + N\<close> in the cache, whatever the chain would have answered to a later count. A
  stale-nonce error at the first or the second fee step empties the cache, which stays empty
  to the end of that submission, so the next acquisition takes the chain's count. At the
  last fee step every error is rethrown before the reset: a stale-nonce error there leaves
  the cache as it was before that step.
\<close>

theorem nonce_cache_behaviour:
  "(\<forall>n transactionCount.
      acquireNextNonce \<lparr> cachedNonce = Some n \<rparr> transactionCount =
        (Inr n, \<lparr> cachedNonce = Some n \<rparr>)) \<and>
   (\<forall>c. acquireNextNonce \<lparr> cachedNonce = None \<rparr> (Inr c) = (Inr c, \<lparr> cachedNonce = Some c \<rparr>)) \<and>
   (\<forall>s transactionCount attempt nonce s1 hash.
      acquireNextNonce s transactionCount = (Inr nonce, s1) \<and> attempt nonce 100 = Inr hash
      \<longrightarrow> writeContractWithAdaptiveFees transactionCount attempt s =
            (Inr hash, \<lparr> cachedNonce = Some (nonce + 1) \<rparr>)) \<and>
   (\<forall>s transactionCount attempt nonce s1 e1 hash.
      acquireNextNonce s transactionCount = (Inr nonce, s1) \<and>
      attempt nonce 100 = Inl e1 \<and> isUnderpriced (errorMessage e1) \<and>
      attempt nonce 120 = Inr hash
      \<longrightarrow> writeContractWithAdaptiveFees transactionCount attempt s =
            (Inr hash,
             \<lparr> cachedNonce = (if includesText (errorMessage e1) ''nonce too low'' then None
                               else Some (nonce + 1)) \<rparr>)) \<and>
   (\<forall>s transactionCount attempt nonce s1 e1 e2 hash.
      acquireNextNonce s transactionCount = (Inr nonce, s1) \<and>
      attempt nonce 100 = Inl e1 \<and> isUnderpriced (errorMessage e1) \<and>
      attempt nonce 120 = Inl e2 \<and> isUnderpriced (errorMessage e2) \<and>
      attempt nonce 140 = Inr hash
      \<longrightarrow> writeContractWithAdaptiveFees transactionCount attempt s =
            (Inr hash,
             \<lparr> cachedNonce = (if includesText (errorMessage e1) ''nonce too low'' \<or>
                                  includesText (errorMessage e2) ''nonce too low'' then None
                               else Some (nonce + 1)) \<rparr>)) \<and>
   (\<forall>subs initial.
      subs \<noteq> [] \<and> fst (hd subs) = Inr initial \<and>
      (\<forall>k < length subs. \<exists>hash. snd (subs ! k) (initial + int k) 100 = Inr hash)
      \<longrightarrow> (\<exists>hashes. submitAll subs \<lparr> cachedNonce = None \<rparr> =
             (Inr hashes, \<lparr> cachedNonce = Some (initial + int (length subs)) \<rparr>) \<and>
             length hashes = length subs)) \<and>
   (\<forall>s transactionCount attempt nonce s1 e c.
      acquireNextNonce s transactionCount = (Inr nonce, s1) \<and>
      attempt nonce 100 = Inl e \<and> includesText (errorMessage e) ''nonce too low''
      \<longrightarrow> snd (writeContractWithAdaptiveFees transactionCount attempt s) =
            \<lparr> cachedNonce = None \<rparr> \<and>
          acquireNextNonce (snd (writeContractWithAdaptiveFees transactionCount attempt s))
            (Inr c) = (Inr c, \<lparr> cachedNonce = Some c \<rparr>)) \<and>
   (\<forall>s transactionCount attempt nonce s1 e1 e2 c.
      acquireNextNonce s transactionCount = (Inr nonce, s1) \<and>
      attempt nonce 100 = Inl e1 \<and> isUnderpriced (errorMessage e1) \<and>
      attempt nonce 120 = Inl e2 \<and> includesText (errorMessage e2) ''nonce too low''
      \<longrightarrow> snd (writeContractWithAdaptiveFees transactionCount attempt s) =
            \<lparr> cachedNonce = None \<rparr> \<and>
          acquireNextNonce (snd (writeContractWithAdaptiveFees transactionCount attempt s))
            (Inr c) = (Inr c, \<lparr> cachedNonce = Some c \<rparr>)) \<and>
   (\<forall>s transactionCount attempt nonce s1 e1 e2 e3.
      acquireNextNonce s transactionCount = (Inr nonce, s1) \<and>
      attempt nonce 100 = Inl e1 \<and> isUnderpriced (errorMessage e1) \<and>
      attempt nonce 120 = Inl e2 \<and> isUnderpriced (errorMessage e2) \<and>
      attempt nonce 140 = Inl e3
      \<longrightarrow> writeContractWithAdaptiveFees transactionCount attempt s =
            (Inl e3,
             \<lparr> cachedNonce = (if includesText (errorMessage e1) ''nonce too low'' \<or>
                                  includesText (errorMessage e2) ''nonce too low'' then None
                               else Some nonce) \<rparr>)) \<and>
   (\<forall>s transactionCount attempt nonce s1 e1.
      acquireNextNonce s transactionCount = (Inr nonce, s1) \<and>
      attempt nonce 100 = Inl e1 \<and> \<not> isUnderpriced (errorMessage e1)
      \<longrightarrow> writeContractWithAdaptiveFees transactionCount attempt s =
            (Inl e1, \<lparr> cachedNonce = Some nonce \<rparr>)) \<and>
   (\<forall>s transactionCount attempt nonce s1 e1 e2.
      acquireNextNonce s transactionCount = (Inr nonce, s1) \<and>
      attempt nonce 100 = Inl e1 \<and> isUnderpriced (errorMessage e1) \<and>
      attempt nonce 120 = Inl e2 \<and> \<not> isUnderpriced (errorMessage e2)
      \<longrightarrow> writeContractWithAdaptiveFees transactionCount attempt s =
            (Inl e2,
             \<lparr> cachedNonce = (if includesText (errorMessage e1) ''nonce too low'' then None
                               else Some nonce) \<rparr>))"
proof (intro conjI allI impI, goal_cases)
  case (1 n transactionCount)
  show ?case by (simp add: acquireNextNonce_def)
next
  case (2 c)
  show ?case by (simp add: acquireNextNonce_def)
next
  case (3 s transactionCount attempt nonce s1 hash)
  then show ?case using write_success_first by blast
next
  case (4 s transactionCount attempt nonce s1 e1 hash)
  then show ?case using write_success_second by blast
next
  case (5 s transactionCount attempt nonce s1 e1 e2 hash)
  then show ?case using write_success_third by blast
next
  case (6 subs initial)
  then obtain attempt rest where subs: "subs = (Inr initial, attempt) # rest"
    by (cases subs) (auto simp: prod_eq_iff)
  have "\<exists>hash. snd (subs ! 0) (initial + int 0) 100 = Inr hash"
    using 6 by blast
  then obtain hash where hh: "attempt initial 100 = Inr hash"
    using subs by auto
  have w: "writeContractWithAdaptiveFees (Inr initial) attempt \<lparr> cachedNonce = None \<rparr> =
      (Inr hash, \<lparr> cachedNonce = Some (initial + 1) \<rparr>)"
  proof -
    have "acquireNextNonce \<lparr> cachedNonce = None \<rparr> (Inr initial) =
        (Inr initial, \<lparr> cachedNonce = Some initial \<rparr>)"
      by (simp add: acquireNextNonce_def)
    from write_success_first [of _ "Inr initial" initial _ attempt hash, OF this hh]
    show ?thesis .
  qed
  have "\<forall>k < length rest. \<exists>hash. snd (rest ! k) (initial + 1 + int k) 100 = Inr hash"
  proof (intro allI impI)
    fix k assume "k < length rest"
    then have "Suc k < length subs" using subs by simp
    with 6 have "\<exists>hash. snd (subs ! Suc k) (initial + int (Suc k)) 100 = Inr hash"
      by blast
    then show "\<exists>hash. snd (rest ! k) (initial + 1 + int k) 100 = Inr hash"
      using subs by (simp add: algebra_simps)
  qed
  from submitAll_cached [OF this] obtain hashes where
    "submitAll rest \<lparr> cachedNonce = Some (initial + 1) \<rparr> =
       (Inr hashes, \<lparr> cachedNonce = Some (initial + 1 + int (length rest)) \<rparr>)"
    "length hashes = length rest"
    by blast
  then show ?case
    using w subs by (simp add: algebra_simps)
next
  case (7 s transactionCount attempt nonce s1 e c)
  then show ?case using write_stale_first by blast
next
  case (8 s transactionCount attempt nonce s1 e c)
  then have "snd (writeContractWithAdaptiveFees transactionCount attempt s) =
      \<lparr> cachedNonce = None \<rparr>"
    using write_stale_first by blast
  then show ?case by (simp add: acquireNextNonce_def)
next
  case (9 s transactionCount attempt nonce s1 e1 e2 c)
  then show ?case using write_stale_second by blast
next
  case (10 s transactionCount attempt nonce s1 e1 e2 c)
  then have "snd (writeContractWithAdaptiveFees transactionCount attempt s) =
      \<lparr> cachedNonce = None \<rparr>"
    using write_stale_second by blast
  then show ?case by (simp add: acquireNextNonce_def)
next
  case (11 s transactionCount attempt nonce s1 e1 e2 e3)
  then show ?case using write_error_last by blast
next
  case (12 s transactionCount attempt nonce s1 e1)
  then show ?case using write_error_first by blast
next
  case (13 s transactionCount attempt nonce s1 e1 e2)
  then show ?case using write_error_second by blast
qed

theorem nonce_cache_behaviour_witness:
  "threeSubmissions \<noteq> [] \<and> fst (hd threeSubmissions) = Inr 7 \<and>
   snd (threeSubmissions ! 0) 7 100 = Inr ''0x7a7'' \<and>
   snd (threeSubmissions ! 1) 8 100 = Inr ''0x7a8'' \<and>
   snd (threeSubmissions ! 2) 9 100 = Inr ''0x7a9'' \<and>
   submitAll threeSubmissions \<lparr> cachedNonce = None \<rparr> =
     (Inr [''0x7a7'', ''0x7a8'', ''0x7a9''], \<lparr> cachedNonce = Some 10 \<rparr>) \<and>
   acquireNextNonce \<lparr> cachedNonce = None \<rparr> (Inr 7) = (Inr 7, \<lparr> cachedNonce = Some 7 \<rparr>) \<and>
   attemptStaleFirst 7 100 = Inl (Error ''Nonce too low: next nonce 9, tx nonce 7'') \<and>
   includesText (errorMessage (Error ''Nonce too low: next nonce 9, tx nonce 7''))
     ''nonce too low'' \<and>
   snd (writeContractWithAdaptiveFees (Inr 7) attemptStaleFirst \<lparr> cachedNonce = None \<rparr>) =
     \<lparr> cachedNonce = None \<rparr> \<and>
   acquireNextNonce
     (snd (writeContractWithAdaptiveFees (Inr 7) attemptStaleFirst \<lparr> cachedNonce = None \<rparr>))
     (Inr 9) = (Inr 9, \<lparr> cachedNonce = Some 9 \<rparr>) \<and>
   attemptFeeTooLow 7 100 = Inl (Error ''Fee too low'') \<and>
   isUnderpriced (errorMessage (Error ''Fee too low'')) \<and>
   attemptFeeTooLow 7 120 = Inr ''0x7c'' \<and>
   writeContractWithAdaptiveFees (Inr 7) attemptFeeTooLow \<lparr> cachedNonce = None \<rparr> =
     (Inr ''0x7c'', \<lparr> cachedNonce = Some 8 \<rparr>)"
proof -
  note t = nonce_cache_behaviour
  have h1: "threeSubmissions \<noteq> []" "fst (hd threeSubmissions) = Inr 7"
    by (simp_all add: threeSubmissions_def)
  have len: "length threeSubmissions = 3" by (simp add: threeSubmissions_def)
  have due: "snd (threeSubmissions ! 0) 7 100 = Inr ''0x7a7''"
    "snd (threeSubmissions ! 1) 8 100 = Inr ''0x7a8''"
    "snd (threeSubmissions ! 2) 9 100 = Inr ''0x7a9''"
    by code_simp+
  have h2: "\<forall>k < length threeSubmissions.
      \<exists>hash. snd (threeSubmissions ! k) (7 + int k) 100 = Inr hash"
  proof (intro allI impI)
    fix k assume "k < length threeSubmissions"
    then have "k = 0 \<or> k = 1 \<or> k = 2" using len by auto
    then show "\<exists>hash. snd (threeSubmissions ! k) (7 + int k) 100 = Inr hash"
      using due by auto
  qed
  have ev: "fst (submitAll threeSubmissions \<lparr> cachedNonce = None \<rparr>) =
      Inr [''0x7a7'', ''0x7a8'', ''0x7a9'']"
    by code_simp
  have a: "\<exists>hashes. submitAll threeSubmissions \<lparr> cachedNonce = None \<rparr> =
      (Inr hashes, \<lparr> cachedNonce = Some (7 + int (length threeSubmissions)) \<rparr>) \<and>
      length hashes = length threeSubmissions"
    using t [THEN conjunct2, THEN conjunct2, THEN conjunct2, THEN conjunct2, THEN conjunct2,
        THEN conjunct1, rule_format, of threeSubmissions 7] h1 h2
    by simp
  have b: "acquireNextNonce \<lparr> cachedNonce = None \<rparr> (Inr 7) = (Inr 7, \<lparr> cachedNonce = Some 7 \<rparr>)"
    using t [THEN conjunct2, THEN conjunct1] by simp
  have h3: "attemptStaleFirst 7 100 = Inl (Error ''Nonce too low: next nonce 9, tx nonce 7'')"
    by (simp add: attemptStaleFirst_def)
  have h4: "includesText (errorMessage (Error ''Nonce too low: next nonce 9, tx nonce 7''))
     ''nonce too low''"
    by code_simp
  have c: "snd (writeContractWithAdaptiveFees (Inr 7) attemptStaleFirst
       \<lparr> cachedNonce = None \<rparr>) = \<lparr> cachedNonce = None \<rparr> \<and>
     acquireNextNonce
       (snd (writeContractWithAdaptiveFees (Inr 7) attemptStaleFirst \<lparr> cachedNonce = None \<rparr>))
       (Inr 9) = (Inr 9, \<lparr> cachedNonce = Some 9 \<rparr>)"
    using t [THEN conjunct2, THEN conjunct2, THEN conjunct2, THEN conjunct2, THEN conjunct2,
        THEN conjunct2, THEN conjunct1, rule_format,
        of "\<lparr> cachedNonce = None \<rparr>" "Inr 7" 7 "\<lparr> cachedNonce = Some 7 \<rparr>"
        attemptStaleFirst "Error ''Nonce too low: next nonce 9, tx nonce 7''" 9]
      b h3 h4
    by blast
  have h5: "attemptFeeTooLow 7 100 = Inl (Error ''Fee too low'')"
    "attemptFeeTooLow 7 120 = Inr ''0x7c''"
    by (simp_all add: attemptFeeTooLow_def)
  have h6: "isUnderpriced (errorMessage (Error ''Fee too low''))"
    by code_simp
  have h7: "\<not> includesText (errorMessage (Error ''Fee too low'')) ''nonce too low''"
    by code_simp
  have d: "writeContractWithAdaptiveFees (Inr 7) attemptFeeTooLow \<lparr> cachedNonce = None \<rparr> =
     (Inr ''0x7c'', \<lparr> cachedNonce = Some 8 \<rparr>)"
    using t [THEN conjunct2, THEN conjunct2, THEN conjunct2, THEN conjunct1, rule_format,
        of "\<lparr> cachedNonce = None \<rparr>" "Inr 7" 7 "\<lparr> cachedNonce = Some 7 \<rparr>"
        attemptFeeTooLow "Error ''Fee too low''" "''0x7c''"]
      b h5 h6 h7
    by simp
  show ?thesis
    using a b c d h1 h3 h4 h5 h6 due ev by (auto simp add: len)
qed

text \<open>
  C6 as stated fails in two ways. A stale-nonce error at the last fee step does not reset
  the cache: it keeps the stale nonce 7, and the next acquisition returns it although the
  chain would answer 9. And a submission that succeeds at the second fee step after a
  stale-nonce error at the first does not increment the cache: it is left empty.
\<close>

theorem nonce_cache_counterexample:
  "attemptStaleLast 7 140 = Inl (Error ''Nonce too low: next nonce 9, tx nonce 7'') \<and>
   includesText (errorMessage (Error ''Nonce too low: next nonce 9, tx nonce 7''))
     ''nonce too low'' \<and>
   writeContractWithAdaptiveFees (Inr 7) attemptStaleLast \<lparr> cachedNonce = None \<rparr> =
     (Inl (Error ''Nonce too low: next nonce 9, tx nonce 7''), \<lparr> cachedNonce = Some 7 \<rparr>) \<and>
   acquireNextNonce \<lparr> cachedNonce = Some 7 \<rparr> (Inr 9) = (Inr 7, \<lparr> cachedNonce = Some 7 \<rparr>) \<and>
   attemptStaleFirst 7 100 = Inl (Error ''Nonce too low: next nonce 9, tx nonce 7'') \<and>
   attemptStaleFirst 7 120 = Inr ''0x7b'' \<and>
   writeContractWithAdaptiveFees (Inr 7) attemptStaleFirst \<lparr> cachedNonce = Some 7 \<rparr> =
     (Inr ''0x7b'', \<lparr> cachedNonce = None \<rparr>)"
  by code_simp

section \<open>Purchase and relist\<close>

lemma relistStep_keeps_deduction:
  assumes "readStateFromDatabase (db st) = Inr (Some loaded)"
    and "commissionPoolWei loaded = c"
    and "commissionPoolWei (state st) = c"
  shows "commissionPoolWei (state (fst (relistStep w cfg st metadata cost))) = c \<and>
         (\<exists>loaded'. readStateFromDatabase (db (fst (relistStep w cfg st metadata cost))) =
            Inr (Some loaded') \<and> commissionPoolWei loaded' = c)"
proof (cases "createOpenSeaListing w metadata cost")
  case (Inl e)
  then show ?thesis using assms by (simp add: relistStep_def)
next
  case (Inr result)
  show ?thesis
  proof (cases result)
    case None
    then show ?thesis using assms Inr by (simp add: relistStep_def)
  next
    case (Some listing)
    let ?st1 = "st\<lparr>state := (state st)\<lparr>activeListings :=
                 activeListings (state st) @ [newActiveListing w cfg metadata listing]\<rparr>\<rparr>"
    show ?thesis
    proof (cases "persistState (db ?st1) (state ?st1)")
      case (Inl e)
      then show ?thesis using assms Inr Some by (simp add: relistStep_def save_def Let_def)
    next
      case (Inr d')
      from read_after_persist [OF this] assms \<open>createOpenSeaListing w metadata cost = Inr result\<close>
        Some Inr
      show ?thesis by (simp add: relistStep_def save_def Let_def)
    qed
  qed
qed

lemma relistStep_events:
  "\<exists>more. snd (relistStep w cfg st metadata cost) = CreateOpenSeaListing cost # more"
  by (auto simp add: relistStep_def Let_def split: sum.splits option.splits)

lemma purchase_gate:
  "(\<exists>request. ExecuteSeaport request \<in> set (snd (snd (attemptPurchaseAndListing w cfg store))))
   \<Longrightarrow> \<exists>execution. fetchOpenSeaBuyExecution w = Inr execution \<and> 0 < valueWei execution \<and>
          valueWei execution \<le> commissionPoolWei (state store)"
  by (cases "fetchOpenSeaBuyExecution w")
     (auto simp add: attemptPurchaseAndListing_def Let_def split: if_splits)

lemma purchase_skipped:
  "(\<forall>execution. fetchOpenSeaBuyExecution w = Inr execution \<longrightarrow>
      valueWei execution \<le> 0 \<or> commissionPoolWei (state store) < valueWei execution)
   \<Longrightarrow> attemptPurchaseAndListing w cfg store = (Inr False, store, [])"
  by (cases "fetchOpenSeaBuyExecution w")
     (auto simp add: attemptPurchaseAndListing_def Let_def)

lemma purchase_confirmed:
  assumes target: "\<not> (TARGET_COLLECTION cfg = None \<and> TARGET_COLLECTION_SLUG cfg = None)"
      "\<not> (TARGET_TOKEN_ID cfg \<noteq> None \<and> TARGET_COLLECTION cfg = None)"
    and fetch: "fetchOpenSeaBuyExecution w = Inr execution"
    and gate: "0 < valueWei execution" "valueWei execution \<le> commissionPoolWei (state store)"
    and submit: "executeSeaport w \<lparr> router_req = router execution,
          valueWei_req = valueWei execution, calldata_req = RawCalldata (calldata execution),
          callValueWei_req = 0 \<rparr> = Inr purchaseTx"
    and receipt: "waitForReceipt w purchaseTx = Inr ()"
    and keys: "distinct (map orderHash (activeListings (state store)))"
  shows "\<exists>d' store' rest.
     persistState (db store) ((state store)\<lparr>commissionPoolWei :=
       commissionPoolWei (state store) - valueWei execution\<rparr>) = Inr d' \<and>
     attemptPurchaseAndListing w cfg store =
       (Inr True, store',
        [ExecuteSeaport \<lparr> router_req = router execution, valueWei_req = valueWei execution,
           calldata_req = RawCalldata (calldata execution), callValueWei_req = 0 \<rparr>,
         WaitForReceipt purchaseTx,
         Save ((state store)\<lparr>commissionPoolWei :=
           commissionPoolWei (state store) - valueWei execution\<rparr>)] @ rest) \<and>
     (case openSeaMetadata execution of
        None \<Rightarrow> rest = [] \<and>
          store' = \<lparr> db = d', state = (state store)\<lparr>commissionPoolWei :=
            commissionPoolWei (state store) - valueWei execution\<rparr> \<rparr>
      | Some metadata \<Rightarrow>
          (store', rest) =
            relistStep w cfg \<lparr> db = d', state = (state store)\<lparr>commissionPoolWei :=
              commissionPoolWei (state store) - valueWei execution\<rparr> \<rparr> metadata
              (valueWei execution) \<and>
          (\<exists>more. rest = CreateOpenSeaListing (valueWei execution) # more)) \<and>
     commissionPoolWei (state store') = commissionPoolWei (state store) - valueWei execution \<and>
     (\<exists>loaded. readStateFromDatabase (db store') = Inr (Some loaded) \<and>
        commissionPoolWei loaded = commissionPoolWei (state store) - valueWei execution)"
proof -
  let ?deducted = "(state store)\<lparr>commissionPoolWei :=
       commissionPoolWei (state store) - valueWei execution\<rparr>"
  let ?request = "\<lparr> router_req = router execution, valueWei_req = valueWei execution,
           calldata_req = RawCalldata (calldata execution), callValueWei_req = 0 \<rparr>"
  have "distinct (map orderHash (activeListings ?deducted))" using keys by simp
  then obtain d' where d': "persistState (db store) ?deducted = Inr d'"
    using persistState_distinct by blast
  let ?store2 = "\<lparr> db = d', state = ?deducted \<rparr>"
  have rd: "readStateFromDatabase (db ?store2) =
      Inr (Some (?deducted\<lparr>version := STATE_VERSION,
        activeListings := sort_key listedAtMs (activeListings ?deducted)\<rparr>))"
    using read_after_persist [OF d'] by simp
  have sv: "save (store\<lparr>state := ?deducted\<rparr>) = Inr ?store2"
    using d' by (cases store) (simp add: save_def)
  have pool: "0 < commissionPoolWei (state store)" using gate by simp
  show ?thesis
  proof (cases "openSeaMetadata execution")
    case None
    have "attemptPurchaseAndListing w cfg store =
        (Inr True, ?store2, [ExecuteSeaport ?request, WaitForReceipt purchaseTx, Save ?deducted] @ [])"
      using target fetch gate submit receipt sv None pool
      by (simp add: attemptPurchaseAndListing_def Let_def)
    then show ?thesis using d' rd None by auto
  next
    case (Some metadata)
    obtain store' rest where rs: "relistStep w cfg ?store2 metadata (valueWei execution) = (store', rest)"
      by (cases "relistStep w cfg ?store2 metadata (valueWei execution)")
    have run: "attemptPurchaseAndListing w cfg store =
        (Inr True, store', [ExecuteSeaport ?request, WaitForReceipt purchaseTx, Save ?deducted] @ rest)"
      using target fetch gate submit receipt sv Some pool rs
      by (simp add: attemptPurchaseAndListing_def Let_def)
    have keep: "commissionPoolWei (state store') = commissionPoolWei (state store) - valueWei execution \<and>
         (\<exists>loaded'. readStateFromDatabase (db store') = Inr (Some loaded') \<and>
            commissionPoolWei loaded' = commissionPoolWei (state store) - valueWei execution)"
      using relistStep_keeps_deduction [OF rd, of "commissionPoolWei (state store) - valueWei execution"
          w cfg metadata "valueWei execution"] rs
      by simp
    have ev: "\<exists>more. rest = CreateOpenSeaListing (valueWei execution) # more"
      using relistStep_events [of w cfg ?store2 metadata "valueWei execution"] rs by simp
    show ?thesis
      using d' run keep ev Some rs by auto
  qed
qed

lemma newActiveListing_price_not_read:
  "newActiveListing (w\<lparr>fetchOpenSeaBuyExecution := fetched\<rparr>) cfg metadata listing =
   newActiveListing w cfg metadata listing"
  by (simp add: newActiveListing_def)

lemma relistStep_price_not_read:
  "relistStep (w\<lparr>fetchOpenSeaBuyExecution := fetched\<rparr>) cfg store metadata cost =
   relistStep w cfg store metadata cost"
  by (simp add: relistStep_def newActiveListing_price_not_read
      cong: sum.case_cong option.case_cong)

lemma purchase_price_not_read:
  assumes "fetchOpenSeaBuyExecution w = Inr execution"
  shows "attemptPurchaseAndListing
           (w\<lparr>fetchOpenSeaBuyExecution := Inr (execution\<lparr>priceWei := p\<rparr>)\<rparr>) cfg store =
         attemptPurchaseAndListing w cfg store"
proof (cases "valueWei execution \<le> 0 \<or> commissionPoolWei (state store) < valueWei execution")
  case True
  then show ?thesis
    using assms by (auto simp add: attemptPurchaseAndListing_def Let_def)
next
  case False
  then show ?thesis
    using assms
    by (simp add: attemptPurchaseAndListing_def Let_def relistStep_price_not_read
        cong: sum.case_cong option.case_cong)
qed

text \<open>
  C7, as amended. The amount that gates the purchase and that is deducted is the
  \<open>valueWei\<close> of the resolved execution, the wei sent with the transaction, which the
  source calls \<open>cost\<close>; its \<open>priceWei\<close>, the price of the resolved order, is not read.
  \<open>attemptPurchaseAndListing\<close> submits a transaction only when an execution was resolved
  whose cost is strictly positive and at most \<open>commissionPoolWei\<close>; when no execution with
  such a cost is resolved it returns \<open>false\<close> with the store untouched and nothing
  submitted. When the purchase is submitted and confirmed, the ledger with the cost deducted
  is saved before anything else happens: the relist step, if there is one, starts from the
  store that holds the saved deduction, and whatever the relist step does (a listing,
  \<open>null\<close>, or an error that is caught), the call returns \<open>true\<close> and both the in-memory
  ledger and the ledger a later load reads from the database have the deducted commission
  pool.
\<close>

theorem attemptPurchaseAndListing_gate_and_deduction:
  "((\<exists>request. ExecuteSeaport request \<in> set (snd (snd (attemptPurchaseAndListing w cfg store))))
      \<longrightarrow> (\<exists>execution. fetchOpenSeaBuyExecution w = Inr execution \<and> 0 < valueWei execution \<and>
             valueWei execution \<le> commissionPoolWei (state store))) \<and>
   ((\<forall>execution. fetchOpenSeaBuyExecution w = Inr execution \<longrightarrow>
       valueWei execution \<le> 0 \<or> commissionPoolWei (state store) < valueWei execution)
      \<longrightarrow> attemptPurchaseAndListing w cfg store = (Inr False, store, [])) \<and>
   (\<forall>execution purchaseTx.
      \<not> (TARGET_COLLECTION cfg = None \<and> TARGET_COLLECTION_SLUG cfg = None) \<and>
      \<not> (TARGET_TOKEN_ID cfg \<noteq> None \<and> TARGET_COLLECTION cfg = None) \<and>
      fetchOpenSeaBuyExecution w = Inr execution \<and>
      0 < valueWei execution \<and> valueWei execution \<le> commissionPoolWei (state store) \<and>
      executeSeaport w \<lparr> router_req = router execution,
          valueWei_req = valueWei execution, calldata_req = RawCalldata (calldata execution),
          callValueWei_req = 0 \<rparr> = Inr purchaseTx \<and>
      waitForReceipt w purchaseTx = Inr () \<and>
      distinct (map orderHash (activeListings (state store)))
      \<longrightarrow> (\<exists>d' store' rest.
     persistState (db store) ((state store)\<lparr>commissionPoolWei :=
       commissionPoolWei (state store) - valueWei execution\<rparr>) = Inr d' \<and>
     attemptPurchaseAndListing w cfg store =
       (Inr True, store',
        [ExecuteSeaport \<lparr> router_req = router execution, valueWei_req = valueWei execution,
           calldata_req = RawCalldata (calldata execution), callValueWei_req = 0 \<rparr>,
         WaitForReceipt purchaseTx,
         Save ((state store)\<lparr>commissionPoolWei :=
           commissionPoolWei (state store) - valueWei execution\<rparr>)] @ rest) \<and>
     (case openSeaMetadata execution of
        None \<Rightarrow> rest = [] \<and>
          store' = \<lparr> db = d', state = (state store)\<lparr>commissionPoolWei :=
            commissionPoolWei (state store) - valueWei execution\<rparr> \<rparr>
      | Some metadata \<Rightarrow>
          (store', rest) =
            relistStep w cfg \<lparr> db = d', state = (state store)\<lparr>commissionPoolWei :=
              commissionPoolWei (state store) - valueWei execution\<rparr> \<rparr> metadata
              (valueWei execution) \<and>
          (\<exists>more. rest = CreateOpenSeaListing (valueWei execution) # more)) \<and>
     commissionPoolWei (state store') = commissionPoolWei (state store) - valueWei execution \<and>
     (\<exists>loaded. readStateFromDatabase (db store') = Inr (Some loaded) \<and>
        commissionPoolWei loaded = commissionPoolWei (state store) - valueWei execution))) \<and>
   (\<forall>execution p.
      fetchOpenSeaBuyExecution w = Inr execution
      \<longrightarrow> attemptPurchaseAndListing
            (w\<lparr>fetchOpenSeaBuyExecution := Inr (execution\<lparr>priceWei := p\<rparr>)\<rparr>) cfg store =
          attemptPurchaseAndListing w cfg store)"
proof (intro conjI allI impI, goal_cases)
  case 1
  then show ?case by (rule purchase_gate)
next
  case 2
  then show ?case by (rule purchase_skipped)
next
  case (3 execution purchaseTx)
  then show ?case
    by (intro purchase_confirmed) simp_all
next
  case (4 execution p)
  then show ?case by (rule purchase_price_not_read)
qed

theorem attemptPurchaseAndListing_gate_and_deduction_witness:
  "\<not> (TARGET_COLLECTION cfg0 = None \<and> TARGET_COLLECTION_SLUG cfg0 = None) \<and>
   \<not> (TARGET_TOKEN_ID cfg0 \<noteq> None \<and> TARGET_COLLECTION cfg0 = None) \<and>
   fetchOpenSeaBuyExecution world0 =
     Inr \<lparr> router = ''0x0068f116'', calldata = ''0xe7acab24'', valueWei = 1200,
           priceWei = Some 1200, openSeaMetadata = Some purchaseBlueprint \<rparr> \<and>
   (0::int) < 1200 \<and> 1200 \<le> commissionPoolWei (state fundedStore) \<and>
   executeSeaport world0 \<lparr> router_req = ''0x0068f116'', valueWei_req = 1200,
     calldata_req = RawCalldata ''0xe7acab24'', callValueWei_req = 0 \<rparr> = Inr ''0x7a'' \<and>
   waitForReceipt world0 ''0x7a'' = Inr () \<and>
   distinct (map orderHash (activeListings (state fundedStore))) \<and>
   fst (attemptPurchaseAndListing world0 cfg0 fundedStore) = Inr True \<and>
   commissionPoolWei (state (fst (snd (attemptPurchaseAndListing world0 cfg0 fundedStore)))) = 300 \<and>
   (\<exists>loaded.
      readStateFromDatabase (db (fst (snd (attemptPurchaseAndListing world0 cfg0 fundedStore)))) =
        Inr (Some loaded) \<and> commissionPoolWei loaded = 300) \<and>
   take 4 (snd (snd (attemptPurchaseAndListing world0 cfg0 fundedStore))) =
     [ExecuteSeaport \<lparr> router_req = ''0x0068f116'', valueWei_req = 1200,
        calldata_req = RawCalldata ''0xe7acab24'', callValueWei_req = 0 \<rparr>,
      WaitForReceipt ''0x7a'',
      Save \<lparr> version = 3, commissionPoolWei = 300, salePoolWei = 0, pendingBurnAmount = 0,
             pendingBurnCostWei = 0, activeListings = [], lastTaxBlock = 15 \<rparr>,
      CreateOpenSeaListing 1200]"
proof -
  let ?execution = "\<lparr> router = ''0x0068f116'', calldata = ''0xe7acab24'', valueWei = 1200,
           priceWei = Some 1200, openSeaMetadata = Some purchaseBlueprint \<rparr>"
  have h1: "\<not> (TARGET_COLLECTION cfg0 = None \<and> TARGET_COLLECTION_SLUG cfg0 = None)"
    "\<not> (TARGET_TOKEN_ID cfg0 \<noteq> None \<and> TARGET_COLLECTION cfg0 = None)"
    by (simp_all add: cfg0_def)
  have h2: "fetchOpenSeaBuyExecution world0 = Inr ?execution" by (simp add: world0_def)
  have st: "state fundedStore = \<lparr> version = 3, commissionPoolWei = 1500, salePoolWei = 0,
      pendingBurnAmount = 0, pendingBurnCostWei = 0, activeListings = [], lastTaxBlock = 15 \<rparr>"
    by (simp add: fundedStore_def savedStore_def split: sum.splits)
  have h3: "0 < valueWei ?execution" "valueWei ?execution \<le> commissionPoolWei (state fundedStore)"
    by (simp_all add: st)
  have h4: "executeSeaport world0 \<lparr> router_req = router ?execution,
      valueWei_req = valueWei ?execution, calldata_req = RawCalldata (calldata ?execution),
      callValueWei_req = 0 \<rparr> = Inr ''0x7a''"
    by (simp add: world0_def)
  have h5: "waitForReceipt world0 ''0x7a'' = Inr ()" by (simp add: world0_def)
  have h6: "distinct (map orderHash (activeListings (state fundedStore)))" by (simp add: st)
  obtain d' store' rest where r:
    "attemptPurchaseAndListing world0 cfg0 fundedStore =
       (Inr True, store',
        [ExecuteSeaport \<lparr> router_req = router ?execution, valueWei_req = valueWei ?execution,
           calldata_req = RawCalldata (calldata ?execution), callValueWei_req = 0 \<rparr>,
         WaitForReceipt ''0x7a'',
         Save ((state fundedStore)\<lparr>commissionPoolWei :=
           commissionPoolWei (state fundedStore) - valueWei ?execution\<rparr>)] @ rest)"
    "case openSeaMetadata ?execution of
        None \<Rightarrow> rest = [] \<and>
          store' = \<lparr> db = d', state = (state fundedStore)\<lparr>commissionPoolWei :=
            commissionPoolWei (state fundedStore) - valueWei ?execution\<rparr> \<rparr>
      | Some metadata \<Rightarrow>
          (store', rest) =
            relistStep world0 cfg0 \<lparr> db = d', state = (state fundedStore)\<lparr>commissionPoolWei :=
              commissionPoolWei (state fundedStore) - valueWei ?execution\<rparr> \<rparr> metadata
              (valueWei ?execution) \<and>
          (\<exists>more. rest = CreateOpenSeaListing (valueWei ?execution) # more)"
    "commissionPoolWei (state store') = commissionPoolWei (state fundedStore) - valueWei ?execution"
    "\<exists>loaded. readStateFromDatabase (db store') = Inr (Some loaded) \<and>
        commissionPoolWei loaded = commissionPoolWei (state fundedStore) - valueWei ?execution"
    using attemptPurchaseAndListing_gate_and_deduction [THEN conjunct2, THEN conjunct2,
        THEN conjunct1, rule_format, of cfg0 world0 ?execution fundedStore "''0x7a''"]
      h1 h2 h3 h4 h5 h6
    by auto
  obtain more where more: "rest = CreateOpenSeaListing 1200 # more"
    using r(2) by auto
  show ?thesis
    using h1 h2 h3 h4 h5 h6 r(1,3,4) more by (simp add: st)
qed

text \<open>
  C7 as stated fails when the price of the resolved order and the value of the transaction
  differ: with a price of 2000 above the commission pool of 1500 and a value of 1200 below
  it, the purchase is submitted and 1200 is deducted.
\<close>

theorem attemptPurchaseAndListing_counterexample:
  "map_sum id priceWei (fetchOpenSeaBuyExecution worldPriceAbovePool) = Inr (Some 2000) \<and>
   commissionPoolWei (state fundedStore) = 1500 \<and>
   fst (attemptPurchaseAndListing worldPriceAbovePool cfg0 fundedStore) = Inr True \<and>
   snd (snd (attemptPurchaseAndListing worldPriceAbovePool cfg0 fundedStore)) =
     [ExecuteSeaport \<lparr> router_req = ''0x0068f116'', valueWei_req = 1200,
        calldata_req = RawCalldata ''0xe7acab24'', callValueWei_req = 0 \<rparr>,
      WaitForReceipt ''0x7a'',
      Save \<lparr> version = 3, commissionPoolWei = 300, salePoolWei = 0, pendingBurnAmount = 0,
             pendingBurnCostWei = 0, activeListings = [], lastTaxBlock = 15 \<rparr>] \<and>
   commissionPoolWei
     (state (fst (snd (attemptPurchaseAndListing worldPriceAbovePool cfg0 fundedStore)))) = 300"
proof -
  let ?execution = "\<lparr> router = ''0x0068f116'', calldata = ''0xe7acab24'', valueWei = 1200,
           priceWei = Some 2000, openSeaMetadata = None \<rparr>"
  have h1: "\<not> (TARGET_COLLECTION cfg0 = None \<and> TARGET_COLLECTION_SLUG cfg0 = None)"
    "\<not> (TARGET_TOKEN_ID cfg0 \<noteq> None \<and> TARGET_COLLECTION cfg0 = None)"
    by (simp_all add: cfg0_def)
  have h2: "fetchOpenSeaBuyExecution worldPriceAbovePool = Inr ?execution"
    by (simp add: worldPriceAbovePool_def)
  have st: "state fundedStore = \<lparr> version = 3, commissionPoolWei = 1500, salePoolWei = 0,
      pendingBurnAmount = 0, pendingBurnCostWei = 0, activeListings = [], lastTaxBlock = 15 \<rparr>"
    by (simp add: fundedStore_def savedStore_def split: sum.splits)
  have h3: "0 < valueWei ?execution" "valueWei ?execution \<le> commissionPoolWei (state fundedStore)"
    by (simp_all add: st)
  have h4: "executeSeaport worldPriceAbovePool \<lparr> router_req = router ?execution,
      valueWei_req = valueWei ?execution, calldata_req = RawCalldata (calldata ?execution),
      callValueWei_req = 0 \<rparr> = Inr ''0x7a''"
    by (simp add: worldPriceAbovePool_def world0_def)
  have h5: "waitForReceipt worldPriceAbovePool ''0x7a'' = Inr ()"
    by (simp add: worldPriceAbovePool_def world0_def)
  have h6: "distinct (map orderHash (activeListings (state fundedStore)))" by (simp add: st)
  from purchase_confirmed [OF h1 h2 h3 h4 h5 h6]
  show ?thesis
    using h2 by (auto simp add: st)
qed

section \<open>Loop driver\<close>

lemma tick_starts_with_tax:
  "\<exists>more. snd (snd (snd (tick w cfg store))) = TaxCollection # more"
  by (simp add: tick_def split: prod.splits sum.splits)

lemma mainLoop_Suc:
  "snd (mainLoop (Suc n) k worlds cfg store) =
     (fst (tick (worlds k) cfg store), snd (snd (snd (tick (worlds k) cfg store))),
      sleepFor (worlds k) cfg) #
     snd (mainLoop n (Suc k) worlds cfg (fst (snd (tick (worlds k) cfg store))))"
  by (simp split: prod.splits)

lemma mainLoop_length: "length (snd (mainLoop n k worlds cfg store)) = n"
proof (induction n arbitrary: k store)
  case 0
  then show ?case by simp
next
  case (Suc n)
  show ?case unfolding mainLoop_Suc by (simp add: Suc.IH)
qed

lemma mainLoop_entries:
  "entry \<in> set (snd (mainLoop n k worlds cfg store)) \<Longrightarrow>
   \<exists>more. fst (snd entry) = TaxCollection # more"
proof (induction n arbitrary: k store)
  case 0
  then show ?case by simp
next
  case (Suc n)
  from Suc.prems have
    "entry = (fst (tick (worlds k) cfg store), snd (snd (snd (tick (worlds k) cfg store))),
        sleepFor (worlds k) cfg) \<or>
     entry \<in> set (snd (mainLoop n (Suc k) worlds cfg (fst (snd (tick (worlds k) cfg store)))))"
    unfolding mainLoop_Suc by simp
  then show ?case
  proof
    assume "entry = (fst (tick (worlds k) cfg store), snd (snd (snd (tick (worlds k) cfg store))),
        sleepFor (worlds k) cfg)"
    then show ?thesis using tick_starts_with_tax [of "worlds k" cfg store] by simp
  next
    assume "entry \<in> set (snd (mainLoop n (Suc k) worlds cfg (fst (snd (tick (worlds k) cfg store)))))"
    then show ?thesis by (rule Suc.IH)
  qed
qed

text \<open>
  C8, as amended. The four calls of one tick stand in a single \<open>try\<close> block. When a step
  throws, the error is caught and logged and the tick ends there: the steps after it are not
  started in this tick. The loop goes on whatever a tick logged: \<open>n\<close> iterations are run
  when \<open>n\<close> are asked for, each beginning with tax collection. After a tick the loop
  sleeps for what is left of \<open>LOOP_INTERVAL_MS\<close>, so the next tick starts no earlier than
  the interval after the start of this one.
\<close>

theorem tick_error_isolation:
  "(\<forall>e store1 events1.
      collectNewTaxProceeds w cfg store = (Inl e, store1, events1)
      \<longrightarrow> tick w cfg store = (Some e, store1, events1, [TaxCollection])) \<and>
   (\<forall>collected store1 events1 e store2 events2.
      collectNewTaxProceeds w cfg store = (Inr collected, store1, events1) \<and>
      reconcileListings w cfg store1 = (Inl e, store2, events2)
      \<longrightarrow> tick w cfg store =
            (Some e, store2, events1 @ events2, [TaxCollection, ListingReconciliation])) \<and>
   (\<forall>collected store1 events1 proceedsCaptured store2 events2 e store3 events3.
      collectNewTaxProceeds w cfg store = (Inr collected, store1, events1) \<and>
      reconcileListings w cfg store1 = (Inr proceedsCaptured, store2, events2) \<and>
      performBuybackAndBurn w cfg store2 = (Inl e, store3, events3)
      \<longrightarrow> tick w cfg store =
            (Some e, store3, events1 @ events2 @ events3,
             [TaxCollection, ListingReconciliation, BuybackBurn])) \<and>
   (\<forall>n k worlds.
      length (snd (mainLoop n k worlds cfg store)) = n \<and>
      (\<forall>entry \<in> set (snd (mainLoop n k worlds cfg store)).
         \<exists>more. fst (snd entry) = TaxCollection # more)) \<and>
   sleepFor w cfg = max 0 (LOOP_INTERVAL_MS cfg - (loopEnd w - loopStart w)) \<and>
   0 \<le> sleepFor w cfg \<and>
   LOOP_INTERVAL_MS cfg \<le> (loopEnd w - loopStart w) + sleepFor w cfg"
  by (auto simp add: tick_def mainLoop_length sleepFor_def dest: mainLoop_entries)

theorem tick_error_isolation_witness:
  "collectNewTaxProceeds worldNoHead cfg0 listedStore =
     (Inl (Error ''rpc down''), listedStore, []) \<and>
   tick worldNoHead cfg0 listedStore =
     (Some (Error ''rpc down''), listedStore, [], [TaxCollection]) \<and>
   length (snd (mainLoop 3 0 (\<lambda>k. if k = 0 then worldNoHead else world0) cfg0 listedStore)) = 3 \<and>
   sleepFor worldNoHead cfg0 = 8000 \<and>
   LOOP_INTERVAL_MS cfg0 \<le> (loopEnd worldNoHead - loopStart worldNoHead) + sleepFor worldNoHead cfg0"
proof -
  have h: "collectNewTaxProceeds worldNoHead cfg0 listedStore =
     (Inl (Error ''rpc down''), listedStore, [])"
    by (simp add: collectNewTaxProceeds_def worldNoHead_def cfg0_def)
  have s: "max 0 (LOOP_INTERVAL_MS cfg0 - (loopEnd worldNoHead - loopStart worldNoHead)) = 8000"
    by (simp add: cfg0_def worldNoHead_def world0_def)
  note t = tick_error_isolation [of worldNoHead cfg0 listedStore]
  have a: "tick worldNoHead cfg0 listedStore =
     (Some (Error ''rpc down''), listedStore, [], [TaxCollection])"
    using t [THEN conjunct1, rule_format, OF h] .
  have b: "length (snd (mainLoop 3 0 (\<lambda>k. if k = 0 then worldNoHead else world0) cfg0 listedStore)) = 3"
    using t [THEN conjunct2, THEN conjunct2, THEN conjunct2, THEN conjunct1, rule_format,
        of 3 0 "\<lambda>k. if k = 0 then worldNoHead else world0"]
    by simp
  have c: "sleepFor worldNoHead cfg0 = 8000"
    "LOOP_INTERVAL_MS cfg0 \<le> (loopEnd worldNoHead - loopStart worldNoHead) + sleepFor worldNoHead cfg0"
    using t s by simp_all
  show ?thesis using h a b c by simp
qed

text \<open>
  C8 as stated fails: when reading the block number throws in tax collection, the tick ends
  with only that step started and the listing still active, although the reconciliation step,
  had it run in this tick, would have removed the sold listing and credited 1300.
\<close>

theorem tick_error_isolation_counterexample:
  "collectNewTaxProceeds worldNoHead cfg0 listedStore =
     (Inl (Error ''rpc down''), listedStore, []) \<and>
   tick worldNoHead cfg0 listedStore =
     (Some (Error ''rpc down''), listedStore, [], [TaxCollection]) \<and>
   activeListings (state listedStore) = [listingA] \<and>
   salePoolWei (state listedStore) = 0 \<and>
   activeListings (state (fst (snd (reconcileListings worldNoHead cfg0 listedStore)))) = [] \<and>
   salePoolWei (state (fst (snd (reconcileListings worldNoHead cfg0 listedStore)))) = 1300"
proof -
  have h: "collectNewTaxProceeds worldNoHead cfg0 listedStore =
     (Inl (Error ''rpc down''), listedStore, [])"
    by (simp add: collectNewTaxProceeds_def worldNoHead_def cfg0_def)
  then have a: "tick worldNoHead cfg0 listedStore =
     (Some (Error ''rpc down''), listedStore, [], [TaxCollection])"
    by (simp add: tick_def)
  have st: "state listedStore = \<lparr> version = 3, commissionPoolWei = 300, salePoolWei = 0,
      pendingBurnAmount = 0, pendingBurnCostWei = 0, activeListings = [listingA],
      lastTaxBlock = 15 \<rparr>"
    by (simp add: listedStore_def savedStore_def split: sum.splits)
  have sold: "saleDetected worldNoHead cfg0 listingA" by code_simp
  have cap: "MAX_LISTING_CHECKS_PER_TICK cfg0 = 3" by (simp add: cfg0_def)
  have p: "expectedProceedsWei listingA = 1300" by (simp add: listingA_def)
  show ?thesis
    using h a by (simp add: reconcileListings_state st sold cap p)
qed

section \<open>Order hash engine\<close>

lemma padded_empty: "blocks136 (pad136 []) = [1 # replicate 134 0 @ [128]]"
  by code_simp

lemma first_state:
  "map (\<lambda>i. if i < 17 then replicate 25 0 ! i XOR laneOfBlock (1 # replicate 134 0 @ [128]) i
             else replicate 25 0 ! i) [0..<25] =
   [1, 0, 0, 0, 0, 0, 0, 0, 0, 0, 0, 0, 0, 0, 0, 0, 0x8000000000000000, 0, 0, 0, 0, 0, 0, 0, 0]"
  by (simp add: laneOfBlock_def upt_rec nth_append)

lemma permuted_empty:
  "take 4 (keccakF
     [1, 0, 0, 0, 0, 0, 0, 0, 0, 0, 0, 0, 0, 0, 0, 0, 0x8000000000000000, 0, 0, 0, 0, 0, 0, 0, 0]) =
   [0x3c23f7860146d2c5, 0xc003c7dcb27d7e92, 0x3b2782ca53b600e5, 0x70a4855d04d8fa7b]"
  by (simp add: keccakF_def roundConstants_def keccakRound_def iota_def chi_def rhoPi_def
      thetaApply_def thetaD_def columnParity_def rotl64_def not64_def)

lemma squeezed_empty:
  "bytesToHex (concat (map bytesOfLane
     [0x3c23f7860146d2c5, 0xc003c7dcb27d7e92, 0x3b2782ca53b600e5, 0x70a4855d04d8fa7b])) =
   ''0xc5d2460186f7233c927e7db2dcc703c0e500b653ca82273b7bfad8045d85a470''"
  by (simp add: bytesToHex_def bytesOfLane_def hexDigits_def upt_rec)

lemma keccak_256_empty:
  "bytesToHex (keccak_256 []) =
   ''0xc5d2460186f7233c927e7db2dcc703c0e500b653ca82273b7bfad8045d85a470''"
  by (simp only: keccak_256_def padded_empty foldl.simps absorbBlock_def first_state
      permuted_empty squeezed_empty)

lemma keccak256_empty:
  "keccak256 ''0x'' = Inr ''0xc5d2460186f7233c927e7db2dcc703c0e500b653ca82273b7bfad8045d85a470''"
  using keccak_256_empty by (simp add: keccak256_def hexToBytes_def)

lemma empty_hash_not_zero:
  "''0xc5d2460186f7233c927e7db2dcc703c0e500b653ca82273b7bfad8045d85a470'' \<noteq> ZERO_BYTES32"
  by code_simp

text \<open>The digest has 32 bytes.\<close>

lemma length_keccakRound: "length (keccakRound a rc) = 25"
  by (simp add: keccakRound_def iota_def chi_def)

lemma length_rounds: "rcs \<noteq> [] \<Longrightarrow> length (foldl keccakRound a rcs) = 25"
  by (induction rcs rule: rev_induct) (simp_all add: length_keccakRound)

lemma length_keccakF: "length (keccakF a) = 25"
proof -
  have "roundConstants \<noteq> []" by (simp add: roundConstants_def)
  then show ?thesis unfolding keccakF_def by (rule length_rounds)
qed

lemma length_absorbed:
  "length a = 25 \<Longrightarrow> length (foldl absorbBlock a blocks) = 25"
  by (induction blocks arbitrary: a) (simp_all add: absorbBlock_def length_keccakF)

lemma bytesOfLanes:
  "length (concat (map bytesOfLane lanes)) = 8 * length lanes \<and>
   (\<forall>b \<in> set (concat (map bytesOfLane lanes)). b < 256)"
  by (induction lanes) (auto simp add: bytesOfLane_def)

lemma keccak_256_bytes:
  "length (keccak_256 m) = 32 \<and> (\<forall>b \<in> set (keccak_256 m). b < 256)"
proof -
  have "length (foldl absorbBlock (replicate 25 0) (blocks136 (pad136 m))) = 25"
    by (rule length_absorbed) simp
  then have "length (take 4 (foldl absorbBlock (replicate 25 0) (blocks136 (pad136 m)))) = 4"
    by simp
  then show ?thesis
    using bytesOfLanes
      [of "take 4 (foldl absorbBlock (replicate 25 0) (blocks136 (pad136 m)))"]
    by (simp add: keccak_256_def)
qed

text \<open>The hex text of bytes denotes these bytes.\<close>

lemma hexDigits_table:
  "list_all (\<lambda>n. charCodeToBase16 (hexDigits ! n) = Some n) [0..<16]"
  by (simp add: upt_rec hexDigits_def charCodeToBase16_def)

lemma nibblesToBytes_hex:
  "\<forall>b \<in> set bs. b < 256 \<Longrightarrow>
   nibblesToBytes (concat (map (\<lambda>b. [hexDigits ! (b div 16), hexDigits ! (b mod 16)]) bs)) =
     Inr bs"
proof (induction bs)
  case Nil
  then show ?case by simp
next
  case (Cons b bs)
  have "b div 16 < 16" "b mod 16 < 16" using Cons.prems by auto
  then have "charCodeToBase16 (hexDigits ! (b div 16)) = Some (b div 16)"
    "charCodeToBase16 (hexDigits ! (b mod 16)) = Some (b mod 16)"
    using hexDigits_table by (simp_all add: list_all_iff)
  then show ?case using Cons by simp
qed

lemma hexToBytes_bytesToHex:
  assumes "\<forall>b \<in> set bs. b < 256"
  shows "hexToBytes (bytesToHex bs) = Inr bs"
proof -
  have "even (length (concat (map (\<lambda>b. [hexDigits ! (b div 16), hexDigits ! (b mod 16)]) bs)))"
    by (induction bs) simp_all
  then show ?thesis
    using nibblesToBytes_hex [OF assms] by (simp add: hexToBytes_def bytesToHex_def)
qed

lemma keccak256_bytesToHex:
  "\<forall>b \<in> set bs. b < 256 \<Longrightarrow> keccak256 (bytesToHex bs) = Inr (bytesToHex (keccak_256 bs))"
  using hexToBytes_bytesToHex [of bs]
  by (simp add: keccak256_def) (simp add: bytesToHex_def)

lemma keccak256_digest:
  "keccak256 v = Inr h \<Longrightarrow> \<exists>bs. h = bytesToHex (keccak_256 bs)"
  by (auto simp add: keccak256_def split: if_splits sum.splits)

lemma bytesToHex_concat:
  "CHR ''0'' # CHR ''x'' # concat (map (drop 2 \<circ> bytesToHex) ds) = bytesToHex (concat ds)"
  by (induction ds) (simp_all add: bytesToHex_def)

text \<open>\<open>hashStructArray\<close> on digests: the digest of their concatenation, also for none.\<close>

lemma hashStructArray_digests:
  assumes "\<forall>d \<in> set ds. \<forall>b \<in> set d. b < 256"
  shows "hashStructArray (map bytesToHex ds) = Inr (bytesToHex (keccak_256 (concat ds)))"
proof (cases ds)
  case Nil
  have "hexToBytes (bytesToHex []) = Inr []"
    by (rule hexToBytes_bytesToHex) simp
  then have "keccak256 ''0x'' = Inr (bytesToHex (keccak_256 []))"
    by (simp add: keccak256_def bytesToHex_def)
  then show ?thesis using Nil by (simp add: hashStructArray_def)
next
  case (Cons d rest)
  then have "ds \<noteq> []" by simp
  moreover have "\<forall>b \<in> set (concat ds). b < 256" using assms by auto
  ultimately show ?thesis
    using keccak256_bytesToHex [of "concat ds"]
    by (simp add: hashStructArray_def bytesToHex_concat)
qed

lemma hashItems_map:
  "(hashItems hashItem items = Inr hashes) = (map hashItem items = map Inr hashes)"
proof (induction items arbitrary: hashes)
  case Nil
  show ?case by (cases hashes) simp_all
next
  case (Cons item items)
  show ?case
  proof (cases hashes)
    case Nil
    then show ?thesis by (simp split: sum.splits)
  next
    case (Cons h hs)
    show ?thesis
    proof (cases "hashItem item")
      case (Inl e)
      then show ?thesis using Cons by simp
    next
      case (Inr h')
      have "(hashItems hashItem items = Inr hs) = (map hashItem items = map Inr hs)"
        by (rule Cons.IH)
      then show ?thesis
        using Inr Cons by (cases "hashItems hashItem items") simp_all
    qed
  qed
qed

text \<open>The hashes of items are digests: the hex text of 32 bytes each.\<close>

lemma item_hashes_are_digests:
  assumes "\<forall>h \<in> set hashes. \<exists>v. keccak256 v = Inr h"
  shows "\<exists>digests. hashes = map bytesToHex digests \<and> map hexToBytes hashes = map Inr digests \<and>
           (\<forall>d \<in> set digests. length d = 32 \<and> (\<forall>b \<in> set d. b < 256))"
  using assms
proof (induction hashes)
  case Nil
  then show ?case by simp
next
  case (Cons h hashes)
  then obtain digests where ds: "hashes = map bytesToHex digests"
    "map hexToBytes hashes = map Inr digests"
    "\<forall>d \<in> set digests. length d = 32 \<and> (\<forall>b \<in> set d. b < 256)"
    by auto
  obtain bs where h: "h = bytesToHex (keccak_256 bs)"
    using Cons.prems keccak256_digest by fastforce
  have d: "length (keccak_256 bs) = 32" "\<forall>b \<in> set (keccak_256 bs). b < 256"
    using keccak_256_bytes by auto
  have "hexToBytes h = Inr (keccak_256 bs)"
    using hexToBytes_bytesToHex [OF d(2)] h by simp
  then show ?case
    using ds h d by (intro exI [of _ "keccak_256 bs # digests"]) simp
qed

lemma hashOfferItem_digest:
  "hashOfferItem encodeAbiParameters item = Inr h \<Longrightarrow> \<exists>v. keccak256 v = Inr h"
  by (auto simp add: hashOfferItem_def split: sum.splits)

lemma hashConsiderationItem_digest:
  "hashConsiderationItem encodeAbiParameters item = Inr h \<Longrightarrow> \<exists>v. keccak256 v = Inr h"
  by (auto simp add: hashConsiderationItem_def split: sum.splits)

lemma mapped_hashes:
  assumes "map hashItem items = map Inr hashes" and "h \<in> set hashes"
  shows "\<exists>item. hashItem item = Inr h"
proof -
  obtain i where i: "i < length hashes" "hashes ! i = h"
    using assms(2) by (auto simp add: in_set_conv_nth)
  have "length items = length hashes"
    using assms(1) by (metis length_map)
  then have "map hashItem items ! i = hashItem (items ! i)"
    using i by simp
  then have "hashItem (items ! i) = Inr h"
    using assms(1) i by simp
  then show ?thesis ..
qed

lemma deriveSeaportOrderHash_digests:
  assumes offers: "map (hashOfferItem encodeAbiParameters) (offer order) = map Inr offerHashes"
    and considerations: "map (hashConsiderationItem encodeAbiParameters)
          (consideration_order order) = map Inr considerationHashes"
  shows "\<exists>offerDigests considerationDigests.
     map hexToBytes offerHashes = map Inr offerDigests \<and>
     map hexToBytes considerationHashes = map Inr considerationDigests \<and>
     hashStructArray offerHashes = Inr (bytesToHex (keccak_256 (concat offerDigests))) \<and>
     hashStructArray considerationHashes =
       Inr (bytesToHex (keccak_256 (concat considerationDigests))) \<and>
     deriveSeaportOrderHash encodeAbiParameters order =
       (case encodeAbiParameters (orderParameters order
               (bytesToHex (keccak_256 (concat offerDigests)))
               (bytesToHex (keccak_256 (concat considerationDigests)))) of
          Inl e \<Rightarrow> Inl e
        | Inr encoded \<Rightarrow> keccak256 encoded)"
proof -
  have "\<forall>h \<in> set offerHashes. \<exists>v. keccak256 v = Inr h"
    using mapped_hashes [OF offers] hashOfferItem_digest by blast
  from item_hashes_are_digests [OF this] obtain offerDigests where
    od: "offerHashes = map bytesToHex offerDigests"
      "map hexToBytes offerHashes = map Inr offerDigests"
      "\<forall>d \<in> set offerDigests. length d = 32 \<and> (\<forall>b \<in> set d. b < 256)"
    by blast
  have "\<forall>h \<in> set considerationHashes. \<exists>v. keccak256 v = Inr h"
    using mapped_hashes [OF considerations] hashConsiderationItem_digest by blast
  from item_hashes_are_digests [OF this] obtain considerationDigests where
    cd: "considerationHashes = map bytesToHex considerationDigests"
      "map hexToBytes considerationHashes = map Inr considerationDigests"
      "\<forall>d \<in> set considerationDigests. length d = 32 \<and> (\<forall>b \<in> set d. b < 256)"
    by blast
  have oh: "hashStructArray offerHashes = Inr (bytesToHex (keccak_256 (concat offerDigests)))"
    unfolding od(1) by (rule hashStructArray_digests) (use od(3) in simp)
  have ch: "hashStructArray considerationHashes =
      Inr (bytesToHex (keccak_256 (concat considerationDigests)))"
    unfolding cd(1) by (rule hashStructArray_digests) (use cd(3) in simp)
  have io: "hashItems (hashOfferItem encodeAbiParameters) (offer order) = Inr offerHashes"
    using offers by (simp add: hashItems_map)
  have ic: "hashItems (hashConsiderationItem encodeAbiParameters) (consideration_order order) =
      Inr considerationHashes"
    using considerations by (simp add: hashItems_map)
  have "deriveSeaportOrderHash encodeAbiParameters order =
       (case encodeAbiParameters (orderParameters order
               (bytesToHex (keccak_256 (concat offerDigests)))
               (bytesToHex (keccak_256 (concat considerationDigests)))) of
          Inl e \<Rightarrow> Inl e
        | Inr encoded \<Rightarrow> keccak256 encoded)"
    by (simp add: deriveSeaportOrderHash_def io ic oh ch)
  then show ?thesis
    using od(2) cd(2) oh ch by blast
qed

lemma digest_of_nothing:
  "keccak_256 [] =
     [197, 210, 70, 1, 134, 247, 35, 60, 146, 126, 125, 178, 220, 199, 3, 192, 229, 0,
      182, 83, 202, 130, 39, 59, 123, 250, 216, 4, 93, 133, 164, 112]"
  by (simp only: keccak_256_def padded_empty foldl.simps absorbBlock_def first_state
      permuted_empty)
     (simp add: bytesOfLane_def upt_rec)

lemma padded_digest:
  "blocks136 (pad136
     [197, 210, 70, 1, 134, 247, 35, 60, 146, 126, 125, 178, 220, 199, 3, 192, 229, 0,
      182, 83, 202, 130, 39, 59, 123, 250, 216, 4, 93, 133, 164, 112]) =
   [
     [197, 210, 70, 1, 134, 247, 35, 60, 146, 126, 125, 178, 220, 199, 3, 192, 229, 0,
      182, 83, 202, 130, 39, 59, 123, 250, 216, 4, 93, 133, 164, 112] @
    1 # replicate 102 0 @ [128]]"
  by code_simp

lemma first_state_digest:
  "map (\<lambda>i. if i < 17
             then replicate 25 0 ! i XOR
                  laneOfBlock
                    (
     [197, 210, 70, 1, 134, 247, 35, 60, 146, 126, 125, 178, 220, 199, 3, 192, 229, 0,
      182, 83, 202, 130, 39, 59, 123, 250, 216, 4, 93, 133, 164, 112] @
                     1 # replicate 102 0 @ [128]) i
             else replicate 25 0 ! i) [0..<25] =
   [0x3c23f7860146d2c5, 0xc003c7dcb27d7e92, 0x3b2782ca53b600e5, 0x70a4855d04d8fa7b, 1, 0, 0, 0,
    0, 0, 0, 0, 0, 0, 0, 0, 0x8000000000000000, 0, 0, 0, 0, 0, 0, 0, 0]"
  by (simp add: laneOfBlock_def upt_rec nth_append)

lemma permuted_digest:
  "take 4 (keccakF
     [0x3c23f7860146d2c5, 0xc003c7dcb27d7e92, 0x3b2782ca53b600e5, 0x70a4855d04d8fa7b, 1, 0, 0, 0,
      0, 0, 0, 0, 0, 0, 0, 0, 0x8000000000000000, 0, 0, 0, 0, 0, 0, 0, 0]) =
   [0x87eceb73ff3eca10, 0xeaaf6085c54f39d2, 0x02e4f5217aac6db8, 0x8f75a6c8e5550aea]"
  by (simp add: keccakF_def roundConstants_def keccakRound_def iota_def chi_def rhoPi_def
      thetaApply_def thetaD_def columnParity_def rotl64_def not64_def)

lemma squeezed_digest:
  "bytesToHex (concat (map bytesOfLane
     [0x87eceb73ff3eca10, 0xeaaf6085c54f39d2, 0x02e4f5217aac6db8, 0x8f75a6c8e5550aea])) =
   ''0x10ca3eff73ebec87d2394fc58560afeab86dac7a21f5e402ea0a55e5c8a6758f''"
  by (simp add: bytesToHex_def bytesOfLane_def hexDigits_def upt_rec)

lemma keccak_256_digest_of_nothing:
  "bytesToHex (keccak_256 (keccak_256 [])) =
   ''0x10ca3eff73ebec87d2394fc58560afeab86dac7a21f5e402ea0a55e5c8a6758f''"
  by (simp only: digest_of_nothing)
     (simp only: keccak_256_def padded_digest foldl.simps absorbBlock_def first_state_digest
        permuted_digest squeezed_digest)

text \<open>One struct hash that is the digest of nothing: the array hash is the digest of it.\<close>

lemma hashStructArray_one_hash:
  "hashStructArray [''0xc5d2460186f7233c927e7db2dcc703c0e500b653ca82273b7bfad8045d85a470''] =
     Inr ''0x10ca3eff73ebec87d2394fc58560afeab86dac7a21f5e402ea0a55e5c8a6758f''"
proof -
  have "\<forall>d \<in> set [keccak_256 []]. \<forall>b \<in> set d. b < 256"
    using keccak_256_bytes by simp
  from hashStructArray_digests [OF this] show ?thesis
    by (simp add: keccak_256_empty keccak_256_digest_of_nothing)
qed

text \<open>
  C9. \<open>hashStructArray\<close> of no hashes is \<open>keccak256("0x")\<close>, the Keccak-256 hash of the
  empty byte string, whose value is computed here and is not the all-zero word; for one or
  more hashes it is the hash of their concatenation (each without its \<open>0x\<close>), computed
  here for one hash. In \<open>deriveSeaportOrderHash\<close> the hashes of the offer items, taken
  item by item in their order, are the list handed to \<open>hashStructArray\<close>, and likewise
  for the consideration items: when every item has a struct hash, each is the hex text of a
  32-byte digest, and the fourth and fifth values of the encoded order are the Keccak-256
  digests of the concatenated offer digests and of the concatenated consideration digests;
  for an empty list that is the digest of the empty byte string.
\<close>

theorem hashStructArray_empty_is_keccak_of_nothing:
  "hashStructArray [] = keccak256 ''0x'' \<and>
   hashStructArray [] =
     Inr ''0xc5d2460186f7233c927e7db2dcc703c0e500b653ca82273b7bfad8045d85a470'' \<and>
   hashStructArray [] \<noteq> Inr ZERO_BYTES32 \<and>
   (\<forall>hashes. hashes \<noteq> [] \<longrightarrow>
      hashStructArray hashes = keccak256 (''0x'' @ concat (map (drop 2) hashes))) \<and>
   hashStructArray [''0xc5d2460186f7233c927e7db2dcc703c0e500b653ca82273b7bfad8045d85a470''] =
     Inr ''0x10ca3eff73ebec87d2394fc58560afeab86dac7a21f5e402ea0a55e5c8a6758f'' \<and>
   (\<forall>encodeAbiParameters items hashes.
      (hashItems (hashOfferItem encodeAbiParameters) items = Inr hashes) =
      (map (hashOfferItem encodeAbiParameters) items = map Inr hashes)) \<and>
   (\<forall>encodeAbiParameters items hashes.
      (hashItems (hashConsiderationItem encodeAbiParameters) items = Inr hashes) =
      (map (hashConsiderationItem encodeAbiParameters) items = map Inr hashes)) \<and>
   (\<forall>encodeAbiParameters order offerHashes considerationHashes.
      map (hashOfferItem encodeAbiParameters) (offer order) = map Inr offerHashes \<and>
      map (hashConsiderationItem encodeAbiParameters) (consideration_order order) =
        map Inr considerationHashes
      \<longrightarrow> (\<exists>offerDigests considerationDigests.
            map hexToBytes offerHashes = map Inr offerDigests \<and>
            map hexToBytes considerationHashes = map Inr considerationDigests \<and>
            hashStructArray offerHashes =
              Inr (bytesToHex (keccak_256 (concat offerDigests))) \<and>
            hashStructArray considerationHashes =
              Inr (bytesToHex (keccak_256 (concat considerationDigests))) \<and>
            deriveSeaportOrderHash encodeAbiParameters order =
              (case encodeAbiParameters (orderParameters order
                      (bytesToHex (keccak_256 (concat offerDigests)))
                      (bytesToHex (keccak_256 (concat considerationDigests)))) of
                 Inl e \<Rightarrow> Inl e
               | Inr encoded \<Rightarrow> keccak256 encoded))) \<and>
   (\<forall>encodeAbiParameters order. offer order = [] \<longrightarrow>
      deriveSeaportOrderHash encodeAbiParameters order =
        (case hashItems (hashConsiderationItem encodeAbiParameters) (consideration_order order) of
           Inl e \<Rightarrow> Inl e
         | Inr considerationHashes \<Rightarrow>
        (case hashStructArray considerationHashes of
           Inl e \<Rightarrow> Inl e
         | Inr considerationArrayHash \<Rightarrow>
        (case encodeAbiParameters (orderParameters order
                ''0xc5d2460186f7233c927e7db2dcc703c0e500b653ca82273b7bfad8045d85a470''
                considerationArrayHash) of
           Inl e \<Rightarrow> Inl e
         | Inr encoded \<Rightarrow> keccak256 encoded)))) \<and>
   (\<forall>encodeAbiParameters order. consideration_order order = [] \<longrightarrow>
      deriveSeaportOrderHash encodeAbiParameters order =
        (case hashItems (hashOfferItem encodeAbiParameters) (offer order) of
           Inl e \<Rightarrow> Inl e
         | Inr offerHashes \<Rightarrow>
        (case hashStructArray offerHashes of
           Inl e \<Rightarrow> Inl e
         | Inr offerArrayHash \<Rightarrow>
        (case encodeAbiParameters (orderParameters order offerArrayHash
                ''0xc5d2460186f7233c927e7db2dcc703c0e500b653ca82273b7bfad8045d85a470'') of
           Inl e \<Rightarrow> Inl e
         | Inr encoded \<Rightarrow> keccak256 encoded))))"
proof (intro conjI allI impI, goal_cases)
  case 1
  show ?case by (simp add: hashStructArray_def)
next
  case 2
  show ?case by (simp add: hashStructArray_def keccak256_empty)
next
  case 3
  show ?case using empty_hash_not_zero by (simp add: hashStructArray_def keccak256_empty)
next
  case (4 hashes)
  then show ?case by (simp add: hashStructArray_def)
next
  case 5
  show ?case by (rule hashStructArray_one_hash)
next
  case (6 encodeAbiParameters items hashes)
  show ?case by (rule hashItems_map)
next
  case (7 encodeAbiParameters items hashes)
  show ?case by (rule hashItems_map)
next
  case (8 encodeAbiParameters order offerHashes considerationHashes)
  then show ?case
    by (intro deriveSeaportOrderHash_digests) simp_all
next
  case (9 encodeAbiParameters order)
  then show ?case
    by (simp add: deriveSeaportOrderHash_def hashStructArray_def keccak256_empty
        split: sum.splits)
next
  case (10 encodeAbiParameters order)
  then show ?case
    by (simp add: deriveSeaportOrderHash_def hashStructArray_def keccak256_empty
        split: sum.splits)
qed

theorem hashStructArray_empty_is_keccak_of_nothing_witness:
  "twoHashes \<noteq> [] \<and>
   hashStructArray twoHashes =
     keccak256 (''0xa66999307ad1bb4fde44d13a5d710bd7718e0c87c1eef68a571629fbf5b93d02'' @
                ''4e03657aea45a94fc7d47ba826c8d667c0d1e6e33a64a036ec44f58fa12d6c45'') \<and>
   offer emptyOrder = [] \<and> consideration_order emptyOrder = [] \<and>
   deriveSeaportOrderHash (\<lambda>values. Inr ''0x'') emptyOrder =
     Inr ''0xc5d2460186f7233c927e7db2dcc703c0e500b653ca82273b7bfad8045d85a470'' \<and>
   map (hashOfferItem offerHashOnly) (offer oneItemOrder) =
     map Inr [''0xc5d2460186f7233c927e7db2dcc703c0e500b653ca82273b7bfad8045d85a470''] \<and>
   map (hashConsiderationItem offerHashOnly) (consideration_order oneItemOrder) = map Inr [] \<and>
   deriveSeaportOrderHash offerHashOnly oneItemOrder =
     keccak256 ''0x10ca3eff73ebec87d2394fc58560afeab86dac7a21f5e402ea0a55e5c8a6758f''"
proof -
  have h1: "twoHashes \<noteq> []" by (simp add: twoHashes_def)
  have h2: "offer emptyOrder = []" "consideration_order emptyOrder = []"
    by (simp_all add: emptyOrder_def)
  note t = hashStructArray_empty_is_keccak_of_nothing
  have k: "keccak256 ''0x'' = Inr ''0xc5d2460186f7233c927e7db2dcc703c0e500b653ca82273b7bfad8045d85a470''"
    using t [THEN conjunct1] t [THEN conjunct2, THEN conjunct1] by simp
  have a: "hashStructArray twoHashes = keccak256 (''0x'' @ concat (map (drop 2) twoHashes))"
    using t [THEN conjunct2, THEN conjunct2, THEN conjunct2, THEN conjunct1, rule_format, OF h1] .
  have b: "deriveSeaportOrderHash (\<lambda>values. Inr ''0x'') emptyOrder =
     Inr ''0xc5d2460186f7233c927e7db2dcc703c0e500b653ca82273b7bfad8045d85a470''"
    using t [THEN conjunct2, THEN conjunct2, THEN conjunct2, THEN conjunct2, THEN conjunct2,
        THEN conjunct2, THEN conjunct2, THEN conjunct2, THEN conjunct1,
        rule_format, OF h2(1), of "\<lambda>values. Inr ''0x''"] t [THEN conjunct1] h2(2) k
    by simp
  have h3: "map (hashOfferItem offerHashOnly) (offer oneItemOrder) =
     map Inr [''0xc5d2460186f7233c927e7db2dcc703c0e500b653ca82273b7bfad8045d85a470'']"
    using k by (simp add: oneItemOrder_def emptyOrder_def hashOfferItem_def offerHashOnly_def)
  have h4: "map (hashConsiderationItem offerHashOnly) (consideration_order oneItemOrder) =
      map Inr []"
    by (simp add: oneItemOrder_def emptyOrder_def)
  have one: "hashStructArray
      [''0xc5d2460186f7233c927e7db2dcc703c0e500b653ca82273b7bfad8045d85a470''] =
     Inr ''0x10ca3eff73ebec87d2394fc58560afeab86dac7a21f5e402ea0a55e5c8a6758f''"
    using t [THEN conjunct2, THEN conjunct2, THEN conjunct2, THEN conjunct2, THEN conjunct1] .
  obtain offerDigests considerationDigests where
    d: "hashStructArray
          [''0xc5d2460186f7233c927e7db2dcc703c0e500b653ca82273b7bfad8045d85a470''] =
        Inr (bytesToHex (keccak_256 (concat offerDigests)))"
      "deriveSeaportOrderHash offerHashOnly oneItemOrder =
         (case offerHashOnly (orderParameters oneItemOrder
                 (bytesToHex (keccak_256 (concat offerDigests)))
                 (bytesToHex (keccak_256 (concat considerationDigests)))) of
            Inl e \<Rightarrow> Inl e
          | Inr encoded \<Rightarrow> keccak256 encoded)"
    using t [THEN conjunct2, THEN conjunct2, THEN conjunct2, THEN conjunct2, THEN conjunct2,
        THEN conjunct2, THEN conjunct2, THEN conjunct1, rule_format,
        of offerHashOnly oneItemOrder
        "[''0xc5d2460186f7233c927e7db2dcc703c0e500b653ca82273b7bfad8045d85a470'']" "[]"]
      h3 h4
    by blast
  have "bytesToHex (keccak_256 (concat offerDigests)) =
      ''0x10ca3eff73ebec87d2394fc58560afeab86dac7a21f5e402ea0a55e5c8a6758f''"
    using d(1) one by simp
  then have c: "deriveSeaportOrderHash offerHashOnly oneItemOrder =
     keccak256 ''0x10ca3eff73ebec87d2394fc58560afeab86dac7a21f5e402ea0a55e5c8a6758f''"
    by (simp add: d(2) orderParameters_def offerHashOnly_def)
  show ?thesis
    using h1 h2 a b c h3 h4 by (simp add: twoHashes_def)
qed

end
